(* ===== verification/Gateway_Prelude.thy ===== *)
theory Gateway_Prelude
  imports Main "HOL-Library.State_Monad" "HOL-Library.Monad_Syntax"
begin

text \<open>
  Shared vocabulary of the development.

  A Go function that talks to the outside world is a computation of type \<open>('w, 'a) io\<close>: a
  state transformer over an abstract world \<open>'w\<close>. The world stands for the two API servers,
  the clock and every other actor, so a call of the client may move it in any way the client
  parameter says. A Go function with an error result is a \<open>('w, 'a) fio\<close>: the value is
  \<open>Inl e\<close> for a non-nil error and \<open>Inr x\<close> for a nil error and the results \<open>x\<close>.

  The second half is a small Hoare calculus over these computations (\<open>valid\<close>): one rule per
  combinator, collected in \<open>valid_intros\<close>, so that the proofs about a handler follow the
  shape of its code.
\<close>

named_theorems valid_intros \<open>structural rules of the Hoare calculus\<close>
named_theorems io_simps \<open>evaluation of effectful computations\<close>

section \<open>Errors\<close>

text \<open>
  \<open>APIError reason msg\<close> is a status error of the Kubernetes API; \<open>Errorf msg\<close> is a plain
  error; \<open>Wrap msg e\<close> is \<open>fmt.Errorf("msg: %w", e)\<close>; \<open>ListenerRefsError\<close> is the
  reconciler's typed error.
\<close>

datatype api_reason = NotFound | AlreadyExists | Conflict | OtherReason

datatype error =
    APIError api_reason string
  | Errorf string
  | Wrap string error
  | ListenerRefsError string string string

primrec Error :: "error \<Rightarrow> string" where
  "Error (APIError r m) = m"
| "Error (Errorf m) = m"
| "Error (Wrap m e) = m @ '': '' @ Error e"
| "Error (ListenerRefsError l r m) = m"

text \<open>\<open>errors.As\<close> walks the chain of wrapped errors; so do the API predicates.\<close>

primrec ReasonForError :: "error \<Rightarrow> api_reason option" where
  "ReasonForError (APIError r m) = Some r"
| "ReasonForError (Errorf m) = None"
| "ReasonForError (Wrap m e) = ReasonForError e"
| "ReasonForError (ListenerRefsError l r m) = None"

definition IsNotFound :: "error \<Rightarrow> bool" where
  "IsNotFound e \<longleftrightarrow> ReasonForError e = Some NotFound"

definition IsAlreadyExists :: "error \<Rightarrow> bool" where
  "IsAlreadyExists e \<longleftrightarrow> ReasonForError e = Some AlreadyExists"

definition IsConflict :: "error \<Rightarrow> bool" where
  "IsConflict e \<longleftrightarrow> ReasonForError e = Some Conflict"

primrec asListenerRefsError :: "error \<Rightarrow> (string \<times> string \<times> string) option" where
  "asListenerRefsError (APIError r m) = None"
| "asListenerRefsError (Errorf m) = None"
| "asListenerRefsError (Wrap m e) = asListenerRefsError e"
| "asListenerRefsError (ListenerRefsError l r m) = Some (l, r, m)"

section \<open>Computations\<close>

type_synonym ('w, 'a) io = "('w, 'a) state"
type_synonym ('w, 'a) fio = "('w, error + 'a) state"

abbreviation pureIO :: "'a \<Rightarrow> ('w, 'a) io" where
  "pureIO x \<equiv> State_Monad.return x"

definition ok :: "'a \<Rightarrow> ('w, 'a) fio" where
  "ok x = State_Monad.return (Inr x)"

definition fail :: "error \<Rightarrow> ('w, 'a) fio" where
  "fail e = State_Monad.return (Inl e)"

text \<open>
  \<open>bindE m w k\<close> is \<open>x, err := m; if err != nil { return w(err) }; k(x)\<close>, where \<open>w\<close>
  is the wrapping the code applies to the error it returns (the identity when it returns the
  error as it is).
\<close>

definition bindE ::
  "('w, 'a) fio \<Rightarrow> (error \<Rightarrow> error) \<Rightarrow> ('a \<Rightarrow> ('w, 'b) fio) \<Rightarrow> ('w, 'b) fio" where
  "bindE m w k = State_Monad.bind m (\<lambda>r. case r of Inl e \<Rightarrow> fail (w e) | Inr x \<Rightarrow> k x)"

text \<open>\<open>tryE m h k\<close> inspects the error itself: \<open>if err != nil { h(err) } else { k(x) }\<close>.\<close>

definition tryE ::
  "('w, 'a) fio \<Rightarrow> (error \<Rightarrow> ('w, 'b) io) \<Rightarrow> ('a \<Rightarrow> ('w, 'b) io) \<Rightarrow> ('w, 'b) io" where
  "tryE m h k = State_Monad.bind m (\<lambda>r. case r of Inl e \<Rightarrow> h e | Inr x \<Rightarrow> k x)"

text \<open>A \<open>for\<close> loop whose body may return an error from the function.\<close>

fun forE :: "('a \<Rightarrow> ('w, unit) fio) \<Rightarrow> 'a list \<Rightarrow> ('w, unit) fio" where
  "forE f [] = ok ()"
| "forE f (x # xs) = bindE (f x) id (\<lambda>_. forE f xs)"

lemma run_ok [simp, io_simps]: "run_state (ok x) w = (Inr x, w)"
  by (simp add: ok_def)

lemma run_fail [simp, io_simps]: "run_state (fail e) w = (Inl e, w)"
  by (simp add: fail_def)

lemma run_bindE [simp, io_simps]:
  "run_state (bindE m f k) w =
     (case run_state m w of (Inl e, w') \<Rightarrow> (Inl (f e), w') | (Inr x, w') \<Rightarrow> run_state (k x) w')"
  by (simp add: bindE_def split: prod.splits sum.splits)

lemma run_tryE [simp, io_simps]:
  "run_state (tryE m h k) w =
     (case run_state m w of (Inl e, w') \<Rightarrow> run_state (h e) w' | (Inr x, w') \<Rightarrow> run_state (k x) w')"
  by (simp add: tryE_def split: prod.splits sum.splits)

lemma bindE_fail [simp]: "bindE (fail e) f k = fail (f e)"
  by (simp add: bindE_def fail_def)

lemma bindE_ok [simp]: "bindE (ok x) f k = k x"
  by (simp add: bindE_def ok_def)

section \<open>A Hoare calculus\<close>

definition valid :: "('w \<Rightarrow> bool) \<Rightarrow> ('w, 'a) io \<Rightarrow> ('a \<Rightarrow> 'w \<Rightarrow> bool) \<Rightarrow> bool" where
  "valid P m Q \<longleftrightarrow> (\<forall>w. P w \<longrightarrow> (case run_state m w of (x, w') \<Rightarrow> Q x w'))"

abbreviation preserves :: "('w \<Rightarrow> bool) \<Rightarrow> ('w, 'a) io \<Rightarrow> bool" where
  "preserves P m \<equiv> valid P m (\<lambda>_. P)"

lemma validI: "(\<And>w x w'. P w \<Longrightarrow> run_state m w = (x, w') \<Longrightarrow> Q x w') \<Longrightarrow> valid P m Q"
  by (auto simp: valid_def)

lemma validD: "valid P m Q \<Longrightarrow> P w \<Longrightarrow> run_state m w = (x, w') \<Longrightarrow> Q x w'"
  by (auto simp: valid_def)

lemma valid_post: "valid P m Q \<Longrightarrow> (\<And>x w. Q x w \<Longrightarrow> Q' x w) \<Longrightarrow> valid P m Q'"
  by (auto simp: valid_def)

lemma valid_pre: "valid P m Q \<Longrightarrow> (\<And>w. P' w \<Longrightarrow> P w) \<Longrightarrow> valid P' m Q"
  by (auto simp: valid_def)

lemma valid_return [valid_intros]: "(\<And>w. P w \<Longrightarrow> Q x w) \<Longrightarrow> valid P (pureIO x) Q"
  by (auto simp: valid_def)

lemma valid_ok [valid_intros]: "(\<And>w. P w \<Longrightarrow> Q (Inr x) w) \<Longrightarrow> valid P (ok x) Q"
  by (auto simp: valid_def)

lemma valid_fail [valid_intros]: "(\<And>w. P w \<Longrightarrow> Q (Inl e) w) \<Longrightarrow> valid P (fail e) Q"
  by (auto simp: valid_def)

lemma valid_bind:
  "valid P m R \<Longrightarrow> (\<And>x. valid (R x) (k x) Q) \<Longrightarrow> valid P (State_Monad.bind m k) Q"
  unfolding valid_def by (fastforce split: prod.splits)

lemma valid_bindE:
  assumes "valid P m R" and "\<And>e w. R (Inl e) w \<Longrightarrow> Q (Inl (f e)) w"
    and "\<And>x. valid (R (Inr x)) (k x) Q"
  shows "valid P (bindE m f k) Q"
  using assms unfolding valid_def by (fastforce split: prod.splits sum.splits)

lemma valid_tryE:
  assumes "valid P m R" and "\<And>e. valid (R (Inl e)) (h e) Q" and "\<And>x. valid (R (Inr x)) (k x) Q"
  shows "valid P (tryE m h k) Q"
  using assms unfolding valid_def by (fastforce split: prod.splits sum.splits)

lemma valid_if [valid_intros]:
  "(b \<Longrightarrow> valid P m Q) \<Longrightarrow> (\<not> b \<Longrightarrow> valid P m' Q) \<Longrightarrow> valid P (if b then m else m') Q"
  by simp

lemma valid_case_option [valid_intros]:
  "(x = None \<Longrightarrow> valid P m Q) \<Longrightarrow> (\<And>y. x = Some y \<Longrightarrow> valid P (k y) Q) \<Longrightarrow>
   valid P (case x of None \<Rightarrow> m | Some y \<Rightarrow> k y) Q"
  by (cases x) auto

text \<open>The rules for a property kept along the way.\<close>

lemma preserves_bind [valid_intros]:
  "preserves P m \<Longrightarrow> (\<And>x. preserves P (k x)) \<Longrightarrow> preserves P (State_Monad.bind m k)"
  by (rule valid_bind)

lemma preserves_bindE [valid_intros]:
  "preserves P m \<Longrightarrow> (\<And>x. preserves P (k x)) \<Longrightarrow> preserves P (bindE m f k)"
  by (rule valid_bindE)

lemma preserves_tryE [valid_intros]:
  "preserves P m \<Longrightarrow> (\<And>e. preserves P (h e)) \<Longrightarrow> (\<And>x. preserves P (k x)) \<Longrightarrow>
   preserves P (tryE m h k)"
  by (rule valid_tryE)

lemma preserves_forE [valid_intros]:
  "(\<And>x. x \<in> set xs \<Longrightarrow> preserves P (f x)) \<Longrightarrow> preserves P (forE f xs)"
  by (induction xs) (auto intro!: valid_intros)

section \<open>Lists\<close>

text \<open>
  A nil slice and an empty one are the same list but not the same value for
  \<open>reflect.DeepEqual\<close>. Status fields that are compared with it are of type \<open>'a slice\<close>.
\<close>

type_synonym 'a slice = "'a list option"

definition elems :: "'a slice \<Rightarrow> 'a list" where
  "elems s = (case s of None \<Rightarrow> [] | Some xs \<Rightarrow> xs)"

lemma elems_simps [simp]: "elems None = []" "elems (Some xs) = xs"
  by (simp_all add: elems_def)

lemma find_append: "find P (xs @ ys) = (case find P xs of None \<Rightarrow> find P ys | Some x \<Rightarrow> Some x)"
  by (induction xs) auto

lemma find_cong_map: "(\<And>x. P (f x) = P x) \<Longrightarrow> find P (map f xs) = map_option f (find P xs)"
  by (induction xs) auto

lemma find_Some_set: "find P xs = Some x \<Longrightarrow> x \<in> set xs \<and> P x"
  by (induction xs) (auto split: if_splits)

lemma find_unique:
  "distinct (map f xs) \<Longrightarrow> x \<in> set xs \<Longrightarrow> find (\<lambda>y. f y = f x) xs = Some x"
  by (induction xs) (auto simp: image_iff)

end
