(* ===== verification/Kube_Types.thy ===== *)
theory Kube_Types
  imports Gateway_Prelude
begin

text \<open>
  The Kubernetes and Gateway API objects the controller reads and writes, with the fields its
  code touches. Pointers are options, Go maps are partial functions, string enumerations are
  strings. A field no code of the repository mentions is left out: it is never written, so it
  takes no part in any comparison.
\<close>

section \<open>Metadata\<close>

type_synonym nname = "string \<times> string"  \<comment> \<open>NamespacedName: namespace, name\<close>
type_synonym strmap = "string \<rightharpoonup> string"

record objectMeta =
  m_Name :: string
  m_Namespace :: string
  m_Labels :: strmap
  m_Annotations :: strmap
  m_Generation :: int
  m_ResourceVersion :: string
  m_Deleting :: bool  \<comment> \<open>DeletionTimestamp is not nil\<close>

definition emptyMeta :: objectMeta where
  "emptyMeta = \<lparr>m_Name = [], m_Namespace = [], m_Labels = Map.empty, m_Annotations = Map.empty,
     m_Generation = 0, m_ResourceVersion = [], m_Deleting = False\<rparr>"

text \<open>A missing key of a Go string map reads as the empty string.\<close>

definition mapGet :: "strmap \<Rightarrow> string \<Rightarrow> string" where
  "mapGet m k = (case m k of None \<Rightarrow> [] | Some v \<Rightarrow> v)"

definition keyOf :: "objectMeta \<Rightarrow> nname" where
  "keyOf m = (m_Namespace m, m_Name m)"

section \<open>Conditions\<close>

datatype conditionStatus = ConditionTrue | ConditionFalse | ConditionUnknown

record condition =
  c_Type :: string
  c_Status :: conditionStatus
  c_Reason :: string
  c_Message :: string
  c_LastTransitionTime :: int
  c_ObservedGeneration :: int

section \<open>Gateways\<close>

record secretObjectReference =
  s_Group :: "string option"
  s_Kind :: "string option"
  s_Name :: string
  s_Namespace :: "string option"

record listenerTLSConfig =
  lt_Mode :: "string option"
  lt_CertificateRefs :: "secretObjectReference list"

record routeGroupKind =
  rgk_Group :: "string option"
  rgk_Kind :: string

record labelSelector =
  sel_MatchLabels :: "(string \<times> string) list"
  sel_MatchExpressions :: "(string \<times> string \<times> string list) list"

record routeNamespaces =
  rn_From :: "string option"
  rn_Selector :: "labelSelector option"

record allowedRoutes =
  ar_Kinds :: "routeGroupKind list"
  ar_Namespaces :: "routeNamespaces option"

record listener =
  l_Name :: string
  l_Hostname :: "string option"
  l_Port :: int
  l_Protocol :: string
  l_TLS :: "listenerTLSConfig option"
  l_AllowedRoutes :: "allowedRoutes option"

record gatewayBackendTLS =
  gb_ClientCertificateRef :: "secretObjectReference option"

record gatewayTLSConfig =
  gt_Backend :: "gatewayBackendTLS option"

record gatewayStatusAddress =
  ga_Type :: "string option"
  ga_Value :: string

record listenerStatus =
  ls_Name :: string
  ls_SupportedKinds :: "routeGroupKind slice"
  ls_Conditions :: "condition list"

record gatewayStatus =
  gs_Addresses :: "gatewayStatusAddress list"
  gs_Conditions :: "condition list"
  gs_Listeners :: "listenerStatus slice"

record gateway =
  gw_Meta :: objectMeta
  gw_GatewayClassName :: string
  gw_Listeners :: "listener list"
  gw_TLS :: "gatewayTLSConfig option"
  gw_Status :: gatewayStatus

abbreviation gw_Namespace :: "gateway \<Rightarrow> string" where
  "gw_Namespace g \<equiv> m_Namespace (gw_Meta g)"

abbreviation gw_Name :: "gateway \<Rightarrow> string" where
  "gw_Name g \<equiv> m_Name (gw_Meta g)"

abbreviation gw_Generation :: "gateway \<Rightarrow> int" where
  "gw_Generation g \<equiv> m_Generation (gw_Meta g)"

definition emptyGatewayStatus :: gatewayStatus where
  "emptyGatewayStatus = \<lparr>gs_Addresses = [], gs_Conditions = [], gs_Listeners = None\<rparr>"

record gatewayClass =
  gc_Meta :: objectMeta
  gc_ControllerName :: string
  gc_Conditions :: "condition list"
  gc_SupportedFeatures :: "string list"

section \<open>Routes, grants and policies\<close>

record parentReference =
  p_Group :: "string option"
  p_Kind :: "string option"
  p_Namespace :: "string option"
  p_Name :: string
  p_SectionName :: "string option"
  p_Port :: "int option"

record backendObjectReference =
  b_Group :: "string option"
  b_Kind :: "string option"
  b_Name :: string
  b_Namespace :: "string option"
  b_Port :: "int option"

record routeRule =
  rr_BackendRefs :: "backendObjectReference list"

record routeParentStatus =
  rp_ParentRef :: parentReference
  rp_ControllerName :: string
  rp_Conditions :: "condition list"

text \<open>
  The three route kinds have different Go types with the same fields as far as the status
  writer is concerned; one record models them, and the client has a resource for each.
\<close>

record route =
  r_Meta :: objectMeta
  r_ParentRefs :: "parentReference list"
  r_Hostnames :: "string list"
  r_Rules :: "routeRule list"
  r_Parents :: "routeParentStatus slice"

record referenceGrantFrom =
  rf_Group :: string
  rf_Kind :: string
  rf_Namespace :: string

record referenceGrantTo =
  rt_Group :: string
  rt_Kind :: string
  rt_Name :: "string option"

record referenceGrant =
  rg_From :: "referenceGrantFrom list"
  rg_To :: "referenceGrantTo list"

record localObjectReference =
  lo_Group :: string
  lo_Kind :: string
  lo_Name :: string

record backendTLSPolicy =
  bp_CACertificateRefs :: "localObjectReference list"

section \<open>Core objects\<close>

record kubeNamespace =
  ns_Meta :: objectMeta

record serviceAccount =
  sa_Meta :: objectMeta

record secret =
  sec_Meta :: objectMeta
  sec_Type :: string
  sec_Data :: strmap
  sec_StringData :: strmap

record servicePort =
  sp_Name :: string
  sp_Port :: int
  sp_TargetPort :: int
  sp_Protocol :: string
  sp_NodePort :: int

record loadBalancerIngress =
  lb_IP :: string
  lb_Hostname :: string

record service =
  svc_Meta :: objectMeta
  svc_Selector :: strmap
  svc_Type :: string
  svc_Ports :: "servicePort list"
  svc_ClusterIP :: string
  svc_ClusterIPs :: "string list"
  svc_IPFamilies :: "string list"
  svc_IPFamilyPolicy :: "string option"
  svc_HealthCheckNodePort :: int
  svc_AllocateLoadBalancerNodePorts :: "bool option"
  svc_Ingress :: "loadBalancerIngress list"

section \<open>Deployments\<close>

record keyToPath =
  kp_Key :: string
  kp_Path :: string

record secretVolumeSource =
  sv_SecretName :: string
  sv_Items :: "keyToPath list"
  sv_Optional :: "bool option"

record csiVolumeSource =
  csi_Driver :: string
  csi_ReadOnly :: "bool option"
  csi_VolumeAttributes :: strmap

record volumeSource =
  vs_Secret :: "secretVolumeSource option"
  vs_CSI :: "csiVolumeSource option"
  vs_EmptyDir :: bool  \<comment> \<open>an EmptyDir source is set\<close>

record volume =
  v_Name :: string
  v_Source :: volumeSource

record volumeMount =
  vm_Name :: string
  vm_MountPath :: string
  vm_ReadOnly :: bool

record envVar =
  e_Name :: string
  e_Value :: string

record containerPort =
  cp_Name :: string
  cp_ContainerPort :: int
  cp_Protocol :: string

record securityContext =
  sx_AllowPrivilegeEscalation :: "bool option"
  sx_ReadOnlyRootFilesystem :: "bool option"
  sx_RunAsNonRoot :: "bool option"
  sx_RunAsUser :: "int option"
  sx_RunAsGroup :: "int option"
  sx_SeccompProfile :: "string option"
  sx_CapDrop :: "string list"
  sx_CapAdd :: "string list"

record resourceRequirements =
  rq_Requests :: strmap
  rq_Limits :: strmap

record container =
  ct_Name :: string
  ct_Image :: string
  ct_ImagePullPolicy :: string
  ct_Args :: "string list"
  ct_Env :: "envVar list"
  ct_Ports :: "containerPort list"
  ct_VolumeMounts :: "volumeMount list"
  ct_Resources :: resourceRequirements
  ct_SecurityContext :: securityContext

record podSpec =
  ps_AutomountServiceAccountToken :: "bool option"
  ps_ServiceAccountName :: string
  ps_Containers :: "container list"
  ps_Volumes :: "volume list"

record podTemplate =
  pt_Labels :: strmap
  pt_Annotations :: strmap
  pt_Spec :: podSpec

record deployment =
  dep_Meta :: objectMeta
  dep_Replicas :: int
  dep_Selector :: strmap
  dep_Template :: podTemplate
  dep_AvailableReplicas :: int  \<comment> \<open>of the status\<close>

section \<open>Client objects\<close>

text \<open>
  The dynamic types of the \<open>client.Object\<close> values that reach the generic helpers
  (\<open>Apply\<close>, \<open>deleteManagedGatewayObject\<close>, the event handlers).
\<close>

datatype clientObject =
    ODeployment deployment
  | OService service
  | OSecret secret
  | OServiceAccount serviceAccount
  | ONamespace kubeNamespace

primrec objMeta :: "clientObject \<Rightarrow> objectMeta" where
  "objMeta (ODeployment x) = dep_Meta x"
| "objMeta (OService x) = svc_Meta x"
| "objMeta (OSecret x) = sec_Meta x"
| "objMeta (OServiceAccount x) = sa_Meta x"
| "objMeta (ONamespace x) = ns_Meta x"

primrec mapMeta :: "(objectMeta \<Rightarrow> objectMeta) \<Rightarrow> clientObject \<Rightarrow> clientObject" where
  "mapMeta f (ODeployment x) = ODeployment (x\<lparr>dep_Meta := f (dep_Meta x)\<rparr>)"
| "mapMeta f (OService x) = OService (x\<lparr>svc_Meta := f (svc_Meta x)\<rparr>)"
| "mapMeta f (OSecret x) = OSecret (x\<lparr>sec_Meta := f (sec_Meta x)\<rparr>)"
| "mapMeta f (OServiceAccount x) = OServiceAccount (x\<lparr>sa_Meta := f (sa_Meta x)\<rparr>)"
| "mapMeta f (ONamespace x) = ONamespace (x\<lparr>ns_Meta := f (ns_Meta x)\<rparr>)"

lemma objMeta_mapMeta [simp]: "objMeta (mapMeta f x) = f (objMeta x)"
  by (cases x) auto

abbreviation GetLabels :: "clientObject \<Rightarrow> strmap" where
  "GetLabels x \<equiv> m_Labels (objMeta x)"

abbreviation GetAnnotations :: "clientObject \<Rightarrow> strmap" where
  "GetAnnotations x \<equiv> m_Annotations (objMeta x)"

abbreviation GetNamespace :: "clientObject \<Rightarrow> string" where
  "GetNamespace x \<equiv> m_Namespace (objMeta x)"

abbreviation GetName :: "clientObject \<Rightarrow> string" where
  "GetName x \<equiv> m_Name (objMeta x)"

section \<open>Constants of the Gateway API\<close>

definition GatewayGroup :: string where "GatewayGroup = ''gateway.networking.k8s.io''"

definition HTTPProtocolType :: string where "HTTPProtocolType = ''HTTP''"
definition HTTPSProtocolType :: string where "HTTPSProtocolType = ''HTTPS''"
definition TLSProtocolType :: string where "TLSProtocolType = ''TLS''"
definition TLSModePassthrough :: string where "TLSModePassthrough = ''Passthrough''"
definition NamespacesFromAll :: string where "NamespacesFromAll = ''All''"
definition NamespacesFromSame :: string where "NamespacesFromSame = ''Same''"
definition NamespacesFromSelector :: string where "NamespacesFromSelector = ''Selector''"
definition IPAddressType :: string where "IPAddressType = ''IPAddress''"
definition HostnameAddressType :: string where "HostnameAddressType = ''Hostname''"

text \<open>Condition types and reasons; Gateways, listeners and routes use the same words.\<close>

definition CondAccepted :: string where "CondAccepted = ''Accepted''"
definition CondProgrammed :: string where "CondProgrammed = ''Programmed''"
definition CondResolvedRefs :: string where "CondResolvedRefs = ''ResolvedRefs''"

lemmas gateway_api_consts =
  GatewayGroup_def HTTPProtocolType_def HTTPSProtocolType_def TLSProtocolType_def
  TLSModePassthrough_def NamespacesFromAll_def NamespacesFromSame_def NamespacesFromSelector_def
  IPAddressType_def HostnameAddressType_def

lemmas condition_types = CondAccepted_def CondProgrammed_def CondResolvedRefs_def

lemma protocols_distinct [simp]:
  "HTTPProtocolType \<noteq> HTTPSProtocolType" "HTTPProtocolType \<noteq> TLSProtocolType"
  "HTTPSProtocolType \<noteq> TLSProtocolType" "HTTPSProtocolType \<noteq> HTTPProtocolType"
  "TLSProtocolType \<noteq> HTTPProtocolType" "TLSProtocolType \<noteq> HTTPSProtocolType"
  by (simp_all add: gateway_api_consts)

lemma condition_types_distinct [simp]:
  "CondAccepted \<noteq> CondProgrammed" "CondAccepted \<noteq> CondResolvedRefs"
  "CondProgrammed \<noteq> CondResolvedRefs" "CondProgrammed \<noteq> CondAccepted"
  "CondResolvedRefs \<noteq> CondAccepted" "CondResolvedRefs \<noteq> CondProgrammed"
  by (simp_all add: condition_types)

end
