(* ===== verification/Kube_Client.thy ===== *)
theory Kube_Client
  imports Kube_Types
begin

text \<open>
  The libraries the controller calls and does not contain: the controller-runtime client, the
  conflict-retry helper of client-go, label selectors and the clock. They are parameters: a
  record of computations over the abstract world. What the proofs need of them is stated as
  named hypotheses below (\<open>retry_law\<close>), never as a definition.
\<close>

section \<open>The client\<close>

text \<open>
  One resource per object type: \<open>client.Get\<close>, \<open>client.List\<close> (with the optional
  namespace of \<open>client.InNamespace\<close>), \<open>Create\<close>, \<open>Update\<close>, \<open>Delete\<close> and
  \<open>Status().Update\<close>.
\<close>

record ('o, 'w) resource =
  Get :: "nname \<Rightarrow> ('w, 'o) fio"
  List :: "string option \<Rightarrow> ('w, 'o list) fio"
  Create :: "'o \<Rightarrow> ('w, unit) fio"
  Update :: "'o \<Rightarrow> ('w, unit) fio"
  Delete :: "'o \<Rightarrow> ('w, unit) fio"
  StatusUpdate :: "'o \<Rightarrow> ('w, unit) fio"

text \<open>
  The reply of the token subresource: the token and its expiration, \<open>None\<close> for the zero
  time. Times are nanoseconds since the Unix epoch.
\<close>

record tokenRequestStatus =
  tr_Token :: string
  tr_ExpirationTimestamp :: "int option"

record 'w client =
  gateways :: "(gateway, 'w) resource"
  gatewayClasses :: "(gatewayClass, 'w) resource"
  httpRoutes :: "(route, 'w) resource"
  grpcRoutes :: "(route, 'w) resource"
  tlsRoutes :: "(route, 'w) resource"
  referenceGrants :: "(referenceGrant, 'w) resource"
  backendTLSPolicies :: "(backendTLSPolicy, 'w) resource"
  kubeNamespaces :: "(kubeNamespace, 'w) resource"
  services :: "(service, 'w) resource"
  secrets :: "(secret, 'w) resource"
  serviceAccounts :: "(serviceAccount, 'w) resource"
  deployments :: "(deployment, 'w) resource"
  createToken :: "serviceAccount \<Rightarrow> string list \<Rightarrow> int \<Rightarrow> ('w, tokenRequestStatus) fio"

record 'w lib =
  RetryOnConflict :: "('w, unit) fio \<Rightarrow> ('w, unit) fio"
  LabelSelectorAsSelector :: "labelSelector \<Rightarrow> error + (strmap \<Rightarrow> bool)"
  Now :: "('w, int) io"

section \<open>Dispatch on the dynamic type of a client object\<close>

definition mapE :: "('a \<Rightarrow> 'b) \<Rightarrow> ('w, 'a) fio \<Rightarrow> ('w, 'b) fio" where
  "mapE f m = bindE m id (\<lambda>x. ok (f x))"

lemma run_mapE [simp, io_simps]:
  "run_state (mapE f m) w =
     (case run_state m w of (Inl e, w') \<Rightarrow> (Inl e, w') | (Inr x, w') \<Rightarrow> (Inr (f x), w'))"
  by (simp add: mapE_def split: prod.splits sum.splits)

primrec objGet :: "'w client \<Rightarrow> clientObject \<Rightarrow> nname \<Rightarrow> ('w, clientObject) fio" where
  "objGet c (ODeployment x) k = mapE ODeployment (Get (deployments c) k)"
| "objGet c (OService x) k = mapE OService (Get (services c) k)"
| "objGet c (OSecret x) k = mapE OSecret (Get (secrets c) k)"
| "objGet c (OServiceAccount x) k = mapE OServiceAccount (Get (serviceAccounts c) k)"
| "objGet c (ONamespace x) k = mapE ONamespace (Get (kubeNamespaces c) k)"

primrec objCreate :: "'w client \<Rightarrow> clientObject \<Rightarrow> ('w, unit) fio" where
  "objCreate c (ODeployment x) = Create (deployments c) x"
| "objCreate c (OService x) = Create (services c) x"
| "objCreate c (OSecret x) = Create (secrets c) x"
| "objCreate c (OServiceAccount x) = Create (serviceAccounts c) x"
| "objCreate c (ONamespace x) = Create (kubeNamespaces c) x"

primrec objUpdate :: "'w client \<Rightarrow> clientObject \<Rightarrow> ('w, unit) fio" where
  "objUpdate c (ODeployment x) = Update (deployments c) x"
| "objUpdate c (OService x) = Update (services c) x"
| "objUpdate c (OSecret x) = Update (secrets c) x"
| "objUpdate c (OServiceAccount x) = Update (serviceAccounts c) x"
| "objUpdate c (ONamespace x) = Update (kubeNamespaces c) x"

primrec objDelete :: "'w client \<Rightarrow> clientObject \<Rightarrow> ('w, unit) fio" where
  "objDelete c (ODeployment x) = Delete (deployments c) x"
| "objDelete c (OService x) = Delete (services c) x"
| "objDelete c (OSecret x) = Delete (secrets c) x"
| "objDelete c (OServiceAccount x) = Delete (serviceAccounts c) x"
| "objDelete c (ONamespace x) = Delete (kubeNamespaces c) x"

lemma preserves_mapE [valid_intros]: "preserves P m \<Longrightarrow> preserves P (mapE f m)"
  unfolding mapE_def by (intro valid_intros)

section \<open>The conflict-retry law\<close>

text \<open>
  \<open>attempts n f\<close> runs \<open>f\<close> at most \<open>n + 1\<close> times, going on only after a conflict. client-go
  documents \<open>RetryOnConflict(backoff, f)\<close> as such a loop (five steps for
  \<open>DefaultRetry\<close>, so \<open>n = 4\<close>); the proofs use only that there is some bound.
\<close>

fun attempts :: "nat \<Rightarrow> ('w, unit) fio \<Rightarrow> ('w, unit) fio" where
  "attempts 0 f = f"
| "attempts (Suc n) f =
     tryE f (\<lambda>e. if IsConflict e then attempts n f else fail e) (\<lambda>_. ok ())"

definition retry_law :: "(('w, unit) fio \<Rightarrow> ('w, unit) fio) \<Rightarrow> bool" where
  "retry_law retry \<longleftrightarrow> (\<forall>f w. \<exists>n. run_state (retry f) w = run_state (attempts n f) w)"

lemma retry_law_attempts: "retry_law (attempts n)"
  by (auto simp: retry_law_def)

lemma retry_lawE:
  assumes "retry_law retry"
  obtains n where "run_state (retry f) w = run_state (attempts n f) w"
  using assms unfolding retry_law_def by blast

lemma attempts_done:
  "run_state f w = (Inr (), w') \<Longrightarrow> run_state (attempts n f) w = (Inr (), w')"
  by (cases n) simp_all

lemma retry_done:
  assumes "retry_law retry" and "run_state f w = (Inr (), w')"
  shows "run_state (retry f) w = (Inr (), w')"
  using retry_lawE [OF assms(1), of f w] attempts_done [OF assms(2)] by metis

lemma valid_attempts:
  assumes "valid P f Q" and "\<And>e w. IsConflict e \<Longrightarrow> Q (Inl e) w \<Longrightarrow> P w"
  shows "valid P (attempts n f) Q"
proof (induction n)
  case 0
  show ?case using assms(1) by simp
next
  case (Suc n)
  have "valid (Q (Inl e)) (attempts n f) Q" if "IsConflict e" for e
    using Suc assms(2) [OF that] by (rule valid_pre)
  then show ?case
    by (auto intro!: valid_tryE [OF assms(1)] valid_intros)
qed

text \<open>
  What one attempt establishes, the retried operation establishes, provided a conflict leaves
  the precondition as it was.
\<close>

lemma valid_retry:
  assumes "retry_law retry" and "valid P f Q" and "\<And>e w. IsConflict e \<Longrightarrow> Q (Inl e) w \<Longrightarrow> P w"
  shows "valid P (retry f) Q"
proof (rule validI)
  fix w x w'
  assume P: "P w" and run: "run_state (retry f) w = (x, w')"
  from assms(1) obtain n where "run_state (retry f) w = run_state (attempts n f) w"
    by (rule retry_lawE)
  with run have "run_state (attempts n f) w = (x, w')" by simp
  with valid_attempts [OF assms(2,3)] P show "Q x w'" by (rule validD)
qed

lemma preserves_retry: "retry_law retry \<Longrightarrow> preserves P f \<Longrightarrow> preserves P (retry f)"
  by (rule valid_retry)

end
