(* ===== verification/Conditions.thy ===== *)
theory Conditions
  imports Kube_Types
begin

text \<open>
  Status condition lists: \<open>conditionByType\<close> and \<open>upsertCondition\<close> of
  \<open>controller/internal/status/writer.go\<close>. A list of conditions implements a map from
  condition types to conditions; the interface \<open>condition_store\<close> states what the status
  writers rely on, and the list functions are its instance.
\<close>

section \<open>The operations\<close>

fun conditionByType :: "condition list \<Rightarrow> string \<Rightarrow> condition option" where
  "conditionByType [] ty = None"
| "conditionByType (c # cs) ty = (if c_Type c = ty then Some c else conditionByType cs ty)"

fun upsertCondition :: "condition list \<Rightarrow> condition \<Rightarrow> condition list" where
  "upsertCondition [] newC = [newC]"
| "upsertCondition (c # existing) newC =
     (if c_Type c = c_Type newC then
        (if c_Status c = c_Status newC \<and> c_Reason c = c_Reason newC \<and> c_Message c = c_Message newC
         then c\<lparr>c_ObservedGeneration := c_ObservedGeneration newC\<rparr> # existing
         else newC # existing)
      else c # upsertCondition existing newC)"

section \<open>What the writers rely on\<close>

text \<open>The entry that results when \<open>n\<close> is written over the old entry, if any.\<close>

definition mergeCondition :: "condition option \<Rightarrow> condition \<Rightarrow> condition" where
  "mergeCondition old n =
     (case old of
        None \<Rightarrow> n
      | Some c \<Rightarrow>
          if c_Status c = c_Status n \<and> c_Reason c = c_Reason n \<and> c_Message c = c_Message n
          then n\<lparr>c_LastTransitionTime := c_LastTransitionTime c\<rparr> else n)"

text \<open>Two conditions that differ at most in their transition time.\<close>

definition agrees :: "condition \<Rightarrow> condition \<Rightarrow> bool" where
  "agrees c n \<longleftrightarrow> c = n\<lparr>c_LastTransitionTime := c_LastTransitionTime c\<rparr>"

lemma agrees_iff:
  "agrees c n \<longleftrightarrow> c_Type c = c_Type n \<and> c_Status c = c_Status n \<and> c_Reason c = c_Reason n \<and>
     c_Message c = c_Message n \<and> c_ObservedGeneration c = c_ObservedGeneration n"
  by (cases c; cases n) (auto simp: agrees_def)

lemma agrees_merge: "agrees (mergeCondition old n) n"
  by (auto simp: mergeCondition_def agrees_iff split: option.splits)

lemma mergeCondition_type [simp]: "c_Type (mergeCondition old n) = c_Type n"
  using agrees_merge [of old n] by (simp add: agrees_iff)

lemma mergeCondition_None [simp]: "mergeCondition None n = n"
  by (simp add: mergeCondition_def)

lemma agrees_trans: "agrees a b \<Longrightarrow> agrees c b \<Longrightarrow> agrees a c"
  by (simp add: agrees_iff)

lemma agrees_refl [simp]: "agrees c c"
  by (simp add: agrees_iff)

locale condition_store =
  fixes lookup :: "'s \<Rightarrow> string \<Rightarrow> condition option"
    and upsert :: "'s \<Rightarrow> condition \<Rightarrow> 's"
  assumes lookup_upsert:
    "lookup (upsert s n) = (lookup s)(c_Type n \<mapsto> mergeCondition (lookup s (c_Type n)) n)"
    and upsert_stable: "lookup s (c_Type n) = Some c \<Longrightarrow> agrees c n \<Longrightarrow> upsert s n = s"
begin

text \<open>Writing several conditions one after the other.\<close>

lemma lookup_fold_other:
  "ty \<notin> c_Type ` set ns \<Longrightarrow> lookup (foldl upsert s ns) ty = lookup s ty"
  by (induction ns arbitrary: s) (auto simp: lookup_upsert)

lemma lookup_fold:
  assumes "distinct (map c_Type ns)" and "n \<in> set ns"
  shows "lookup (foldl upsert s ns) (c_Type n) = Some (mergeCondition (lookup s (c_Type n)) n)"
  using assms
proof (induction ns arbitrary: s)
  case Nil
  then show ?case by simp
next
  case (Cons m ns)
  show ?case
  proof (cases "n = m")
    case True
    then show ?thesis using Cons.prems by (simp add: lookup_fold_other lookup_upsert)
  next
    case False
    with Cons.prems have "n \<in> set ns" and "c_Type m \<noteq> c_Type n" by (auto simp: image_iff)
    then show ?thesis using Cons.IH [of "upsert s m"] Cons.prems(1) by (simp add: lookup_upsert)
  qed
qed

lemma fold_stable:
  "(\<And>n. n \<in> set ns \<Longrightarrow> \<exists>c. lookup s (c_Type n) = Some c \<and> agrees c n) \<Longrightarrow>
   foldl upsert s ns = s"
proof (induction ns)
  case Nil
  then show ?case by simp
next
  case (Cons m ns)
  then have "upsert s m = s" by (meson list.set_intros(1) upsert_stable)
  with Cons show ?case by simp
qed

text \<open>
  Writing the same conditions again, at a later time, changes nothing: a status that was
  written once is found unchanged by the next reconcile.
\<close>

lemma fold_again:
  assumes "distinct (map c_Type ns)" and "list_all2 agrees ns ns'"
  shows "foldl upsert (foldl upsert s ns) ns' = foldl upsert s ns"
proof (rule fold_stable)
  fix n'
  assume "n' \<in> set ns'"
  with assms(2) obtain n where n: "n \<in> set ns" and a: "agrees n n'"
    by (metis in_set_conv_nth list_all2_conv_all_nth)
  then have "lookup (foldl upsert s ns) (c_Type n') = Some (mergeCondition (lookup s (c_Type n)) n)"
    using lookup_fold [OF assms(1) n] by (simp add: agrees_iff)
  moreover have "agrees (mergeCondition (lookup s (c_Type n)) n) n'"
    using a agrees_merge [of "lookup s (c_Type n)" n] by (simp add: agrees_iff)
  ultimately show "\<exists>c. lookup (foldl upsert s ns) (c_Type n') = Some c \<and> agrees c n'" by blast
qed

lemma upsert_again: "agrees n n' \<Longrightarrow> upsert (upsert s n) n' = upsert s n"
  using fold_again [of "[n]" "[n']" s] by simp

end

section \<open>The list functions implement the interface\<close>

lemma conditionByType_upsert:
  "conditionByType (upsertCondition cs n) ty =
     (if ty = c_Type n then Some (mergeCondition (conditionByType cs (c_Type n)) n)
      else conditionByType cs ty)"
  by (induction cs) (auto simp: mergeCondition_def)

lemma upsertCondition_stable:
  "conditionByType cs (c_Type n) = Some c \<Longrightarrow> agrees c n \<Longrightarrow> upsertCondition cs n = cs"
  by (induction cs) (auto simp: agrees_iff split: if_splits)

interpretation cl: condition_store conditionByType upsertCondition
  by unfold_locales (auto simp: conditionByType_upsert fun_eq_iff intro: upsertCondition_stable)

section \<open>Well-formed condition lists\<close>

text \<open>The API declares conditions as a list map keyed by type: no type occurs twice.\<close>

definition wf_conditions :: "condition list \<Rightarrow> bool" where
  "wf_conditions cs \<longleftrightarrow> distinct (map c_Type cs)"

lemma conditionByType_None: "conditionByType cs ty = None \<longleftrightarrow> ty \<notin> c_Type ` set cs"
  by (induction cs) auto

lemma conditionByType_Some: "conditionByType cs ty = Some c \<Longrightarrow> c \<in> set cs \<and> c_Type c = ty"
  by (induction cs) (auto split: if_splits)

lemma conditionByType_wf:
  "wf_conditions cs \<Longrightarrow> conditionByType cs ty = Some c \<longleftrightarrow> c \<in> set cs \<and> c_Type c = ty"
  by (induction cs) (auto simp: wf_conditions_def)

lemma types_upsertCondition:
  "map c_Type (upsertCondition cs n) =
     (if c_Type n \<in> c_Type ` set cs then map c_Type cs else map c_Type cs @ [c_Type n])"
  by (induction cs) auto

lemma wf_upsertCondition: "wf_conditions cs \<Longrightarrow> wf_conditions (upsertCondition cs n)"
  by (simp add: wf_conditions_def types_upsertCondition)

lemma wf_foldl_upsertCondition: "wf_conditions cs \<Longrightarrow> wf_conditions (foldl upsertCondition cs ns)"
  by (induction ns arbitrary: cs) (auto simp: wf_upsertCondition)

section \<open>Properties\<close>

text \<open>
  C40: a condition list implements a map from types to conditions. An upsert changes exactly
  the entry of the new condition's type; that entry keeps its transition time when status,
  reason and message are unchanged and is the new condition otherwise.
\<close>

theorem upsertCondition_refines_map:
  "conditionByType (upsertCondition cs n) =
     (conditionByType cs)(c_Type n \<mapsto> mergeCondition (conditionByType cs (c_Type n)) n)"
  by (rule cl.lookup_upsert)

text \<open>
  An upsert keeps the list well-formed and in place: a known type keeps its position, a
  new one is appended, and no type is ever duplicated.
\<close>

theorem upsertCondition_wf:
  assumes "wf_conditions cs"
  shows "wf_conditions (upsertCondition cs n) \<and>
     map c_Type (upsertCondition cs n) =
       (if conditionByType cs (c_Type n) = None then map c_Type cs @ [c_Type n]
        else map c_Type cs)"
  using assms by (auto simp: wf_upsertCondition types_upsertCondition conditionByType_None)

text \<open>An instance.\<close>

theorem upsertCondition_wf_witness:
  "let a = \<lparr>c_Type = ''A'', c_Status = ConditionTrue, c_Reason = ''R'', c_Message = ''m'',
            c_LastTransitionTime = 1, c_ObservedGeneration = 1\<rparr>;
       b = a\<lparr>c_Type := ''B''\<rparr>
   in wf_conditions [a] \<and> wf_conditions (upsertCondition [a] b) \<and>
      map c_Type (upsertCondition [a] b) = [''A'', ''B'']"
  using upsertCondition_wf
    [of "[\<lparr>c_Type = ''A'', c_Status = ConditionTrue, c_Reason = ''R'', c_Message = ''m'',
           c_LastTransitionTime = 1, c_ObservedGeneration = 1\<rparr>]"
        "\<lparr>c_Type = ''B'', c_Status = ConditionTrue, c_Reason = ''R'', c_Message = ''m'',
           c_LastTransitionTime = 1, c_ObservedGeneration = 1\<rparr>"]
  by (simp add: Let_def wf_conditions_def)

end
