(* ===== verification/Go_Strings.thy ===== *)
theory Go_Strings
  imports Gateway_Prelude "HOL-Library.Char_ord" "HOL-Library.List_Lexorder" "HOL-Library.Sublist"
begin

text \<open>
  The parts of Go's \<open>strings\<close>, \<open>sort\<close>, \<open>fmt\<close>, \<open>encoding/hex\<close> and
  \<open>unicode/utf8\<close> packages that the controller uses. A Go string is a sequence of bytes, so a
  \<open>string\<close> (a list of 8-bit characters) models it directly; ranging over a string decodes it
  as UTF-8, with one replacement rune per invalid byte.
\<close>

section \<open>UTF-8\<close>

definition RuneError :: nat where "RuneError = 65533"

definition cont_byte :: "nat \<Rightarrow> bool" where
  "cont_byte b \<longleftrightarrow> 128 \<le> b \<and> b \<le> 191"

text \<open>\<open>utf8.DecodeRune\<close>: the first rune and its width; an invalid prefix has width 1.\<close>

definition second_ok :: "nat \<Rightarrow> nat \<Rightarrow> bool" where
  "second_ok b0 b1 \<longleftrightarrow> cont_byte b1 \<and>
     (b0 = 224 \<longrightarrow> 160 \<le> b1) \<and> (b0 = 237 \<longrightarrow> b1 \<le> 159) \<and>
     (b0 = 240 \<longrightarrow> 144 \<le> b1) \<and> (b0 = 244 \<longrightarrow> b1 \<le> 143)"

fun decodeRune :: "nat list \<Rightarrow> nat \<times> nat" where
  "decodeRune [] = (RuneError, 0)"
| "decodeRune (b0 # bs) =
     (if b0 < 128 then (b0, 1)
      else if 194 \<le> b0 \<and> b0 \<le> 223 then
        (case bs of b1 # _ \<Rightarrow>
           if cont_byte b1 then ((b0 - 192) * 64 + (b1 - 128), 2) else (RuneError, 1)
         | [] \<Rightarrow> (RuneError, 1))
      else if 224 \<le> b0 \<and> b0 \<le> 239 then
        (case bs of b1 # b2 # _ \<Rightarrow>
           if second_ok b0 b1 \<and> cont_byte b2
           then ((b0 - 224) * 4096 + (b1 - 128) * 64 + (b2 - 128), 3) else (RuneError, 1)
         | _ \<Rightarrow> (RuneError, 1))
      else if 240 \<le> b0 \<and> b0 \<le> 244 then
        (case bs of b1 # b2 # b3 # _ \<Rightarrow>
           if second_ok b0 b1 \<and> cont_byte b2 \<and> cont_byte b3
           then ((b0 - 240) * 262144 + (b1 - 128) * 4096 + (b2 - 128) * 64 + (b3 - 128), 4)
           else (RuneError, 1)
         | _ \<Rightarrow> (RuneError, 1))
      else (RuneError, 1))"

lemma decodeRune_width: "bs \<noteq> [] \<Longrightarrow> 1 \<le> snd (decodeRune bs)"
  by (cases bs) (auto split: list.splits)

function runesOf :: "nat list \<Rightarrow> nat list" where
  "runesOf bs =
     (if bs = [] then [] else case decodeRune bs of (r, w) \<Rightarrow> r # runesOf (drop w bs))"
  by pat_completeness auto
termination
proof (relation "measure length")
  fix bs :: "nat list" and r w
  assume "bs \<noteq> []" and "(r, w) = decodeRune bs"
  then have "1 \<le> w" using decodeRune_width [of bs] by (metis snd_conv)
  then show "(drop w bs, bs) \<in> measure length" using \<open>bs \<noteq> []\<close> by (cases bs) auto
qed simp

declare runesOf.simps [simp del]

definition runes :: "string \<Rightarrow> nat list" where
  "runes s = runesOf (map of_char s)"

lemma runesOf_simps [simp]:
  "runesOf [] = []"
  "b < 128 \<Longrightarrow> runesOf (b # bs) = b # runesOf bs"
  by (simp_all add: runesOf.simps)

definition ascii :: "string \<Rightarrow> bool" where
  "ascii s \<longleftrightarrow> (\<forall>c \<in> set s. (of_char c :: nat) < 128)"

lemma runes_ascii: "ascii s \<Longrightarrow> runes s = map of_char s"
  by (induction s) (auto simp: runes_def ascii_def)

section \<open>Case mapping and trimming\<close>

text \<open>
  \<open>unicode.ToLower\<close> as far as the callers can tell. Two runes outside ASCII have an ASCII
  lower case, U+0130 (to i) and U+212A (to k); every other rune outside ASCII stays outside,
  and no caller looks at which one it is.
\<close>

definition runeLower :: "nat \<Rightarrow> nat" where
  "runeLower r = (if 65 \<le> r \<and> r \<le> 90 then r + 32
                  else if r = 304 then 105 else if r = 8490 then 107 else r)"

text \<open>The runes that \<open>for _, r := range strings.ToLower(s)\<close> visits.\<close>

definition lowerRunes :: "string \<Rightarrow> nat list" where
  "lowerRunes s = map runeLower (runes s)"

definition TrimLeft :: "string \<Rightarrow> string \<Rightarrow> string" where
  "TrimLeft s cutset = dropWhile (\<lambda>c. c \<in> set cutset) s"

definition TrimRight :: "string \<Rightarrow> string \<Rightarrow> string" where
  "TrimRight s cutset = rev (dropWhile (\<lambda>c. c \<in> set cutset) (rev s))"

definition Trim :: "string \<Rightarrow> string \<Rightarrow> string" where
  "Trim s cutset = TrimRight (TrimLeft s cutset) cutset"

definition HasPrefix :: "string \<Rightarrow> string \<Rightarrow> bool" where
  "HasPrefix s p \<longleftrightarrow> prefix p s"

definition HasSuffix :: "string \<Rightarrow> string \<Rightarrow> bool" where
  "HasSuffix s p \<longleftrightarrow> suffix p s"

definition TrimPrefix :: "string \<Rightarrow> string \<Rightarrow> string" where
  "TrimPrefix s p = (if HasPrefix s p then drop (length p) s else s)"

fun Join :: "string list \<Rightarrow> string \<Rightarrow> string" where
  "Join [] sep = []"
| "Join [s] sep = s"
| "Join (s # t # ss) sep = s @ sep @ Join (t # ss) sep"

text \<open>\<open>unicode.IsSpace\<close>, on runes.\<close>

definition isSpace :: "nat \<Rightarrow> bool" where
  "isSpace r \<longleftrightarrow> r \<in> {9, 10, 11, 12, 13, 32, 133, 160, 5760, 8232, 8233, 8239, 8287, 12288} \<or>
     (8192 \<le> r \<and> r \<le> 8202)"

definition trimSpaceRunes :: "nat list \<Rightarrow> nat list" where
  "trimSpaceRunes rs = rev (dropWhile isSpace (rev (dropWhile isSpace rs)))"

text \<open>
  \<open>strings.EqualFold\<close> against an ASCII string. Simple case folding relates an ASCII letter to
  its other case and, outside ASCII, only U+212A to k and U+017F to s.
\<close>

definition foldASCII :: "nat \<Rightarrow> nat" where
  "foldASCII r = (if 65 \<le> r \<and> r \<le> 90 then r + 32
                  else if r = 8490 then 107 else if r = 383 then 115 else r)"

definition equalFoldASCII :: "nat list \<Rightarrow> string \<Rightarrow> bool" where
  "equalFoldASCII rs t \<longleftrightarrow> map foldASCII rs = map (\<lambda>c. foldASCII (of_char c)) t"

section \<open>Numbers\<close>

fun natDigits :: "nat \<Rightarrow> string" where
  "natDigits n = (if n < 10 then [char_of (48 + n)]
                  else natDigits (n div 10) @ [char_of (48 + n mod 10)])"

declare natDigits.simps [simp del]

text \<open>The verb \<open>%d\<close> of \<open>fmt.Sprintf\<close>.\<close>

definition itoa :: "int \<Rightarrow> string" where
  "itoa i = (if i < 0 then ''-'' @ natDigits (nat (- i)) else natDigits (nat i))"

definition hexDigit :: "nat \<Rightarrow> char" where
  "hexDigit n = (if n < 10 then char_of (48 + n) else char_of (87 + n))"

text \<open>\<open>hex.EncodeToString\<close> on bytes given as numbers.\<close>

fun hexEncode :: "nat list \<Rightarrow> string" where
  "hexEncode [] = []"
| "hexEncode (b # bs) = hexDigit (b div 16) # hexDigit (b mod 16) # hexEncode bs"

section \<open>Facts\<close>

lemma length_hexEncode [simp]: "length (hexEncode bs) = 2 * length bs"
  by (induction bs) auto

lemma TrimRight_prefix: "prefix (TrimRight s cs) s"
  by (metis TrimRight_def rev_rev_ident suffix_dropWhile suffix_to_prefix)

lemma TrimLeft_suffix: "suffix (TrimLeft s cs) s"
  by (simp add: TrimLeft_def suffix_dropWhile)

lemma TrimRight_last: "TrimRight s cs \<noteq> [] \<Longrightarrow> last (TrimRight s cs) \<notin> set cs"
  unfolding TrimRight_def by (metis Nil_is_rev_conv hd_dropWhile last_rev)

lemma TrimLeft_hd: "TrimLeft s cs \<noteq> [] \<Longrightarrow> hd (TrimLeft s cs) \<notin> set cs"
  unfolding TrimLeft_def by (metis hd_dropWhile)

lemma TrimRight_nonempty: "c \<in> set s \<Longrightarrow> c \<notin> set cs \<Longrightarrow> TrimRight s cs \<noteq> []"
  by (auto simp: TrimRight_def dropWhile_eq_Nil_conv)

lemma TrimRight_hd: "TrimRight s cs \<noteq> [] \<Longrightarrow> hd (TrimRight s cs) = hd s"
  by (metis TrimRight_prefix hd_append2 prefixE)

lemma set_TrimRight: "set (TrimRight s cs) \<subseteq> set s"
  by (meson TrimRight_prefix set_mono_prefix)

lemma set_Trim: "set (Trim s cs) \<subseteq> set s"
  unfolding Trim_def
  by (meson TrimLeft_suffix order_trans set_TrimRight set_mono_suffix)

lemma Trim_hd: "Trim s cs \<noteq> [] \<Longrightarrow> hd (Trim s cs) \<notin> set cs"
  unfolding Trim_def by (metis TrimLeft_hd TrimRight_hd TrimRight_prefix prefix_bot.extremum_uniqueI)

lemma Trim_last: "Trim s cs \<noteq> [] \<Longrightarrow> last (Trim s cs) \<notin> set cs"
  unfolding Trim_def by (rule TrimRight_last)

lemma length_TrimRight: "length (TrimRight s cs) \<le> length s"
  by (simp add: TrimRight_prefix prefix_length_le)

end
