(* ===== verification/Route_Attachment.thy ===== *)
theory Route_Attachment
  imports Kube_Client Conditions Go_Strings
begin

text \<open>
  Which routes attach to which listeners of a Gateway, and whether their backends resolve: the
  route half of \<open>controller/internal/status/writer.go\<close>. Definitions follow the order of the
  policy: hostnames, allowed kinds and namespaces, reference grants, backend references, parent
  references and the merge of parent statuses.
\<close>

definition ControllerName :: string where
  "ControllerName = ''gateway.azure.com/appnet-gateway.controller''"

datatype routeKind = routeKindHTTP | routeKindGRPC | routeKindTLS

primrec kindString :: "routeKind \<Rightarrow> string" where
  "kindString routeKindHTTP = ''HTTPRoute''"
| "kindString routeKindGRPC = ''GRPCRoute''"
| "kindString routeKindTLS = ''TLSRoute''"

definition optOr :: "'a option \<Rightarrow> 'a \<Rightarrow> 'a" where
  "optOr x d = (case x of None \<Rightarrow> d | Some y \<Rightarrow> y)"

lemma optOr_simps [simp]: "optOr None d = d" "optOr (Some y) d = y"
  by (simp_all add: optOr_def)

section \<open>Hostnames\<close>

definition hostnamesIntersect :: "string \<Rightarrow> string \<Rightarrow> bool" where
  "hostnamesIntersect a b =
     (if a = b \<or> a = '''' \<or> b = '''' then True
      else if HasPrefix a ''*.'' \<and> HasSuffix b (TrimPrefix a ''*'') \<and> b \<noteq> TrimPrefix a ''*.''
      then True
      else if HasPrefix b ''*.'' \<and> HasSuffix a (TrimPrefix b ''*'') \<and> a \<noteq> TrimPrefix b ''*.''
      then True
      else False)"

definition routeHostnamesIntersect :: "string option \<Rightarrow> string list \<Rightarrow> bool" where
  "routeHostnamesIntersect listenerHostname routeHostnames =
     (case listenerHostname of
        None \<Rightarrow> True
      | Some h \<Rightarrow> routeHostnames = [] \<or> list_ex (hostnamesIntersect h) routeHostnames)"

section \<open>Listener policy\<close>

definition listenerSupportsRouteKind :: "string \<Rightarrow> routeKind \<Rightarrow> bool" where
  "listenerSupportsRouteKind protocol kind =
     (case kind of
        routeKindHTTP \<Rightarrow> protocol = HTTPProtocolType \<or> protocol = HTTPSProtocolType
      | routeKindGRPC \<Rightarrow> protocol = HTTPProtocolType \<or> protocol = HTTPSProtocolType
      | routeKindTLS \<Rightarrow> protocol = TLSProtocolType)"

definition supportedKindsForProtocol :: "string \<Rightarrow> routeGroupKind slice" where
  "supportedKindsForProtocol protocol =
     (if protocol = HTTPProtocolType \<or> protocol = HTTPSProtocolType then
        Some [\<lparr>rgk_Group = None, rgk_Kind = ''HTTPRoute''\<rparr>, \<lparr>rgk_Group = None, rgk_Kind = ''GRPCRoute''\<rparr>]
      else if protocol = TLSProtocolType then Some [\<lparr>rgk_Group = None, rgk_Kind = ''TLSRoute''\<rparr>]
      else None)"

definition allowedRouteKindsInclude :: "routeGroupKind list \<Rightarrow> routeKind \<Rightarrow> bool" where
  "allowedRouteKindsInclude kinds kind =
     list_ex (\<lambda>allowed. optOr (rgk_Group allowed) GatewayGroup = GatewayGroup \<and>
                        rgk_Kind allowed = kindString kind) kinds"

text \<open>The namespace part of the policy, after the kinds have been checked.\<close>

definition listenerAllowsNamespace ::
  "'w lib \<Rightarrow> 'w client \<Rightarrow> routeNamespaces \<Rightarrow> string \<Rightarrow> string \<Rightarrow> string \<Rightarrow> ('w, bool) fio" where
  "listenerAllowsNamespace L c nss from gatewayNamespace routeNamespace =
     (if from = NamespacesFromAll then ok True
      else if from = NamespacesFromSame then ok (routeNamespace = gatewayNamespace)
      else if from = NamespacesFromSelector then
        (case rn_Selector nss of
           None \<Rightarrow> ok False
         | Some sel \<Rightarrow>
             (case LabelSelectorAsSelector L sel of
                Inl e \<Rightarrow> fail e
              | Inr matches \<Rightarrow>
                  tryE (Get (kubeNamespaces c) ('''', routeNamespace))
                    (\<lambda>e. if IsNotFound e then ok False else fail e)
                    (\<lambda>ns. ok (matches (m_Labels (ns_Meta ns))))))
      else ok False)"

definition listenerAllowsRoute ::
  "'w lib \<Rightarrow> 'w client \<Rightarrow> listener \<Rightarrow> string \<Rightarrow> string \<Rightarrow> routeKind \<Rightarrow> ('w, bool) fio" where
  "listenerAllowsRoute L c l gatewayNamespace routeNamespace kind =
     (case l_AllowedRoutes l of
        None \<Rightarrow> ok (routeNamespace = gatewayNamespace)
      | Some ar \<Rightarrow>
          if ar_Kinds ar \<noteq> [] \<and> \<not> allowedRouteKindsInclude (ar_Kinds ar) kind then ok False
          else (case ar_Namespaces ar of
                  None \<Rightarrow> ok (routeNamespace = gatewayNamespace)
                | Some nss \<Rightarrow>
                    (case rn_From nss of
                       None \<Rightarrow> ok (routeNamespace = gatewayNamespace)
                     | Some from \<Rightarrow>
                         listenerAllowsNamespace L c nss from gatewayNamespace routeNamespace)))"

section \<open>Acceptance by a Gateway\<close>

text \<open>
  A result of the route checks: status, reason and message of the condition. The error value
  that accompanies it in the code is the \<open>Inl\<close> of the computation.
\<close>

type_synonym verdict = "conditionStatus \<times> string \<times> string"

definition acceptedVerdict :: verdict where
  "acceptedVerdict = (ConditionTrue, ''Accepted'', ''Accepted'')"

definition noMatchingParent :: verdict where
  "noMatchingParent = (ConditionFalse, ''NoMatchingParent'', ''No matching listener for parentRef'')"

definition noMatchingHostname :: verdict where
  "noMatchingHostname = (ConditionFalse, ''NoMatchingListenerHostname'',
     ''Route hostnames do not intersect listener hostname'')"

definition notAllowed :: verdict where
  "notAllowed = (ConditionFalse, ''NotAllowedByListeners'',
     ''Route is not allowed by listener allowedRoutes'')"

definition listenerSelected :: "parentReference \<Rightarrow> routeKind \<Rightarrow> listener \<Rightarrow> bool" where
  "listenerSelected parentRef kind l =
     (if p_SectionName parentRef \<noteq> None \<and> p_SectionName parentRef \<noteq> Some (l_Name l) then False
      else if p_Port parentRef \<noteq> None \<and> p_Port parentRef \<noteq> Some (l_Port l) then False
      else listenerSupportsRouteKind (l_Protocol l) kind)"

definition gatewayHasMatchingListener :: "gateway \<Rightarrow> parentReference \<Rightarrow> routeKind \<Rightarrow> bool" where
  "gatewayHasMatchingListener gw parentRef kind =
     list_ex (listenerSelected parentRef kind) (gw_Listeners gw)"

text \<open>The loop over the listeners, with its two flags.\<close>

fun acceptLoop ::
  "(listener \<Rightarrow> ('w, bool) fio) \<Rightarrow> parentReference \<Rightarrow> string list \<Rightarrow> routeKind \<Rightarrow>
   listener list \<Rightarrow> bool \<Rightarrow> bool \<Rightarrow> ('w, verdict) fio" where
  "acceptLoop allows parentRef routeHostnames kind [] matchedListener hostnameMismatch =
     (if \<not> matchedListener then ok noMatchingParent
      else if hostnameMismatch then ok noMatchingHostname
      else ok notAllowed)"
| "acceptLoop allows parentRef routeHostnames kind (l # ls) matchedListener hostnameMismatch =
     (if \<not> listenerSelected parentRef kind l then
        acceptLoop allows parentRef routeHostnames kind ls matchedListener hostnameMismatch
      else if \<not> routeHostnamesIntersect (l_Hostname l) routeHostnames then
        acceptLoop allows parentRef routeHostnames kind ls True True
      else bindE (allows l) id
        (\<lambda>allowed. if allowed then ok acceptedVerdict
           else acceptLoop allows parentRef routeHostnames kind ls True hostnameMismatch))"

definition routeAcceptedByGateway ::
  "'w lib \<Rightarrow> 'w client \<Rightarrow> parentReference \<Rightarrow> string \<Rightarrow> string list \<Rightarrow> gateway \<Rightarrow> routeKind \<Rightarrow>
   ('w, verdict) fio" where
  "routeAcceptedByGateway L c parentRef routeNamespace routeHostnames gw kind =
     acceptLoop (\<lambda>l. listenerAllowsRoute L c l (gw_Namespace gw) routeNamespace kind)
       parentRef routeHostnames kind (gw_Listeners gw) False False"

section \<open>Reference grants and backends\<close>

definition referenceGrantAllows ::
  "referenceGrant \<Rightarrow> string \<Rightarrow> string \<Rightarrow> string \<Rightarrow> string \<Rightarrow> string \<Rightarrow> string \<Rightarrow> bool" where
  "referenceGrantAllows grant fromGroup fromKind fromNamespace toGroup toKind toName =
     (if \<not> list_ex (\<lambda>from. rf_Group from = fromGroup \<and> rf_Kind from = fromKind \<and>
                          rf_Namespace from = fromNamespace) (rg_From grant)
      then False
      else list_ex (\<lambda>to. rt_Group to = toGroup \<and> rt_Kind to = toKind \<and>
                         (rt_Name to = None \<or> rt_Name to = Some toName)) (rg_To grant))"

definition referencePermitted ::
  "'w client \<Rightarrow> string \<Rightarrow> string \<Rightarrow> string \<Rightarrow> string \<Rightarrow> string \<Rightarrow> string \<Rightarrow> string \<Rightarrow> ('w, bool) io"
  where
  "referencePermitted c fromGroup fromKind fromNamespace toGroup toKind toNamespace toName =
     (if fromNamespace = toNamespace then pureIO True
      else tryE (List (referenceGrants c) (Some toNamespace))
        (\<lambda>_. pureIO False)
        (\<lambda>grants. pureIO (list_ex (\<lambda>grant.
           referenceGrantAllows grant fromGroup fromKind fromNamespace toGroup toKind toName) grants)))"

definition serviceHasPort :: "service \<Rightarrow> int \<Rightarrow> bool" where
  "serviceHasPort svc port = list_ex (\<lambda>p. sp_Port p = port) (svc_Ports svc)"

definition resolvedVerdict :: verdict where
  "resolvedVerdict = (ConditionTrue, ''ResolvedRefs'', ''Resolved route references'')"

fun backendRefsResolved ::
  "'w client \<Rightarrow> string \<Rightarrow> routeKind \<Rightarrow> backendObjectReference list \<Rightarrow> ('w, verdict) fio" where
  "backendRefsResolved c routeNamespace kind [] = ok resolvedVerdict"
| "backendRefsResolved c routeNamespace kind (ref # refs) =
     (if optOr (b_Group ref) '''' \<noteq> '''' \<or> optOr (b_Kind ref) ''Service'' \<noteq> ''Service'' then
        ok (ConditionFalse, ''InvalidKind'', ''Only core Service backendRefs are supported'')
      else
        (let namespace = optOr (b_Namespace ref) routeNamespace in
         State_Monad.bind
           (referencePermitted c GatewayGroup (kindString kind) routeNamespace ''''
              ''Service'' namespace (b_Name ref))
           (\<lambda>permitted.
              if \<not> permitted then
                ok (ConditionFalse, ''RefNotPermitted'', ''Cross-namespace backendRef is not permitted'')
              else
                (case b_Port ref of
                   None \<Rightarrow>
                     ok (ConditionFalse, ''BackendNotFound'', ''Service backendRef must include a port'')
                 | Some port \<Rightarrow>
                     tryE (Get (services c) (namespace, b_Name ref))
                       (\<lambda>e. if IsNotFound e then
                              ok (ConditionFalse, ''BackendNotFound'', ''Referenced Service was not found'')
                            else fail e)
                       (\<lambda>svc. if \<not> serviceHasPort svc port then
                                 ok (ConditionFalse, ''BackendNotFound'',
                                     ''Referenced Service port was not found'')
                               else backendRefsResolved c routeNamespace kind refs)))))"

definition httpBackendObjectRefs :: "routeRule list \<Rightarrow> backendObjectReference list" where
  "httpBackendObjectRefs rules = concat (map rr_BackendRefs rules)"

definition grpcBackendObjectRefs :: "routeRule list \<Rightarrow> backendObjectReference list" where
  "grpcBackendObjectRefs rules = concat (map rr_BackendRefs rules)"

definition tlsBackendObjectRefs :: "routeRule list \<Rightarrow> backendObjectReference list" where
  "tlsBackendObjectRefs rules = concat (map rr_BackendRefs rules)"

section \<open>Parent references and parent statuses\<close>

definition parentRefMatchesGateway :: "parentReference \<Rightarrow> string \<Rightarrow> gateway \<Rightarrow> bool" where
  "parentRefMatchesGateway parentRef routeNamespace gw \<longleftrightarrow>
     optOr (p_Group parentRef) GatewayGroup = GatewayGroup \<and>
     optOr (p_Kind parentRef) ''Gateway'' = ''Gateway'' \<and>
     optOr (p_Namespace parentRef) routeNamespace = gw_Namespace gw \<and>
     p_Name parentRef = gw_Name gw"

definition normalizedGatewayParentRef :: "parentReference \<Rightarrow> string \<Rightarrow> parentReference" where
  "normalizedGatewayParentRef parentRef namespace =
     parentRef\<lparr>p_Group := Some GatewayGroup, p_Kind := Some ''Gateway'', p_Namespace := Some namespace\<rparr>"

definition parentStatusReferencesGateway :: "routeParentStatus \<Rightarrow> gateway \<Rightarrow> bool" where
  "parentStatusReferencesGateway parent gw \<longleftrightarrow>
     (let ref = rp_ParentRef parent in
      optOr (p_Group ref) GatewayGroup = GatewayGroup \<and>
      optOr (p_Kind ref) ''Gateway'' = ''Gateway'' \<and>
      optOr (p_Namespace ref) (gw_Namespace gw) = gw_Namespace gw \<and>
      p_Name ref = gw_Name gw)"

definition mkCondition :: "string \<Rightarrow> verdict \<Rightarrow> int \<Rightarrow> int \<Rightarrow> condition" where
  "mkCondition ty v now generation =
     (case v of (st, reason, message) \<Rightarrow>
        \<lparr>c_Type = ty, c_Status = st, c_Reason = reason, c_Message = message,
         c_LastTransitionTime = now, c_ObservedGeneration = generation\<rparr>)"

definition mkParentStatus ::
  "parentReference \<Rightarrow> gateway \<Rightarrow> verdict \<Rightarrow> verdict \<Rightarrow> int \<Rightarrow> int \<Rightarrow> routeParentStatus" where
  "mkParentStatus parentRef gw accepted resolved now routeGeneration =
     \<lparr>rp_ParentRef = normalizedGatewayParentRef parentRef (gw_Namespace gw),
      rp_ControllerName = ControllerName,
      rp_Conditions = [mkCondition CondAccepted accepted now routeGeneration,
                       mkCondition CondResolvedRefs resolved now routeGeneration]\<rparr>"

fun parentStatusLoop ::
  "(parentReference \<Rightarrow> ('w, verdict) fio) \<Rightarrow> string \<Rightarrow> gateway \<Rightarrow> verdict \<Rightarrow> int \<Rightarrow> int \<Rightarrow>
   parentReference list \<Rightarrow> ('w, routeParentStatus list) fio" where
  "parentStatusLoop accept routeNamespace gw resolved now routeGeneration [] = ok []"
| "parentStatusLoop accept routeNamespace gw resolved now routeGeneration (parentRef # refs) =
     (if \<not> parentRefMatchesGateway parentRef routeNamespace gw then
        parentStatusLoop accept routeNamespace gw resolved now routeGeneration refs
      else bindE (accept parentRef) id (\<lambda>accepted.
        bindE (parentStatusLoop accept routeNamespace gw resolved now routeGeneration refs) id
          (\<lambda>rest. ok (mkParentStatus parentRef gw accepted resolved now routeGeneration # rest))))"

definition routeParentStatuses ::
  "'w lib \<Rightarrow> 'w client \<Rightarrow> parentReference list \<Rightarrow> string \<Rightarrow> int \<Rightarrow> string list \<Rightarrow> gateway \<Rightarrow>
   routeKind \<Rightarrow> backendObjectReference list \<Rightarrow> ('w, routeParentStatus list) fio" where
  "routeParentStatuses L c parentRefs routeNamespace routeGeneration routeHostnames gw kind backendRefs =
     State_Monad.bind (Now L) (\<lambda>now.
       bindE (backendRefsResolved c routeNamespace kind backendRefs) id (\<lambda>resolved.
         parentStatusLoop
           (\<lambda>parentRef. routeAcceptedByGateway L c parentRef routeNamespace routeHostnames gw kind)
           routeNamespace gw resolved now routeGeneration parentRefs))"

definition mergeParent :: "routeParentStatus list \<Rightarrow> routeParentStatus \<Rightarrow> routeParentStatus" where
  "mergeParent existing parent =
     (case find (\<lambda>oldParent. rp_ControllerName oldParent = rp_ControllerName parent \<and>
                             rp_ParentRef oldParent = rp_ParentRef parent) existing of
        None \<Rightarrow> parent
      | Some oldParent \<Rightarrow>
          parent\<lparr>rp_Conditions := foldl upsertCondition (rp_Conditions oldParent) (rp_Conditions parent)\<rparr>)"

definition ownedParent :: "gateway \<Rightarrow> routeParentStatus \<Rightarrow> bool" where
  "ownedParent gw parent \<longleftrightarrow>
     rp_ControllerName parent = ControllerName \<and> parentStatusReferencesGateway parent gw"

definition mergeRouteParents ::
  "routeParentStatus slice \<Rightarrow> gateway \<Rightarrow> routeParentStatus list \<Rightarrow> routeParentStatus slice" where
  "mergeRouteParents existing gw parents =
     Some (filter (\<lambda>parent. \<not> ownedParent gw parent) (elems existing) @
           map (mergeParent (elems existing)) parents)"

section \<open>What a hostname pattern means\<close>

text \<open>
  A concrete host is nonempty, has no asterisk and no leading dot. A pattern is a host or
  \<open>*.\<close> followed by a host; \<open>*.d\<close> stands for every host that has at least one label in
  front of \<open>d\<close>.
\<close>

definition concreteHost :: "string \<Rightarrow> bool" where
  "concreteHost h \<longleftrightarrow> h \<noteq> [] \<and> hd h \<noteq> CHR ''.'' \<and> CHR ''*'' \<notin> set h"

definition hostPattern :: "string \<Rightarrow> bool" where
  "hostPattern p \<longleftrightarrow> concreteHost p \<or> (\<exists>d. p = ''*.'' @ d \<and> concreteHost d)"

definition matchesHost :: "string \<Rightarrow> string \<Rightarrow> bool" where
  "matchesHost p h \<longleftrightarrow>
     (if HasPrefix p ''*.'' then HasSuffix h (CHR ''.'' # drop 2 p) else h = p)"

lemma hostnamesIntersect_sym: "hostnamesIntersect a b = hostnamesIntersect b a"
  by (auto simp: hostnamesIntersect_def)

lemma concreteHost_no_wildcard: "concreteHost h \<Longrightarrow> \<not> HasPrefix h ''*.''"
  by (auto simp: concreteHost_def HasPrefix_def prefix_def)

lemma concreteHost_suffix_neq:
  "concreteHost b \<Longrightarrow> suffix (CHR ''.'' # d) b \<Longrightarrow> b \<noteq> d"
  by (auto simp: suffix_def dest: arg_cong [where f = length])

lemma wildcard_simps [simp]:
  "HasPrefix (CHR ''*'' # CHR ''.'' # d) ''*.''"
  "TrimPrefix (CHR ''*'' # CHR ''.'' # d) ''*'' = CHR ''.'' # d"
  "TrimPrefix (CHR ''*'' # CHR ''.'' # d) ''*.'' = d"
  by (simp_all add: HasPrefix_def TrimPrefix_def)

text \<open>A wildcard and a host.\<close>

lemma intersect_wildcard_host:
  assumes "concreteHost d" and "concreteHost b"
  shows "hostnamesIntersect (''*.'' @ d) b \<longleftrightarrow> suffix (CHR ''.'' # d) b"
proof -
  have "b \<noteq> ''*.'' @ d" and "b \<noteq> ''''" using assms(2) by (auto simp: concreteHost_def)
  then show ?thesis
    using assms concreteHost_no_wildcard [OF assms(2)] concreteHost_suffix_neq [of b d]
    by (auto simp: hostnamesIntersect_def HasSuffix_def)
qed

lemma suffix_dot_wildcard:
  "suffix (CHR ''.'' # d) (''*.'' @ e) \<longleftrightarrow> suffix (CHR ''.'' # d) (CHR ''.'' # e)"
  by (auto simp: suffix_Cons)

text \<open>Two wildcards.\<close>

lemma intersect_wildcards:
  assumes "concreteHost d" and "concreteHost e"
  shows "hostnamesIntersect (''*.'' @ d) (''*.'' @ e) \<longleftrightarrow>
     suffix (CHR ''.'' # d) (CHR ''.'' # e) \<or> suffix (CHR ''.'' # e) (CHR ''.'' # d)"
proof -
  have "''*.'' @ e \<noteq> d" and "''*.'' @ d \<noteq> e" using assms by (auto simp: concreteHost_def)
  then show ?thesis
    using suffix_dot_wildcard [of d e] suffix_dot_wildcard [of e d]
    by (auto simp: hostnamesIntersect_def HasSuffix_def)
qed

lemma suffix_host_exists:
  assumes "concreteHost d"
  shows "\<exists>h. concreteHost h \<and> suffix (CHR ''.'' # d) h"
  using assms by (intro exI [of _ "CHR ''a'' # CHR ''.'' # d"]) (auto simp: concreteHost_def suffix_def)

lemma wildcards_common_host:
  assumes "concreteHost d" and "concreteHost e"
  shows "(\<exists>h. concreteHost h \<and> suffix (CHR ''.'' # d) h \<and> suffix (CHR ''.'' # e) h) \<longleftrightarrow>
     suffix (CHR ''.'' # d) (CHR ''.'' # e) \<or> suffix (CHR ''.'' # e) (CHR ''.'' # d)"
  using suffix_host_exists [OF assms(1)] suffix_host_exists [OF assms(2)]
  by (meson suffix_order.trans suffix_same_cases)

section \<open>Acceptance as a decision on the listeners\<close>

definition acceptance ::
  "(listener \<Rightarrow> bool) \<Rightarrow> parentReference \<Rightarrow> string list \<Rightarrow> routeKind \<Rightarrow> listener list \<Rightarrow> verdict" where
  "acceptance allowed parentRef hostnames kind ls =
     (let sel = filter (listenerSelected parentRef kind) ls;
          hit = (\<lambda>l. routeHostnamesIntersect (l_Hostname l) hostnames)
      in if sel = [] then noMatchingParent
         else if list_ex (\<lambda>l. hit l \<and> allowed l) sel then acceptedVerdict
         else if list_ex (\<lambda>l. \<not> hit l) sel then noMatchingHostname
         else notAllowed)"

lemma acceptLoop_flags:
  assumes "\<And>l. l \<in> set ls \<Longrightarrow> run_state (allows l) w = (Inr (allowed l), w)"
  shows "run_state (acceptLoop allows parentRef hostnames kind ls matched mismatch) w =
    (Inr (let sel = filter (listenerSelected parentRef kind) ls;
              hit = (\<lambda>l. routeHostnamesIntersect (l_Hostname l) hostnames)
          in if list_ex (\<lambda>l. hit l \<and> allowed l) sel then acceptedVerdict
             else if \<not> matched \<and> sel = [] then noMatchingParent
             else if mismatch \<or> list_ex (\<lambda>l. \<not> hit l) sel then noMatchingHostname
             else notAllowed), w)"
  using assms by (induction ls arbitrary: matched mismatch) (auto simp: Let_def)

lemma acceptLoop_acceptance:
  assumes "\<And>l. l \<in> set ls \<Longrightarrow> run_state (allows l) w = (Inr (allowed l), w)"
  shows "run_state (acceptLoop allows parentRef hostnames kind ls False False) w =
    (Inr (acceptance allowed parentRef hostnames kind ls), w)"
proof -
  note acceptLoop_flags [where matched = False and mismatch = False and ls = ls and allows = allows
    and parentRef = parentRef and hostnames = hostnames and kind = kind and w = w, OF assms]
  then show ?thesis
    by (cases "filter (listenerSelected parentRef kind) ls") (simp_all add: acceptance_def Let_def)
qed

section \<open>Resolved backends\<close>

definition backendKindOk :: "backendObjectReference \<Rightarrow> bool" where
  "backendKindOk ref \<longleftrightarrow> optOr (b_Group ref) '''' = '''' \<and> optOr (b_Kind ref) ''Service'' = ''Service''"

definition backendGranted :: "'w client \<Rightarrow> string \<Rightarrow> routeKind \<Rightarrow> backendObjectReference \<Rightarrow> bool" where
  "backendGranted c routeNamespace kind ref \<longleftrightarrow>
     (let ns = optOr (b_Namespace ref) routeNamespace in
      routeNamespace = ns \<or>
      (\<exists>w w' grants grant. run_state (List (referenceGrants c) (Some ns)) w = (Inr grants, w') \<and>
         grant \<in> set grants \<and>
         referenceGrantAllows grant GatewayGroup (kindString kind) routeNamespace '''' ''Service''
           (b_Name ref)))"

definition backendServed :: "'w client \<Rightarrow> string \<Rightarrow> backendObjectReference \<Rightarrow> bool" where
  "backendServed c routeNamespace ref \<longleftrightarrow>
     (\<exists>w w' svc port. b_Port ref = Some port \<and>
        run_state (Get (services c) (optOr (b_Namespace ref) routeNamespace, b_Name ref)) w = (Inr svc, w') \<and>
        serviceHasPort svc port)"

lemma referencePermitted_True:
  assumes "run_state (referencePermitted c fg fk fns tg tk tns tn) w = (True, w')"
  shows "fns = tns \<or> (\<exists>w w' grants grant. run_state (List (referenceGrants c) (Some tns)) w = (Inr grants, w') \<and>
     grant \<in> set grants \<and> referenceGrantAllows grant fg fk fns tg tk tn)"
  using assms unfolding referencePermitted_def
  by (fastforce simp: list_ex_iff split: if_splits prod.splits sum.splits)

lemma backendRefsResolved_True:
  assumes "run_state (backendRefsResolved c routeNamespace kind refs) w = (Inr (ConditionTrue, r, m), w')"
    and "ref \<in> set refs"
  shows "backendKindOk ref \<and> backendGranted c routeNamespace kind ref \<and> backendServed c routeNamespace ref"
  using assms
proof (induction refs arbitrary: w)
  case Nil
  then show ?case by simp
next
  case (Cons x refs)
  let ?ns = "optOr (b_Namespace x) routeNamespace"
  from Cons.prems(1) obtain w1 w2 svc port where
      kind: "backendKindOk x"
    and perm: "run_state (referencePermitted c GatewayGroup (kindString kind) routeNamespace ''''
                 ''Service'' ?ns (b_Name x)) w = (True, w1)"
    and port: "b_Port x = Some port"
    and svc: "run_state (Get (services c) (?ns, b_Name x)) w1 = (Inr svc, w2)" "serviceHasPort svc port"
    and rest: "run_state (backendRefsResolved c routeNamespace kind refs) w2 = (Inr (ConditionTrue, r, m), w')"
    by (auto simp: backendKindOk_def Let_def split: if_splits prod.splits option.splits sum.splits bool.splits)
  from perm have "backendGranted c routeNamespace kind x"
    using referencePermitted_True [OF perm] unfolding backendGranted_def Let_def by blast
  moreover have "backendServed c routeNamespace x"
    unfolding backendServed_def using port svc by blast
  ultimately show ?case using Cons.IH [OF rest] Cons.prems(2) kind by auto
qed

section \<open>Merging parent statuses\<close>

text \<open>Two parent statuses that differ at most in the transition times of their conditions.\<close>

definition sameParent :: "routeParentStatus \<Rightarrow> routeParentStatus \<Rightarrow> bool" where
  "sameParent p p' \<longleftrightarrow> rp_ParentRef p = rp_ParentRef p' \<and> rp_ControllerName p = rp_ControllerName p' \<and>
     list_all2 agrees (rp_Conditions p) (rp_Conditions p')"

text \<open>What the status writer hands to the merge: entries of its own for this Gateway.\<close>

definition wf_parents :: "gateway \<Rightarrow> routeParentStatus list \<Rightarrow> bool" where
  "wf_parents gw ps \<longleftrightarrow> distinct (map rp_ParentRef ps) \<and>
     (\<forall>p \<in> set ps. ownedParent gw p \<and> wf_conditions (rp_Conditions p))"

lemma ownedParent_cong:
  "rp_ParentRef p = rp_ParentRef q \<Longrightarrow> rp_ControllerName p = rp_ControllerName q \<Longrightarrow>
   ownedParent gw p = ownedParent gw q"
  by (simp add: ownedParent_def parentStatusReferencesGateway_def)

lemma mergeParent_sel [simp]:
  "rp_ParentRef (mergeParent E p) = rp_ParentRef p"
  "rp_ControllerName (mergeParent E p) = rp_ControllerName p"
  by (simp_all add: mergeParent_def split: option.splits)

lemma ownedParent_mergeParent [simp]: "ownedParent gw (mergeParent E p) = ownedParent gw p"
  by (rule ownedParent_cong) simp_all

lemma mergeParent_conditions:
  "rp_Conditions (mergeParent E p) =
     (case find (\<lambda>q. rp_ControllerName q = rp_ControllerName p \<and> rp_ParentRef q = rp_ParentRef p) E of
        None \<Rightarrow> rp_Conditions p | Some q \<Rightarrow> foldl upsertCondition (rp_Conditions q) (rp_Conditions p))"
  by (simp add: mergeParent_def split: option.splits)

lemma find_merged:
  assumes "distinct (map rp_ParentRef ps)" and "p \<in> set ps"
    and "\<And>q. q \<in> set ps \<Longrightarrow> rp_ControllerName q = cn"
  shows "find (\<lambda>q. rp_ControllerName q = cn \<and> rp_ParentRef q = rp_ParentRef p)
           (map (mergeParent E) ps) = Some (mergeParent E p)"
  using assms by (induction ps) (auto simp: image_iff)

lemma wf_conditions_stable:
  assumes "wf_conditions cs" and "list_all2 agrees cs ns"
  shows "foldl upsertCondition cs ns = cs"
proof (rule cl.fold_stable)
  fix n
  assume "n \<in> set ns"
  with assms(2) obtain c where "c \<in> set cs" and "agrees c n"
    by (metis in_set_conv_nth list_all2_conv_all_nth)
  then show "\<exists>c. conditionByType cs (c_Type n) = Some c \<and> agrees c n"
    using conditionByType_wf [OF assms(1)] by (auto simp: agrees_iff)
qed

text \<open>A second merge finds each entry as the first one left it.\<close>

lemma mergeParent_again:
  assumes wf: "wf_parents gw ps" and p: "p \<in> set ps" and same: "sameParent p p'"
  shows "mergeParent (filter (\<lambda>q. \<not> ownedParent gw q) E @ map (mergeParent E) ps) p' = mergeParent E p"
proof -
  let ?m = "\<lambda>q. rp_ControllerName q = rp_ControllerName p \<and> rp_ParentRef q = rp_ParentRef p"
  from wf p have own: "ownedParent gw p" and dist: "distinct (map rp_ParentRef ps)"
    and wfc: "wf_conditions (rp_Conditions p)" by (auto simp: wf_parents_def)
  have "\<not> ?m q" if "\<not> ownedParent gw q" for q
    using that own ownedParent_cong [of q p gw] by auto
  then have none: "find ?m (filter (\<lambda>q. \<not> ownedParent gw q) E) = None"
    by (auto simp: find_None_iff)
  have "rp_ControllerName q = rp_ControllerName p" if "q \<in> set ps" for q
    using wf p that by (auto simp: wf_parents_def ownedParent_def)
  then have found: "find ?m (map (mergeParent E) ps) = Some (mergeParent E p)"
    using dist p by (intro find_merged)
  have "foldl upsertCondition (rp_Conditions (mergeParent E p)) (rp_Conditions p') =
        rp_Conditions (mergeParent E p)"
    using same wfc wf_conditions_stable [OF wfc, of "rp_Conditions p'"]
      cl.fold_again [of "rp_Conditions p" "rp_Conditions p'"]
    by (auto simp: mergeParent_conditions sameParent_def wf_conditions_def split: option.splits)
  moreover have "rp_Conditions (mergeParent (filter (\<lambda>q. \<not> ownedParent gw q) E @ map (mergeParent E) ps) p') =
      foldl upsertCondition (rp_Conditions (mergeParent E p)) (rp_Conditions p')"
    using same none found by (simp add: mergeParent_conditions [of "_ @ _"] find_append sameParent_def)
  ultimately show ?thesis
    using same by (intro routeParentStatus.equality) (simp_all add: sameParent_def)
qed

lemma mergeRouteParents_others:
  assumes "wf_parents gw ps"
  shows "filter (\<lambda>q. \<not> ownedParent gw q) (elems (mergeRouteParents existing gw ps)) =
     filter (\<lambda>q. \<not> ownedParent gw q) (elems existing)"
  using assms by (auto simp: mergeRouteParents_def wf_parents_def filter_empty_conv)

lemma mergeRouteParents_own:
  assumes "wf_parents gw ps"
  shows "filter (ownedParent gw) (elems (mergeRouteParents existing gw ps)) =
     map (mergeParent (elems existing)) ps"
  using assms by (auto simp: mergeRouteParents_def wf_parents_def filter_empty_conv intro!: filter_True)

lemma mergeRouteParents_again:
  assumes wf: "wf_parents gw ps" and same: "list_all2 sameParent ps ps'"
  shows "mergeRouteParents (mergeRouteParents existing gw ps) gw ps' = mergeRouteParents existing gw ps"
proof -
  let ?E = "elems existing"
  let ?E' = "filter (\<lambda>q. \<not> ownedParent gw q) ?E @ map (mergeParent ?E) ps"
  have "map (mergeParent ?E') ps' = map (mergeParent ?E) ps"
    using same mergeParent_again [OF wf]
    by (intro nth_equalityI) (auto simp: list_all2_conv_all_nth)
  moreover have "elems (mergeRouteParents existing gw ps) = ?E'"
    by (simp add: mergeRouteParents_def)
  ultimately show ?thesis
    using mergeRouteParents_others [OF wf, of existing]
    by (simp add: mergeRouteParents_def [of "mergeRouteParents existing gw ps"])
      (simp add: mergeRouteParents_def)
qed

section \<open>What the parent loop produces\<close>

lemma ownedParent_mkParentStatus:
  "parentRefMatchesGateway ref ns gw \<Longrightarrow> ownedParent gw (mkParentStatus ref gw a r now gen)"
  by (simp add: ownedParent_def mkParentStatus_def parentStatusReferencesGateway_def
      normalizedGatewayParentRef_def parentRefMatchesGateway_def)

lemma mkParentStatus_ref [simp]:
  "rp_ParentRef (mkParentStatus ref gw a r now gen) = normalizedGatewayParentRef ref (gw_Namespace gw)"
  by (simp add: mkParentStatus_def)

lemma wf_conditions_mkParentStatus: "wf_conditions (rp_Conditions (mkParentStatus ref gw a r now gen))"
  by (simp add: mkParentStatus_def mkCondition_def wf_conditions_def split: prod.splits)

lemma sameParent_mkParentStatus:
  "sameParent (mkParentStatus ref gw a r now gen) (mkParentStatus ref gw a r now' gen)"
  by (cases a; cases r) (simp add: sameParent_def mkParentStatus_def mkCondition_def agrees_iff)

text \<open>One entry per matching parent reference, in order.\<close>

lemma parentStatusLoop_refs:
  assumes "run_state (parentStatusLoop accept ns gw resolved now gen refs) w = (Inr ps, w')"
  shows "map rp_ParentRef ps =
      map (\<lambda>r. normalizedGatewayParentRef r (gw_Namespace gw)) (filter (\<lambda>r. parentRefMatchesGateway r ns gw) refs)
    \<and> (\<forall>p \<in> set ps. ownedParent gw p \<and> wf_conditions (rp_Conditions p))"
  using assms
proof (induction refs arbitrary: ps w)
  case Nil
  then show ?case by simp
next
  case (Cons r refs)
  show ?case
  proof (cases "parentRefMatchesGateway r ns gw")
    case False
    then show ?thesis using Cons by simp
  next
    case True
    with Cons.prems obtain v w1 qs where
        "run_state (parentStatusLoop accept ns gw resolved now gen refs) w1 = (Inr qs, w')"
      and "ps = mkParentStatus r gw v resolved now gen # qs"
      by (auto split: prod.splits sum.splits)
    then show ?thesis
      using True Cons.IH ownedParent_mkParentStatus [OF True] wf_conditions_mkParentStatus
      by simp
  qed
qed

end
