(* ===== verification/Sample_Objects.thy ===== *)
theory Sample_Objects
  imports Kube_Client
begin

text \<open>
  Concrete objects, after the repository's sample manifests (Gateway \<open>demo/demo-gw\<close>), and
  concrete clients for the witnesses of properties that have the client as a parameter: a
  client over the unit world that answers every read with a fixed object, and one over a list
  of writes that records what it is asked to store.
\<close>

definition sampleListener :: listener where
  "sampleListener = \<lparr>l_Name = ''http'', l_Hostname = None, l_Port = 80, l_Protocol = ''HTTP'',
     l_TLS = None, l_AllowedRoutes = None\<rparr>"

definition sampleMeta :: objectMeta where
  "sampleMeta = emptyMeta\<lparr>m_Name := ''demo-gw'', m_Namespace := ''demo'', m_Generation := 3\<rparr>"

definition sampleGateway :: gateway where
  "sampleGateway = \<lparr>gw_Meta = sampleMeta, gw_GatewayClassName = ''appnet'',
     gw_Listeners = [sampleListener], gw_TLS = None, gw_Status = emptyGatewayStatus\<rparr>"

definition sampleParentRef :: parentReference where
  "sampleParentRef = \<lparr>p_Group = None, p_Kind = None, p_Namespace = None, p_Name = ''demo-gw'',
     p_SectionName = None, p_Port = None\<rparr>"

definition sampleBackendRef :: backendObjectReference where
  "sampleBackendRef = \<lparr>b_Group = None, b_Kind = None, b_Name = ''echo'', b_Namespace = None,
     b_Port = Some 8080\<rparr>"

definition sampleServicePort :: servicePort where
  "sampleServicePort = \<lparr>sp_Name = ''http'', sp_Port = 8080, sp_TargetPort = 8080,
     sp_Protocol = ''TCP'', sp_NodePort = 0\<rparr>"

definition sampleService :: service where
  "sampleService = \<lparr>svc_Meta = emptyMeta, svc_Selector = Map.empty, svc_Type = ''ClusterIP'',
     svc_Ports = [sampleServicePort], svc_ClusterIP = '''', svc_ClusterIPs = [],
     svc_IPFamilies = [], svc_IPFamilyPolicy = None, svc_HealthCheckNodePort = 0,
     svc_AllocateLoadBalancerNodePorts = None, svc_Ingress = []\<rparr>"

section \<open>Concrete clients\<close>

text \<open>A resource with one object: reads return it, writes are accepted.\<close>

definition constResource :: "error + 'o \<Rightarrow> ('o, 'w) resource" where
  "constResource r = \<lparr>
     Get = (\<lambda>_. pureIO r),
     List = (\<lambda>_. case r of Inl e \<Rightarrow> fail e | Inr x \<Rightarrow> ok [x]),
     Create = (\<lambda>_. ok ()), Update = (\<lambda>_. ok ()), Delete = (\<lambda>_. ok ()),
     StatusUpdate = (\<lambda>_. ok ())\<rparr>"

definition notFoundErr :: error where
  "notFoundErr = APIError NotFound ''not found''"

definition emptyClient :: "'w client" where
  "emptyClient = \<lparr>
     gateways = constResource (Inl notFoundErr), gatewayClasses = constResource (Inl notFoundErr),
     httpRoutes = constResource (Inl notFoundErr), grpcRoutes = constResource (Inl notFoundErr),
     tlsRoutes = constResource (Inl notFoundErr),
     referenceGrants = constResource (Inl notFoundErr),
     backendTLSPolicies = constResource (Inl notFoundErr),
     kubeNamespaces = constResource (Inl notFoundErr), services = constResource (Inl notFoundErr),
     secrets = constResource (Inl notFoundErr), serviceAccounts = constResource (Inl notFoundErr),
     deployments = constResource (Inl notFoundErr),
     createToken = (\<lambda>_ _ _. fail notFoundErr)\<rparr>"

definition sampleLib :: "'w lib" where
  "sampleLib = \<lparr>RetryOnConflict = attempts 4, LabelSelectorAsSelector = (\<lambda>_. Inr (\<lambda>_. True)),
     Now = pureIO 100\<rparr>"

lemmas sample_defs =
  sampleListener_def sampleMeta_def sampleGateway_def sampleParentRef_def sampleBackendRef_def
  sampleServicePort_def sampleService_def constResource_def notFoundErr_def emptyClient_def
  sampleLib_def emptyMeta_def emptyGatewayStatus_def

end
