(* ===== verification/Route_Properties.thy ===== *)
theory Route_Properties
  imports Route_Attachment Sample_Objects
begin

text \<open>
  The properties of route attachment, each with a witness on the sample objects.
\<close>

section \<open>Own entries\<close>

text \<open>
  The entries of a route status that this controller keeps for a Gateway: written under its name, and referring
  to the Gateway, where an absent group, kind or namespace stands for the Gateway's.
\<close>

definition ownEntry :: "gateway \<Rightarrow> routeParentStatus \<Rightarrow> bool" where
  "ownEntry gw q \<longleftrightarrow> rp_ControllerName q = ''gateway.azure.com/appnet-gateway.controller'' \<and>
     p_Name (rp_ParentRef q) = gw_Name gw \<and>
     p_Group (rp_ParentRef q) \<in> {None, Some ''gateway.networking.k8s.io''} \<and>
     p_Kind (rp_ParentRef q) \<in> {None, Some ''Gateway''} \<and>
     p_Namespace (rp_ParentRef q) \<in> {None, Some (gw_Namespace gw)}"

lemma ownedParent_ownEntry: "ownedParent gw q \<longleftrightarrow> ownEntry gw q"
  by (auto simp: ownedParent_def ownEntry_def parentStatusReferencesGateway_def ControllerName_def GatewayGroup_def Let_def
      optOr_def split: option.splits)

text \<open>Writing the conditions of a well-formed list over another one, type by type.\<close>

lemma fold_conditions:
  assumes "wf_conditions ns"
  shows "conditionByType (foldl upsertCondition cs ns) ty =
    (case conditionByType ns ty of
       None \<Rightarrow> conditionByType cs ty
     | Some n \<Rightarrow> Some (mergeCondition (conditionByType cs ty) n))"
proof (cases "conditionByType ns ty")
  case None
  then have "ty \<notin> c_Type ` set ns" by (simp add: conditionByType_None)
  then show ?thesis using None by (simp add: cl.lookup_fold_other)
next
  case (Some n)
  then have "n \<in> set ns" "c_Type n = ty" using conditionByType_Some by blast+
  then show ?thesis using Some cl.lookup_fold [of ns n cs] assms by (simp add: wf_conditions_def)
qed

lemma mergeParent_entry:
  assumes "wf_conditions (rp_Conditions p)"
  shows "rp_ParentRef (mergeParent E p) = rp_ParentRef p \<and> rp_ControllerName (mergeParent E p) = rp_ControllerName p \<and>
    (case find (\<lambda>q. rp_ControllerName q = rp_ControllerName p \<and> rp_ParentRef q = rp_ParentRef p) E of
       None \<Rightarrow> rp_Conditions (mergeParent E p) = rp_Conditions p
     | Some old \<Rightarrow> \<forall>ty. conditionByType (rp_Conditions (mergeParent E p)) ty =
         (case conditionByType (rp_Conditions p) ty of
            None \<Rightarrow> conditionByType (rp_Conditions old) ty
          | Some n \<Rightarrow> Some (mergeCondition (conditionByType (rp_Conditions old) ty) n)))"
  by (cases "find (\<lambda>q. rp_ControllerName q = rp_ControllerName p \<and> rp_ParentRef q = rp_ParentRef p) E")
    (simp_all add: mergeParent_conditions fold_conditions [OF assms])

section \<open>Sample entries\<close>

definition sampleEntry :: "int \<Rightarrow> routeParentStatus" where
  "sampleEntry t = mkParentStatus sampleParentRef sampleGateway acceptedVerdict resolvedVerdict t 1"

definition otherEntry :: routeParentStatus where
  "otherEntry = (sampleEntry 1)\<lparr>rp_ControllerName := ''example.com/other''\<rparr>"

definition staleEntry :: routeParentStatus where
  "staleEntry = (sampleEntry 1)\<lparr>rp_ParentRef := (rp_ParentRef (sampleEntry 1))\<lparr>p_SectionName := Some ''gone''\<rparr>\<rparr>"

lemmas entry_defs = sampleEntry_def otherEntry_def staleEntry_def mkParentStatus_def normalizedGatewayParentRef_def

lemma sample_own:
  "ownEntry sampleGateway (sampleEntry t)" "ownEntry sampleGateway staleEntry" "\<not> ownEntry sampleGateway otherEntry"
  by (simp_all add: ownEntry_def entry_defs sample_defs ControllerName_def gateway_api_consts)

lemma sample_sel:
  "rp_ControllerName (sampleEntry t) = ControllerName" "rp_ControllerName otherEntry \<noteq> ControllerName"
  "rp_ParentRef (sampleEntry t) = normalizedGatewayParentRef sampleParentRef (gw_Namespace sampleGateway)"
  "rp_ParentRef staleEntry \<noteq> normalizedGatewayParentRef sampleParentRef (gw_Namespace sampleGateway)"
  "conditionByType (rp_Conditions (sampleEntry t)) CondAccepted = Some (mkCondition CondAccepted acceptedVerdict t 1)"
  by (simp_all add: entry_defs sample_defs ControllerName_def mkCondition_def split: prod.splits)

section \<open>Properties\<close>

text \<open>
  C4: two hostname patterns intersect, as \<open>hostnamesIntersect\<close> computes by comparing prefixes and
  suffixes, exactly when some concrete host matches both.
\<close>

theorem hostnamesIntersect_iff:
  assumes "hostPattern a" and "hostPattern b"
  shows "hostnamesIntersect a b \<longleftrightarrow> (\<exists>h. concreteHost h \<and> matchesHost a h \<and> matchesHost b h)"
proof -
  have wild: "matchesHost (''*.'' @ d) h \<longleftrightarrow> suffix (CHR ''.'' # d) h" for d h
    by (simp add: matchesHost_def HasSuffix_def)
  have literal: "matchesHost p h \<longleftrightarrow> h = p" if "concreteHost p" for p h
    using concreteHost_no_wildcard [OF that] by (simp add: matchesHost_def)
  consider (exact) "concreteHost a" "concreteHost b"
    | (left) d where "a = ''*.'' @ d" "concreteHost d" "concreteHost b"
    | (right) e where "b = ''*.'' @ e" "concreteHost e" "concreteHost a"
    | (both) d e where "a = ''*.'' @ d" "b = ''*.'' @ e" "concreteHost d" "concreteHost e"
    using assms unfolding hostPattern_def by blast
  then show ?thesis
  proof cases
    case exact
    then have "hostnamesIntersect a b \<longleftrightarrow> a = b"
      by (auto simp: hostnamesIntersect_def concreteHost_no_wildcard) (auto simp: concreteHost_def)
    then show ?thesis using exact literal by auto
  next
    case left
    then show ?thesis using intersect_wildcard_host [of d b] wild literal by auto
  next
    case right
    then show ?thesis
      using intersect_wildcard_host [of e a] wild literal hostnamesIntersect_sym [of a b] by auto
  next
    case both
    then show ?thesis using intersect_wildcards [of d e] wildcards_common_host [of d e] wild by auto
  qed
qed

text \<open>Witness for C4.\<close>

theorem hostnamesIntersect_iff_witness:
  "hostPattern ''*.a.io'' \<and> hostPattern ''b.a.io'' \<and>
   (\<exists>h. concreteHost h \<and> matchesHost ''*.a.io'' h \<and> matchesHost ''b.a.io'' h)"
proof -
  have pats: "hostPattern ''*.a.io''" "hostPattern ''b.a.io''"
    by (auto simp: hostPattern_def concreteHost_def)
  have "hostnamesIntersect ''*.a.io'' ''b.a.io''"
    by (simp add: hostnamesIntersect_def HasPrefix_def HasSuffix_def TrimPrefix_def suffix_def)
  with hostnamesIntersect_iff [OF pats] pats show ?thesis by blast
qed

text \<open>
  C5: \<open>routeAcceptedByGateway\<close> decides acceptance. When the policy of every listener can be
  evaluated (to \<open>allowed\<close>), the route is accepted exactly when some listener selected by the
  parent reference (section name, port, route kind) intersects its hostnames and allows it;
  otherwise the reason says whether no listener was selected, some selected one had no common
  hostname, or all refused.
\<close>

theorem routeAcceptedByGateway_decision:
  assumes "\<And>l. l \<in> set (gw_Listeners gw) \<Longrightarrow>
    run_state (listenerAllowsRoute L c l (gw_Namespace gw) routeNamespace kind) w = (Inr (allowed l), w)"
  shows "run_state (routeAcceptedByGateway L c parentRef routeNamespace hostnames gw kind) w =
    (Inr (acceptance allowed parentRef hostnames kind (gw_Listeners gw)), w)"
  unfolding routeAcceptedByGateway_def using assms by (rule acceptLoop_acceptance)

text \<open>Witness for C5.\<close>

theorem routeAcceptedByGateway_decision_witness:
  "run_state (routeAcceptedByGateway sampleLib emptyClient sampleParentRef ''demo'' [] sampleGateway
     routeKindHTTP) () = (Inr acceptedVerdict, ())"
proof -
  have "run_state (listenerAllowsRoute sampleLib emptyClient l (gw_Namespace sampleGateway) ''demo''
          routeKindHTTP) () = (Inr True, ())" if "l \<in> set (gw_Listeners sampleGateway)" for l
    using that by (simp add: listenerAllowsRoute_def sample_defs)
  then show ?thesis
    using routeAcceptedByGateway_decision [where allowed = "\<lambda>_. True" and gw = sampleGateway
        and L = sampleLib and c = emptyClient and routeNamespace = "''demo''" and kind = routeKindHTTP
        and w = "()" and hostnames = "[]" and parentRef = sampleParentRef]
    by (simp add: acceptance_def sample_defs listenerSelected_def listenerSupportsRouteKind_def
        gateway_api_consts routeHostnamesIntersect_def)
qed

text \<open>
  C11: \<open>ResolvedRefs=True\<close> is never reported for a route with a bad backend. Every backend
  reference is then a core Service, is in the route's namespace or granted by a ReferenceGrant
  read from the target namespace, and names a port of a Service that was read.
\<close>

theorem backendRefsResolved_sound:
  assumes "run_state (backendRefsResolved c routeNamespace kind refs) w = (Inr (ConditionTrue, r, m), w')"
  shows "\<forall>ref \<in> set refs. backendKindOk ref \<and> backendGranted c routeNamespace kind ref \<and>
     backendServed c routeNamespace ref"
  using backendRefsResolved_True [OF assms] by blast

text \<open>Witness for C11.\<close>

theorem backendRefsResolved_sound_witness:
  "backendServed (emptyClient\<lparr>services := constResource (Inr sampleService)\<rparr> :: unit client) ''demo''
     sampleBackendRef"
proof -
  have "run_state (backendRefsResolved (emptyClient\<lparr>services := constResource (Inr sampleService)\<rparr>)
          ''demo'' routeKindHTTP [sampleBackendRef]) () =
        (Inr (ConditionTrue, ''ResolvedRefs'', ''Resolved route references''), ())"
    by (simp add: sample_defs referencePermitted_def serviceHasPort_def resolvedVerdict_def)
  from backendRefsResolved_sound [OF this] show ?thesis by simp
qed

text \<open>
  C12: what a merge of parent statuses stores. The entries of other controllers, and those of this controller
  that refer to another Gateway, stay as they were and in order; its own entries for the Gateway that are not
  among the new ones are gone. After them comes one entry per new parent status, in order, with the same
  reference and controller. Where the status had no entry for that reference, it has the new conditions. Where it
  had one, a condition type that is not among the new ones is as it was, and one that is has the new condition,
  with the old transition time when status, reason and message are unchanged.
\<close>

theorem mergeRouteParents_local:
  assumes "\<And>p. p \<in> set parents \<Longrightarrow> wf_conditions (rp_Conditions p)"
  shows "\<exists>merged. elems (mergeRouteParents existing gw parents) = filter (\<lambda>q. \<not> ownEntry gw q) (elems existing) @ merged \<and>
    list_all2 (\<lambda>p m. rp_ParentRef m = rp_ParentRef p \<and> rp_ControllerName m = rp_ControllerName p \<and>
      (case find (\<lambda>q. rp_ControllerName q = rp_ControllerName p \<and> rp_ParentRef q = rp_ParentRef p) (elems existing) of
         None \<Rightarrow> rp_Conditions m = rp_Conditions p
       | Some old \<Rightarrow> \<forall>ty. conditionByType (rp_Conditions m) ty =
           (case conditionByType (rp_Conditions p) ty of
              None \<Rightarrow> conditionByType (rp_Conditions old) ty
            | Some n \<Rightarrow> Some (case conditionByType (rp_Conditions old) ty of
                None \<Rightarrow> n
              | Some c \<Rightarrow> if c_Status c = c_Status n \<and> c_Reason c = c_Reason n \<and> c_Message c = c_Message n
                  then n\<lparr>c_LastTransitionTime := c_LastTransitionTime c\<rparr> else n)))) parents merged"
proof (intro exI conjI)
  show "elems (mergeRouteParents existing gw parents) =
      filter (\<lambda>q. \<not> ownEntry gw q) (elems existing) @ map (mergeParent (elems existing)) parents"
    by (simp add: mergeRouteParents_def ownedParent_ownEntry)
qed (unfold list_all2_map2, rule list.rel_refl_strong, rule mergeParent_entry [unfolded mergeCondition_def], rule assms)

text \<open>
  Witness for C12: the first entry is another controller's, the second is for another section of the Gateway and is
  dropped, and the third is merged and keeps the transition time 1 of its conditions.
\<close>

theorem mergeRouteParents_local_witness:
  "\<exists>m. elems (mergeRouteParents (Some [otherEntry, staleEntry, sampleEntry 1]) sampleGateway [sampleEntry 2]) = [otherEntry, m] \<and>
     rp_ParentRef m = rp_ParentRef (sampleEntry 2) \<and>
     map_option c_LastTransitionTime (conditionByType (rp_Conditions m) CondAccepted) = Some 1"
proof -
  let ?old = "[otherEntry, staleEntry, sampleEntry 1]"
  have "wf_conditions (rp_Conditions p)" if "p \<in> set [sampleEntry 2]" for p
    using that wf_conditions_mkParentStatus by (simp add: sampleEntry_def)
  from mergeRouteParents_local [of "[sampleEntry 2]" "Some ?old" sampleGateway, OF this]
  obtain m where merged: "elems (mergeRouteParents (Some ?old) sampleGateway [sampleEntry 2]) = [otherEntry, m]"
    and ref: "rp_ParentRef m = rp_ParentRef (sampleEntry 2)"
    and conditions: "\<forall>ty. conditionByType (rp_Conditions m) ty = (case conditionByType (rp_Conditions (sampleEntry 2)) ty of
        None \<Rightarrow> conditionByType (rp_Conditions (sampleEntry 1)) ty
      | Some n \<Rightarrow> Some (case conditionByType (rp_Conditions (sampleEntry 1)) ty of
          None \<Rightarrow> n
        | Some c \<Rightarrow> if c_Status c = c_Status n \<and> c_Reason c = c_Reason n \<and> c_Message c = c_Message n
            then n\<lparr>c_LastTransitionTime := c_LastTransitionTime c\<rparr> else n))"
    by (simp add: list_all2_Cons1 sample_sel sample_own) blast
  have "map_option c_LastTransitionTime (conditionByType (rp_Conditions m) CondAccepted) = Some 1"
    using conditions by (simp add: sample_sel mkCondition_def acceptedVerdict_def)
  with merged ref show ?thesis by blast
qed

text \<open>
  Merging again, later, the same verdicts changes nothing, so a reconcile of an unchanged
  route finds its status equal and writes nothing.
\<close>

theorem mergeRouteParents_idempotent:
  assumes "wf_parents gw parents" and "list_all2 sameParent parents parents'"
  shows "mergeRouteParents (mergeRouteParents existing gw parents) gw parents' =
     mergeRouteParents existing gw parents"
  using assms by (rule mergeRouteParents_again)

text \<open>An instance.\<close>

theorem mergeRouteParents_idempotent_witness:
  "let p = (\<lambda>t. mkParentStatus sampleParentRef sampleGateway acceptedVerdict resolvedVerdict t 1)
   in mergeRouteParents (mergeRouteParents None sampleGateway [p 1]) sampleGateway [p 2] =
      mergeRouteParents None sampleGateway [p 1]"
proof -
  let ?p = "\<lambda>t. mkParentStatus sampleParentRef sampleGateway acceptedVerdict resolvedVerdict t 1"
  have "parentRefMatchesGateway sampleParentRef ''demo'' sampleGateway"
    by (simp add: parentRefMatchesGateway_def sample_defs)
  then have "wf_parents sampleGateway [?p 1]"
    using ownedParent_mkParentStatus wf_conditions_mkParentStatus by (simp add: wf_parents_def)
  moreover have "list_all2 sameParent [?p 1] [?p 2]"
    by (simp add: sameParent_mkParentStatus)
  ultimately show ?thesis
    using mergeRouteParents_idempotent [of sampleGateway "[?p 1]" "[?p 2]" None] by (simp add: Let_def)
qed

end
