(* ===== verification/Work_Queue.thy ===== *)
theory Work_Queue
  imports Kube_Types
begin

text \<open>
  The Gateway work queue of \<open>controller/internal/membercluster/handler.go\<close>: \<open>gatewayProcessor\<close>
  with its mutex, its map of work states and one goroutine per busy key. The work states are heap
  cells, as in the code: the map and the running goroutine share a pointer.

  A goroutine is \<open>Ready\<close> at the top of the loop of \<open>run\<close>, \<open>Reconciling\<close> inside
  \<open>reconcileWithRetries\<close>, \<open>Finished\<close> when that has returned and the lock is not yet taken. The two
  critical sections (of \<open>enqueue\<close> and of \<open>run\<close>) are atomic steps, since both hold the mutex;
  everything else interleaves freely.
\<close>

section \<open>State\<close>

record gatewayWorkState =
  running :: bool
  dirty :: bool

datatype phase = Ready | Reconciling | Finished

record worker =
  wk_key :: nname
  wk_state :: nat
  wk_phase :: phase

record gatewayProcessor =
  states :: "nname \<rightharpoonup> nat"
  heap :: "nat \<Rightarrow> gatewayWorkState"
  nextCell :: nat
  workers :: "nat \<rightharpoonup> worker"
  nextWorker :: nat

definition newGatewayProcessor :: gatewayProcessor where
  "newGatewayProcessor = \<lparr>states = Map.empty, heap = (\<lambda>_. \<lparr>running = False, dirty = False\<rparr>), nextCell = 0,
     workers = Map.empty, nextWorker = 0\<rparr>"

section \<open>Operations\<close>

definition workState :: "nname \<Rightarrow> gatewayProcessor \<Rightarrow> nat \<times> gatewayProcessor" where
  "workState key p =
     (case states p key of
        Some s \<Rightarrow> (s, p)
      | None \<Rightarrow> (nextCell p, p\<lparr>states := (states p)(key \<mapsto> nextCell p),
                     heap := (heap p)(nextCell p := \<lparr>running = False, dirty = False\<rparr>), nextCell := Suc (nextCell p)\<rparr>))"

definition enqueue :: "nname \<Rightarrow> gatewayProcessor \<Rightarrow> gatewayProcessor" where
  "enqueue key p0 =
     (case workState key p0 of (state, p) \<Rightarrow>
        if running (heap p state) then p\<lparr>heap := (heap p)(state := (heap p state)\<lparr>dirty := True\<rparr>)\<rparr>
        else p\<lparr>heap := (heap p)(state := (heap p state)\<lparr>running := True\<rparr>),
               workers := (workers p)(nextWorker p \<mapsto> \<lparr>wk_key = key, wk_state = state, wk_phase = Ready\<rparr>),
               nextWorker := Suc (nextWorker p)\<rparr>)"

text \<open>The critical section of \<open>run\<close>, for the goroutine \<open>g\<close>.\<close>

definition runSettle :: "nat \<Rightarrow> worker \<Rightarrow> gatewayProcessor \<Rightarrow> gatewayProcessor" where
  "runSettle g w p =
     (if \<not> dirty (heap p (wk_state w)) then
        p\<lparr>states := (states p)(wk_key w := None), workers := (workers p)(g := None)\<rparr>
      else
        p\<lparr>heap := (heap p)(wk_state w := (heap p (wk_state w))\<lparr>dirty := False\<rparr>),
          workers := (workers p)(g \<mapsto> w\<lparr>wk_phase := Ready\<rparr>)\<rparr>)"

datatype label = Enqueue nname | Start nname | Finish nname | Settle nname

inductive step :: "gatewayProcessor \<Rightarrow> label \<Rightarrow> gatewayProcessor \<Rightarrow> bool" where
  step_enqueue: "step p (Enqueue key) (enqueue key p)"
| step_start: "workers p g = Some w \<Longrightarrow> wk_phase w = Ready \<Longrightarrow>
    step p (Start (wk_key w)) (p\<lparr>workers := (workers p)(g \<mapsto> w\<lparr>wk_phase := Reconciling\<rparr>)\<rparr>)"
| step_finish: "workers p g = Some w \<Longrightarrow> wk_phase w = Reconciling \<Longrightarrow>
    step p (Finish (wk_key w)) (p\<lparr>workers := (workers p)(g \<mapsto> w\<lparr>wk_phase := Finished\<rparr>)\<rparr>)"
| step_settle: "workers p g = Some w \<Longrightarrow> wk_phase w = Finished \<Longrightarrow>
    step p (Settle (wk_key w)) (runSettle g w p)"

text \<open>Reachable processors, with the history of labels, the newest first.\<close>

inductive reach :: "label list \<Rightarrow> gatewayProcessor \<Rightarrow> bool" where
  reach_init: "reach [] newGatewayProcessor"
| reach_step: "reach tr p \<Longrightarrow> step p l p' \<Longrightarrow> reach (l # tr) p'"

section \<open>The contract\<close>

text \<open>
  What the queue promises, without pointers, locks and goroutines: a key is idle, or has one worker
  in some phase, and a bit says whether an event came since the worker last looked.
\<close>

datatype status = Idle | Active phase bool

fun onEnqueue :: "status \<Rightarrow> status" where
  "onEnqueue Idle = Active Ready False"
| "onEnqueue (Active ph d) = Active ph True"

fun onSettle :: "bool \<Rightarrow> status" where
  "onSettle False = Idle"
| "onSettle True = Active Ready False"

inductive specStep :: "(nname \<Rightarrow> status) \<Rightarrow> label \<Rightarrow> (nname \<Rightarrow> status) \<Rightarrow> bool" where
  "specStep a (Enqueue k) (a(k := onEnqueue (a k)))"
| "a k = Active Ready d \<Longrightarrow> specStep a (Start k) (a(k := Active Reconciling d))"
| "a k = Active Reconciling d \<Longrightarrow> specStep a (Finish k) (a(k := Active Finished d))"
| "a k = Active Finished d \<Longrightarrow> specStep a (Settle k) (a(k := onSettle d))"

inductive specReach :: "label list \<Rightarrow> (nname \<Rightarrow> status) \<Rightarrow> bool" where
  "specReach [] (\<lambda>_. Idle)"
| "specReach tr a \<Longrightarrow> specStep a l a' \<Longrightarrow> specReach (l # tr) a'"

inductive_cases specStepE: "specStep a l a'"

section \<open>Refinement\<close>

definition owns :: "gatewayProcessor \<Rightarrow> nname \<Rightarrow> nat \<Rightarrow> nat \<Rightarrow> phase \<Rightarrow> bool" where
  "owns p k s g ph \<longleftrightarrow> states p k = Some s \<and> running (heap p s) \<and> workers p g = Some \<lparr>wk_key = k, wk_state = s, wk_phase = ph\<rparr> \<and>
     (\<forall>g' w. workers p g' = Some w \<and> wk_key w = k \<longrightarrow> g' = g)"

definition keyRefines :: "gatewayProcessor \<Rightarrow> nname \<Rightarrow> status \<Rightarrow> bool" where
  "keyRefines p k st \<longleftrightarrow>
     (case st of
        Idle \<Rightarrow> states p k = None \<and> (\<forall>g w. workers p g = Some w \<longrightarrow> wk_key w \<noteq> k)
      | Active ph d \<Rightarrow> \<exists>s g. owns p k s g ph \<and> dirty (heap p s) = d)"

definition refines :: "gatewayProcessor \<Rightarrow> (nname \<Rightarrow> status) \<Rightarrow> bool" where
  "refines p a \<longleftrightarrow> (\<forall>k. keyRefines p k (a k)) \<and>
     (\<forall>k k' s. states p k = Some s \<and> states p k' = Some s \<longrightarrow> k = k') \<and>
     (\<forall>k s. states p k = Some s \<longrightarrow> s < nextCell p) \<and>
     (\<forall>g. nextWorker p \<le> g \<longrightarrow> workers p g = None)"

lemma refines_init: "refines newGatewayProcessor (\<lambda>_. Idle)"
  by (simp add: refines_def keyRefines_def newGatewayProcessor_def)

lemma refinesD: "refines p a \<Longrightarrow> keyRefines p k (a k)"
  unfolding refines_def by blast

text \<open>The worker of a key determines its status, and its cell is not shared.\<close>

lemma refines_worker:
  assumes "refines p a" and "workers p g = Some w"
  shows "\<exists>d. a (wk_key w) = Active (wk_phase w) d \<and> owns p (wk_key w) (wk_state w) g (wk_phase w) \<and>
    dirty (heap p (wk_state w)) = d"
proof (cases "a (wk_key w)")
  case Idle
  then show ?thesis using refinesD [OF assms(1), of "wk_key w"] assms(2) by (auto simp: keyRefines_def)
next
  case (Active ph d)
  then obtain s g' where own: "owns p (wk_key w) s g' ph" "dirty (heap p s) = d"
    using refinesD [OF assms(1), of "wk_key w"] by (auto simp: keyRefines_def)
  then have "g' = g" using assms(2) by (auto simp: owns_def)
  with own assms(2) have "w = \<lparr>wk_key = wk_key w, wk_state = s, wk_phase = ph\<rparr>" by (auto simp: owns_def)
  then have "wk_state w = s" "wk_phase w = ph" by (metis worker.select_convs(2), metis worker.select_convs(3))
  then show ?thesis using own Active \<open>g' = g\<close> by auto
qed

lemma cell_not_shared:
  assumes "refines p a" and "states p k = Some s" and "owns p k' s' g ph" and "k \<noteq> k'"
  shows "s \<noteq> s'"
  using assms unfolding refines_def owns_def by blast

text \<open>A step that changes one worker, its cell and nothing else leaves every other key alone.\<close>

lemma keyRefines_other:
  assumes "keyRefines p k st" and "k \<noteq> k0"
    and "states p' k = states p k"
    and "\<And>s. states p k = Some s \<Longrightarrow> heap p' s = heap p s"
    and "\<And>g w. wk_key w \<noteq> k0 \<Longrightarrow> workers p' g = Some w \<longleftrightarrow> workers p g = Some w"
  shows "keyRefines p' k st"
proof (cases st)
  case Idle
  then show ?thesis using assms by (auto simp: keyRefines_def)
next
  case (Active ph d)
  then obtain s g where "owns p k s g ph" "dirty (heap p s) = d" using assms(1) by (auto simp: keyRefines_def)
  then have "owns p' k s g ph \<and> dirty (heap p' s) = d"
    using assms(2-5) unfolding owns_def by auto
  then show ?thesis using Active by (auto simp: keyRefines_def)
qed

lemma refinesI:
  assumes old: "refines p a" and key: "keyRefines p' k0 st"
    and "\<And>k. k \<noteq> k0 \<Longrightarrow> states p' k = states p k"
    and "\<And>k s. k \<noteq> k0 \<Longrightarrow> states p k = Some s \<Longrightarrow> heap p' s = heap p s"
    and "\<And>g w. wk_key w \<noteq> k0 \<Longrightarrow> workers p' g = Some w \<longleftrightarrow> workers p g = Some w"
    and cells: "\<And>k k' s. states p' k = Some s \<Longrightarrow> states p' k' = Some s \<Longrightarrow> k = k'"
    and "\<And>k s. states p' k = Some s \<Longrightarrow> s < nextCell p'"
    and "\<And>g. nextWorker p' \<le> g \<Longrightarrow> workers p' g = None"
  shows "refines p' (a(k0 := st))"
proof -
  have "keyRefines p' k ((a(k0 := st)) k)" for k
  proof (cases "k = k0")
    case False
    then show ?thesis using keyRefines_other [OF refinesD [OF old] False] assms(3-5) by simp
  qed (use key in simp)
  then show ?thesis unfolding refines_def using assms(6-8) by blast
qed

lemma refines_facts:
  assumes "refines p a"
  shows "\<And>k k' s. states p k = Some s \<Longrightarrow> states p k' = Some s \<Longrightarrow> k = k'"
    and "\<And>k s. states p k = Some s \<Longrightarrow> s < nextCell p"
    and "\<And>g. nextWorker p \<le> g \<Longrightarrow> workers p g = None"
  using assms unfolding refines_def by blast+

text \<open>An enqueue of an idle key makes a cell and a goroutine; of an active key, it sets the dirty bit.\<close>

lemma refines_enqueue_idle:
  assumes "refines p a" and "a k = Idle"
  shows "refines (enqueue k p) (a(k := onEnqueue (a k)))"
proof -
  have idle: "states p k = None" "\<And>g w. workers p g = Some w \<Longrightarrow> wk_key w \<noteq> k"
    using refinesD [OF assms(1), of k] assms(2) by (auto simp: keyRefines_def)
  let ?p = "enqueue k p"
  have p': "states ?p = (states p)(k \<mapsto> nextCell p)" "nextCell ?p = Suc (nextCell p)"
    "heap ?p = (heap p)(nextCell p := \<lparr>running = True, dirty = False\<rparr>)"
    "workers ?p = (workers p)(nextWorker p \<mapsto> \<lparr>wk_key = k, wk_state = nextCell p, wk_phase = Ready\<rparr>)"
    "nextWorker ?p = Suc (nextWorker p)"
    using idle(1) by (simp_all add: enqueue_def workState_def)
  note cells = refines_facts(2) [OF assms(1)]
  show ?thesis
  proof (rule refinesI [OF assms(1)])
    have "owns ?p k (nextCell p) (nextWorker p) Ready"
      using idle(2) unfolding owns_def p' by auto
    then show "keyRefines ?p k (onEnqueue (a k))" by (auto simp: assms(2) keyRefines_def p')
    show "states ?p k' = states p k'" if "k' \<noteq> k" for k' using that by (simp add: p')
    show "heap ?p s = heap p s" if "k' \<noteq> k" "states p k' = Some s" for k' s
      using cells [OF that(2)] by (simp add: p')
    show "workers ?p g = Some w \<longleftrightarrow> workers p g = Some w" if "wk_key w \<noteq> k" for g w
      using that refines_facts(3) [OF assms(1), of g] by (auto simp: p')
    show "k' = k''" if "states ?p k' = Some s" "states ?p k'' = Some s" for k' k'' s
    proof (cases "k' = k \<or> k'' = k")
      case True
      then show ?thesis using that cells [of k'] cells [of k''] unfolding p' by (metis fun_upd_apply less_irrefl option.inject)
    next
      case False
      then show ?thesis using that refines_facts(1) [OF assms(1)] unfolding p' by simp
    qed
    show "s < nextCell ?p" if "states ?p k' = Some s" for k' s
      using that cells [of k' s] unfolding p' by (cases "k' = k") auto
    show "workers ?p g = None" if "nextWorker ?p \<le> g" for g
      using that refines_facts(3) [OF assms(1), of g] by (simp add: p')
  qed
qed

lemma refines_enqueue_active:
  assumes "refines p a" and "a k = Active ph d"
  shows "refines (enqueue k p) (a(k := onEnqueue (a k)))"
proof -
  obtain s g where own: "owns p k s g ph" "dirty (heap p s) = d"
    using refinesD [OF assms(1), of k] assms(2) by (auto simp: keyRefines_def)
  then have p': "enqueue k p = p\<lparr>heap := (heap p)(s := (heap p s)\<lparr>dirty := True\<rparr>)\<rparr>"
    by (simp add: enqueue_def workState_def owns_def)
  show ?thesis
  proof (rule refinesI [OF assms(1)])
    show "keyRefines (enqueue k p) k (onEnqueue (a k))"
      using own unfolding assms(2) keyRefines_def owns_def p' by auto
    show "heap (enqueue k p) s' = heap p s'" if "k' \<noteq> k" "states p k' = Some s'" for k' s'
      using cell_not_shared [OF assms(1) that(2) own(1) that(1)] by (simp add: p')
  qed (use refines_facts [OF assms(1)] in \<open>auto simp: p'\<close>)
qed

lemma refines_enqueue:
  assumes "refines p a"
  shows "refines (enqueue k p) (a(k := onEnqueue (a k)))"
  using refines_enqueue_idle [OF assms] refines_enqueue_active [OF assms] by (cases "a k") blast+

text \<open>A worker that only changes its phase.\<close>

lemma refines_phase:
  assumes "refines p a" and "workers p g = Some w" and "a (wk_key w) = Active ph d"
  shows "refines (p\<lparr>workers := (workers p)(g \<mapsto> w\<lparr>wk_phase := ph'\<rparr>)\<rparr>) (a(wk_key w := Active ph' d))"
proof -
  have own: "owns p (wk_key w) (wk_state w) g (wk_phase w)" "dirty (heap p (wk_state w)) = d"
    using refines_worker [OF assms(1,2)] assms(3) by auto
  let ?p = "p\<lparr>workers := (workers p)(g \<mapsto> w\<lparr>wk_phase := ph'\<rparr>)\<rparr>"
  show ?thesis
  proof (rule refinesI [OF assms(1)])
    have "owns ?p (wk_key w) (wk_state w) g ph'" using own(1) unfolding owns_def by auto
    then show "keyRefines ?p (wk_key w) (Active ph' d)" using own(2) by (auto simp: keyRefines_def)
    show "workers ?p h = Some v \<longleftrightarrow> workers p h = Some v" if "wk_key v \<noteq> wk_key w" for h v
      using that assms(2) by auto
    show "workers ?p h = None" if "nextWorker ?p \<le> h" for h
      using refines_facts(3) [OF assms(1), of h] refines_facts(3) [OF assms(1), of g] assms(2) that by auto
  qed (use refines_facts [OF assms(1)] in auto)
qed

lemma refines_settle:
  assumes "refines p a" and "workers p g = Some w" and "a (wk_key w) = Active Finished d"
  shows "refines (runSettle g w p) (a(wk_key w := onSettle d))"
proof -
  have own: "owns p (wk_key w) (wk_state w) g (wk_phase w)" "dirty (heap p (wk_state w)) = d"
    using refines_worker [OF assms(1,2)] assms(3) by auto
  show ?thesis
  proof (cases d)
    case False
    then have p': "runSettle g w p = p\<lparr>states := (states p)(wk_key w := None), workers := (workers p)(g := None)\<rparr>"
      using own by (simp add: runSettle_def)
    show ?thesis
    proof (rule refinesI [OF assms(1)])
      show "keyRefines (runSettle g w p) (wk_key w) (onSettle d)"
        using own False unfolding p' keyRefines_def owns_def by auto
    qed (use refines_facts [OF assms(1)] assms(2) in \<open>auto simp: p' split: if_splits\<close>)
  next
    case True
    then have p': "runSettle g w p = p\<lparr>heap := (heap p)(wk_state w := (heap p (wk_state w))\<lparr>dirty := False\<rparr>),
        workers := (workers p)(g \<mapsto> w\<lparr>wk_phase := Ready\<rparr>)\<rparr>"
      using own by (simp add: runSettle_def)
    show ?thesis
    proof (rule refinesI [OF assms(1)])
      have "owns (runSettle g w p) (wk_key w) (wk_state w) g Ready" using own(1) unfolding p' owns_def by auto
      then show "keyRefines (runSettle g w p) (wk_key w) (onSettle d)" using True by (auto simp: keyRefines_def p')
      show "heap (runSettle g w p) s' = heap p s'" if "k' \<noteq> wk_key w" "states p k' = Some s'" for k' s'
        using cell_not_shared [OF assms(1) that(2) own(1) that(1)] by (simp add: p')
      show "workers (runSettle g w p) h = None" if "nextWorker (runSettle g w p) \<le> h" for h
        using refines_facts(3) [OF assms(1), of h] refines_facts(3) [OF assms(1), of g] assms(2) that by (auto simp: p')
    qed (use refines_facts [OF assms(1)] assms(2) in \<open>auto simp: p'\<close>)
  qed
qed

lemma refines_step:
  assumes "step p l p'" and "refines p a"
  shows "\<exists>a'. specStep a l a' \<and> refines p' a'"
  using assms
proof cases
  case (step_enqueue key)
  then show ?thesis using refines_enqueue [OF assms(2)] specStep.intros(1) by blast
next
  case (step_start g w)
  then obtain d where "a (wk_key w) = Active Ready d" using refines_worker [OF assms(2)] by metis
  then show ?thesis using step_start refines_phase [OF assms(2)] specStep.intros(2) by blast
next
  case (step_finish g w)
  then obtain d where "a (wk_key w) = Active Reconciling d" using refines_worker [OF assms(2)] by metis
  then show ?thesis using step_finish refines_phase [OF assms(2)] specStep.intros(3) by blast
next
  case (step_settle g w)
  then obtain d where "a (wk_key w) = Active Finished d" using refines_worker [OF assms(2)] by metis
  then show ?thesis using step_settle refines_settle [OF assms(2)] specStep.intros(4) by blast
qed

lemma reach_refines: "reach tr p \<Longrightarrow> \<exists>a. specReach tr a \<and> refines p a"
proof (induction rule: reach.induct)
  case reach_init
  show ?case using refines_init specReach.intros(1) by blast
next
  case (reach_step tr p l p')
  then show ?case using refines_step specReach.intros(2) by metis
qed

end
