(* ===== verification/Status_Writer.thy ===== *)
theory Status_Writer
  imports Route_Attachment
begin

text \<open>
  The status writers of \<open>controller/internal/status/writer.go\<close>: GatewayClass, Gateway and
  listener conditions, and the parent statuses of routes. Every writer reads the object afresh,
  computes its new status and stores it when it changed, and the whole is retried on a conflict;
  \<open>updateStatus\<close> is that shape. The interface \<open>status_stamp\<close> states what makes a writer
  settle, and the four writers of Gateway and GatewayClass status are its instances.
\<close>

section \<open>Read, compute, compare, store\<close>

text \<open>
  The code compares the status before and after with \<open>reflect.DeepEqual\<close>; only the status of
  the object changes, so comparing the objects is the same.
\<close>

definition updateStatus ::
  "'w lib \<Rightarrow> ('o, 'w) resource \<Rightarrow> nname \<Rightarrow> ('o \<Rightarrow> ('w, 'o) fio) \<Rightarrow> ('w, unit) fio" where
  "updateStatus L res key compute =
     RetryOnConflict L
       (bindE (Get res key) id (\<lambda>fresh.
        bindE (compute fresh) id (\<lambda>new.
        if new = fresh then ok () else StatusUpdate res new)))"

definition stampStatus ::
  "'w lib \<Rightarrow> ('o, 'w) resource \<Rightarrow> nname \<Rightarrow> (int \<Rightarrow> 'o \<Rightarrow> 'o) \<Rightarrow> ('w, unit) fio" where
  "stampStatus L res key stamp =
     updateStatus L res key (\<lambda>fresh. State_Monad.bind (Now L) (\<lambda>now. ok (stamp now fresh)))"

section \<open>GatewayClass\<close>

definition supportedFeatures :: "string list" where
  "supportedFeatures = sort [''GRPCRoute'', ''Gateway'', ''HTTPRoute'', ''ReferenceGrant'', ''TLSRoute'']"

definition gatewayClassStamp :: "int \<Rightarrow> gatewayClass \<Rightarrow> gatewayClass" where
  "gatewayClassStamp now fresh =
     fresh\<lparr>gc_Conditions := upsertCondition (gc_Conditions fresh)
             (mkCondition CondAccepted
               (ConditionTrue, ''Accepted'', ''Accepted by appnet-gateway.controller'')
               now (m_Generation (gc_Meta fresh))),
           gc_SupportedFeatures := supportedFeatures\<rparr>"

definition MarkGatewayClassAccepted :: "'w lib \<Rightarrow> 'w client \<Rightarrow> gatewayClass \<Rightarrow> ('w, unit) fio" where
  "MarkGatewayClassAccepted L c gc =
     stampStatus L (gatewayClasses c) ('''', m_Name (gc_Meta gc)) gatewayClassStamp"

section \<open>Accepted\<close>

text \<open>
  \<open>Programmed\<close> is reset to \<open>Unknown\<close> unless it is \<open>True\<close> for the current generation; the
  code does this for the Gateway and again for every listener.
\<close>

definition pendingProgrammed :: "condition list \<Rightarrow> int \<Rightarrow> int \<Rightarrow> condition list" where
  "pendingProgrammed conditions now generation =
     (let pending = upsertCondition conditions
            (mkCondition CondProgrammed
              (ConditionUnknown, ''Pending'', ''Waiting for agentgateway data plane'') now generation)
      in case conditionByType conditions CondProgrammed of
           None \<Rightarrow> pending
         | Some programmed \<Rightarrow>
             if c_Status programmed \<noteq> ConditionTrue \<or> c_ObservedGeneration programmed \<noteq> generation
             then pending else conditions)"

definition existingListeners :: "listenerStatus list \<Rightarrow> string \<Rightarrow> listenerStatus option" where
  "existingListeners lss = foldl (\<lambda>m l. m(ls_Name l \<mapsto> l)) Map.empty lss"

definition acceptedListenerConditions :: "condition list \<Rightarrow> int \<Rightarrow> int \<Rightarrow> condition list" where
  "acceptedListenerConditions conditions now generation =
     upsertCondition
       (pendingProgrammed
         (upsertCondition conditions
           (mkCondition CondAccepted (ConditionTrue, ''Accepted'', ''Accepted'') now generation))
         now generation)
       (mkCondition CondResolvedRefs
         (ConditionTrue, ''ResolvedRefs'', ''Resolved listener references'') now generation)"

definition acceptedListener ::
  "(string \<Rightarrow> listenerStatus option) \<Rightarrow> int \<Rightarrow> int \<Rightarrow> listener \<Rightarrow> listenerStatus" where
  "acceptedListener existing now generation l =
     (let ls = (case existing (l_Name l) of
                  None \<Rightarrow> \<lparr>ls_Name = l_Name l, ls_SupportedKinds = None, ls_Conditions = []\<rparr>
                | Some ls \<Rightarrow> ls)
      in ls\<lparr>ls_SupportedKinds := supportedKindsForProtocol (l_Protocol l),
            ls_Conditions := acceptedListenerConditions (ls_Conditions ls) now generation\<rparr>)"

definition acceptedStamp :: "int \<Rightarrow> gateway \<Rightarrow> gateway" where
  "acceptedStamp now fresh =
     (let st = gw_Status fresh; generation = gw_Generation fresh in
      fresh\<lparr>gw_Status := st\<lparr>
        gs_Conditions := pendingProgrammed
          (upsertCondition (gs_Conditions st)
            (mkCondition CondAccepted
              (ConditionTrue, ''Accepted'', ''Accepted by appnet-gateway.controller'') now generation))
          now generation,
        gs_Listeners := Some (map
          (acceptedListener (existingListeners (elems (gs_Listeners st))) now generation)
          (gw_Listeners fresh))\<rparr>\<rparr>)"

definition MarkAccepted :: "'w lib \<Rightarrow> 'w client \<Rightarrow> gateway \<Rightarrow> ('w, unit) fio" where
  "MarkAccepted L c gw = stampStatus L (gateways c) (keyOf (gw_Meta gw)) acceptedStamp"

section \<open>Programmed\<close>

definition programmedListener :: "int \<Rightarrow> int \<Rightarrow> listenerStatus \<Rightarrow> listenerStatus" where
  "programmedListener now generation ls =
     ls\<lparr>ls_Conditions := upsertCondition (ls_Conditions ls)
          (mkCondition CondProgrammed (ConditionTrue, ''Programmed'', ''Programmed'') now generation)\<rparr>"

definition programmedStamp :: "gatewayStatusAddress list \<Rightarrow> int \<Rightarrow> gateway \<Rightarrow> gateway" where
  "programmedStamp addresses now fresh =
     (let st = gw_Status fresh; generation = gw_Generation fresh in
      fresh\<lparr>gw_Status := st\<lparr>
        gs_Addresses := (if addresses \<noteq> [] then addresses else gs_Addresses st),
        gs_Conditions := upsertCondition (gs_Conditions st)
          (mkCondition CondProgrammed
            (ConditionTrue, ''Programmed'', ''agentgateway data plane ready'') now generation),
        gs_Listeners := map_option (map (programmedListener now generation)) (gs_Listeners st)\<rparr>\<rparr>)"

definition MarkProgrammed ::
  "'w lib \<Rightarrow> 'w client \<Rightarrow> gateway \<Rightarrow> gatewayStatusAddress list \<Rightarrow> ('w, unit) fio" where
  "MarkProgrammed L c gw addresses =
     stampStatus L (gateways c) (keyOf (gw_Meta gw)) (programmedStamp addresses)"

section \<open>Listener references\<close>

text \<open>Only the first listener of the name is updated: the loop breaks.\<close>

fun updateFirstListener ::
  "string \<Rightarrow> (listenerStatus \<Rightarrow> listenerStatus) \<Rightarrow> listenerStatus list \<Rightarrow> listenerStatus list" where
  "updateFirstListener name f [] = []"
| "updateFirstListener name f (ls # lss) =
     (if ls_Name ls \<noteq> name then ls # updateFirstListener name f lss else f ls # lss)"

definition resolvedRefsStamp :: "string \<Rightarrow> verdict \<Rightarrow> int \<Rightarrow> gateway \<Rightarrow> gateway" where
  "resolvedRefsStamp name v now fresh =
     (let st = gw_Status fresh in
      fresh\<lparr>gw_Status := st\<lparr>gs_Listeners :=
        map_option (updateFirstListener name (\<lambda>ls. ls\<lparr>ls_Conditions :=
          upsertCondition (ls_Conditions ls) (mkCondition CondResolvedRefs v now (gw_Generation fresh))\<rparr>))
        (gs_Listeners st)\<rparr>\<rparr>)"

definition MarkListenerResolvedRefs ::
  "'w lib \<Rightarrow> 'w client \<Rightarrow> gateway \<Rightarrow> string \<Rightarrow> conditionStatus \<Rightarrow> string \<Rightarrow> string \<Rightarrow> ('w, unit) fio" where
  "MarkListenerResolvedRefs L c gw name status reason message =
     stampStatus L (gateways c) (keyOf (gw_Meta gw)) (resolvedRefsStamp name (status, reason, message))"

section \<open>Routes\<close>

definition routeStamp ::
  "'w lib \<Rightarrow> 'w client \<Rightarrow> gateway \<Rightarrow> routeKind \<Rightarrow> (routeRule list \<Rightarrow> backendObjectReference list) \<Rightarrow>
   route \<Rightarrow> ('w, route) fio" where
  "routeStamp L c gw kind backendRefs fresh =
     bindE (routeParentStatuses L c (r_ParentRefs fresh) (m_Namespace (r_Meta fresh))
              (m_Generation (r_Meta fresh)) (r_Hostnames fresh) gw kind (backendRefs (r_Rules fresh))) id
       (\<lambda>parents. ok (fresh\<lparr>r_Parents := mergeRouteParents (r_Parents fresh) gw parents\<rparr>))"

definition markRoute ::
  "'w lib \<Rightarrow> 'w client \<Rightarrow> gateway \<Rightarrow> routeKind \<Rightarrow> (routeRule list \<Rightarrow> backendObjectReference list) \<Rightarrow>
   (route, 'w) resource \<Rightarrow> route \<Rightarrow> ('w, unit) fio" where
  "markRoute L c gw kind backendRefs res r =
     updateStatus L res (keyOf (r_Meta r)) (routeStamp L c gw kind backendRefs)"

definition markHTTPRoutesAccepted :: "'w lib \<Rightarrow> 'w client \<Rightarrow> gateway \<Rightarrow> ('w, unit) fio" where
  "markHTTPRoutesAccepted L c gw =
     bindE (List (httpRoutes c) None) id
       (forE (markRoute L c gw routeKindHTTP httpBackendObjectRefs (httpRoutes c)))"

definition markGRPCRoutesAccepted :: "'w lib \<Rightarrow> 'w client \<Rightarrow> gateway \<Rightarrow> ('w, unit) fio" where
  "markGRPCRoutesAccepted L c gw =
     bindE (List (grpcRoutes c) None) id
       (forE (markRoute L c gw routeKindGRPC grpcBackendObjectRefs (grpcRoutes c)))"

definition markTLSRoutesAccepted :: "'w lib \<Rightarrow> 'w client \<Rightarrow> gateway \<Rightarrow> ('w, unit) fio" where
  "markTLSRoutesAccepted L c gw =
     bindE (List (tlsRoutes c) None) id
       (forE (markRoute L c gw routeKindTLS tlsBackendObjectRefs (tlsRoutes c)))"

definition MarkRoutesAccepted :: "'w lib \<Rightarrow> 'w client \<Rightarrow> gateway \<Rightarrow> ('w, unit) fio" where
  "MarkRoutesAccepted L c gw =
     bindE (markHTTPRoutesAccepted L c gw) id (\<lambda>_.
     bindE (markGRPCRoutesAccepted L c gw) id (\<lambda>_.
     markTLSRoutesAccepted L c gw))"

section \<open>Writers that settle\<close>

text \<open>
  \<open>stamp t x\<close> is the object as the writer stores it at time \<open>t\<close>. It leaves everything but the
  status alone (\<open>spec\<close>), and stamping again at any later time changes nothing.
\<close>

locale status_stamp =
  fixes stamp :: "int \<Rightarrow> 'o \<Rightarrow> 'o" and spec :: "'o \<Rightarrow> 'p"
  assumes stamp_spec: "spec (stamp t x) = spec x"
    and stamp_again: "stamp t' (stamp t x) = stamp t x"
begin

text \<open>On a settled object the writer reads and returns; it stores nothing.\<close>

lemma settled:
  assumes "retry_law (RetryOnConflict L)"
    and "run_state (Get res key) w = (Inr (stamp t x), w1)" and "run_state (Now L) w1 = (t', w2)"
  shows "run_state (stampStatus L res key stamp) w = (Inr (), w2)"
  unfolding stampStatus_def updateStatus_def
  by (rule retry_done [OF assms(1)]) (simp add: assms(2,3) stamp_again)

text \<open>
  A writer that returns no error has stored the stamped object, or found the object settled.
\<close>

lemma written:
  assumes "retry_law (RetryOnConflict L)"
    and "run_state (stampStatus L res key stamp) w = (Inr (), w')"
  shows "\<exists>x t w1 w2 w3. run_state (Get res key) w1 = (Inr x, w2) \<and> run_state (Now L) w2 = (t, w3) \<and>
     (if stamp t x = x then w' = w3 else run_state (StatusUpdate res (stamp t x)) w3 = (Inr (), w'))"
proof -
  let ?f = "bindE (Get res key) id (\<lambda>fresh.
      bindE (State_Monad.bind (Now L) (\<lambda>now. ok (stamp now fresh))) id
        (\<lambda>new. if new = fresh then ok () else StatusUpdate res new))"
  let ?stored = "\<lambda>w'. \<exists>x t w1 w2 w3. run_state (Get res key) w1 = (Inr x, w2) \<and>
     run_state (Now L) w2 = (t, w3) \<and>
     (if stamp t x = x then w' = w3 else run_state (StatusUpdate res (stamp t x)) w3 = (Inr (), w'))"
  have "valid (\<lambda>_. True) ?f (\<lambda>r w'. r = Inr () \<longrightarrow> ?stored w')"
  proof (rule validI, rule impI)
    fix w r w'
    assume run: "run_state ?f w = (r, w')" and r: "r = Inr ()"
    then obtain x w2 where get: "run_state (Get res key) w = (Inr x, w2)"
      by (cases "run_state (Get res key) w"; cases "fst (run_state (Get res key) w)") auto
    obtain t w3 where now: "run_state (Now L) w2 = (t, w3)" by fastforce
    from run r get now
    have "if stamp t x = x then w' = w3 else run_state (StatusUpdate res (stamp t x)) w3 = (Inr (), w')"
      by (simp split: if_splits)
    with get now show "?stored w'" by blast
  qed
  from valid_retry [OF assms(1) this] have
    "valid (\<lambda>_. True) (stampStatus L res key stamp) (\<lambda>r w'. r = Inr () \<longrightarrow> ?stored w')"
    unfolding stampStatus_def updateStatus_def by simp
  from validD [OF this _ assms(2)] show ?thesis by simp
qed

end

section \<open>The conditions the writers leave\<close>

lemma mkCondition_sel [simp]:
  "c_Type (mkCondition ty v t g) = ty"
  "c_Status (mkCondition ty v t g) = fst v"
  "c_Reason (mkCondition ty v t g) = fst (snd v)"
  "c_Message (mkCondition ty v t g) = snd (snd v)"
  "c_ObservedGeneration (mkCondition ty v t g) = g"
  "c_LastTransitionTime (mkCondition ty v t g) = t"
  by (simp_all add: mkCondition_def split: prod.splits)

lemma agrees_mkCondition [simp]: "agrees (mkCondition ty v t g) (mkCondition ty v t' g)"
  by (simp add: agrees_iff)

lemma agrees_merge_mkCondition [simp]:
  "agrees (mergeCondition old (mkCondition ty v t g)) (mkCondition ty v t' g)"
  using agrees_merge [of old "mkCondition ty v t g"] by (simp add: agrees_iff)

text \<open>A condition of the given type reports \<open>v\<close> for generation \<open>g\<close>.\<close>

definition reports :: "condition list \<Rightarrow> string \<Rightarrow> verdict \<Rightarrow> int \<Rightarrow> bool" where
  "reports cs ty v g \<longleftrightarrow> (\<exists>c t. conditionByType cs ty = Some c \<and> agrees c (mkCondition ty v t g))"

lemma reports_upsert [simp]:
  "reports (upsertCondition cs (mkCondition ty v t g)) ty' v' g' \<longleftrightarrow>
     (if ty' = ty then v' = v \<and> g' = g else reports cs ty' v' g')"
proof -
  have "agrees (mergeCondition old (mkCondition ty v t g)) (mkCondition ty v' t' g') \<longleftrightarrow> v' = v \<and> g' = g"
    for old t' using agrees_merge [of old "mkCondition ty v t g"]
    by (cases v; cases v') (auto simp: agrees_iff)
  then show ?thesis by (auto simp: reports_def conditionByType_upsert)
qed

lemma reports_stable: "reports cs ty v g \<Longrightarrow> upsertCondition cs (mkCondition ty v t g) = cs"
  unfolding reports_def by (auto intro!: upsertCondition_stable simp: agrees_iff)

abbreviation pendingVerdict :: verdict where
  "pendingVerdict \<equiv> (ConditionUnknown, ''Pending'', ''Waiting for agentgateway data plane'')"

text \<open>\<open>Programmed\<close> is \<open>True\<close> for generation \<open>g\<close>.\<close>

definition isProgrammed :: "condition list \<Rightarrow> int \<Rightarrow> bool" where
  "isProgrammed cs g \<longleftrightarrow> (\<exists>c. conditionByType cs CondProgrammed = Some c \<and>
     c_Status c = ConditionTrue \<and> c_ObservedGeneration c = g)"

lemma pendingProgrammed_eq:
  "pendingProgrammed cs t g =
     (if isProgrammed cs g then cs else upsertCondition cs (mkCondition CondProgrammed pendingVerdict t g))"
  by (auto simp: pendingProgrammed_def isProgrammed_def Let_def split: option.splits)

lemma isProgrammed_upsert [simp]:
  "isProgrammed (upsertCondition cs (mkCondition ty v t g)) g' \<longleftrightarrow>
     (if ty = CondProgrammed then fst v = ConditionTrue \<and> g = g' else isProgrammed cs g')"
  using agrees_merge [of "conditionByType cs CondProgrammed" "mkCondition CondProgrammed v t g"]
  by (auto simp: isProgrammed_def conditionByType_upsert agrees_iff)

lemma isProgrammed_pending [simp]: "isProgrammed (pendingProgrammed cs t g) g = isProgrammed cs g"
  by (simp add: pendingProgrammed_eq)

lemma reports_pending:
  "reports (pendingProgrammed cs t g) ty v g' \<longleftrightarrow>
     (if ty = CondProgrammed \<and> \<not> isProgrammed cs g then v = pendingVerdict \<and> g' = g
      else reports cs ty v g')"
  by (auto simp: pendingProgrammed_eq)

lemma pendingProgrammed_stable:
  "isProgrammed cs g \<or> reports cs CondProgrammed pendingVerdict g \<Longrightarrow> pendingProgrammed cs t g = cs"
  by (auto simp: pendingProgrammed_eq reports_stable)

lemma pending_settled:
  "isProgrammed (pendingProgrammed cs t g) g \<or> reports (pendingProgrammed cs t g) CondProgrammed pendingVerdict g"
  by (simp add: reports_pending)

lemma acceptedListenerConditions_again:
  "acceptedListenerConditions (acceptedListenerConditions cs t g) t' g = acceptedListenerConditions cs t g"
proof -
  let ?D = "acceptedListenerConditions cs t g"
  have acc: "reports ?D CondAccepted (ConditionTrue, ''Accepted'', ''Accepted'') g"
    and res: "reports ?D CondResolvedRefs (ConditionTrue, ''ResolvedRefs'', ''Resolved listener references'') g"
    and prog: "isProgrammed ?D g \<or> reports ?D CondProgrammed pendingVerdict g"
    by (simp_all add: acceptedListenerConditions_def reports_pending)
  show ?thesis
    unfolding acceptedListenerConditions_def [of ?D]
    by (simp add: reports_stable [OF acc] pendingProgrammed_stable [OF prog] reports_stable [OF res])
qed

section \<open>The listeners a Gateway status mirrors\<close>

lemma existingListeners_map_of: "existingListeners lss = map_of (rev (map (\<lambda>l. (ls_Name l, l)) lss))"
proof -
  have "foldl (\<lambda>m l. m(ls_Name l \<mapsto> l)) m0 lss = m0 ++ map_of (rev (map (\<lambda>l. (ls_Name l, l)) lss))" for m0
    by (induction lss arbitrary: m0) (auto simp: map_add_def fun_eq_iff split: option.splits)
  then show ?thesis by (simp add: existingListeners_def)
qed

lemma existingListeners_Some:
  "existingListeners lss n = Some ls \<Longrightarrow> ls \<in> set lss \<and> ls_Name ls = n"
  by (auto simp: existingListeners_map_of dest: map_of_SomeD)

lemma existingListeners_None: "existingListeners lss n = None \<longleftrightarrow> n \<notin> ls_Name ` set lss"
  by (simp add: existingListeners_map_of map_of_eq_None_iff image_image)

definition wf_existing :: "(string \<Rightarrow> listenerStatus option) \<Rightarrow> bool" where
  "wf_existing ex \<longleftrightarrow> (\<forall>n ls. ex n = Some ls \<longrightarrow> ls_Name ls = n)"

lemma wf_existingListeners: "wf_existing (existingListeners lss)"
  by (auto simp: wf_existing_def dest: existingListeners_Some)

lemma acceptedListener_name: "wf_existing ex \<Longrightarrow> ls_Name (acceptedListener ex t g l) = l_Name l"
  by (auto simp: acceptedListener_def wf_existing_def Let_def split: option.splits)

lemma acceptedListener_conditions:
  "ls_Conditions (acceptedListener ex t g l) =
     acceptedListenerConditions (case ex (l_Name l) of None \<Rightarrow> [] | Some ls \<Rightarrow> ls_Conditions ls) t g"
  by (simp add: acceptedListener_def Let_def split: option.splits)

lemma acceptedListener_again:
  assumes "wf_existing ex" and "l \<in> set ls"
  shows "acceptedListener (existingListeners (map (acceptedListener ex t g) ls)) t' g l =
     acceptedListener ex t g l"
proof -
  let ?new = "existingListeners (map (acceptedListener ex t g) ls)"
  have "l_Name l \<in> ls_Name ` set (map (acceptedListener ex t g) ls)"
    using assms(2) by (simp add: image_image acceptedListener_name [OF assms(1)])
  then obtain s where s: "?new (l_Name l) = Some s"
    by (metis existingListeners_None not_None_eq)
  then obtain l' where l': "s = acceptedListener ex t g l'" and n: "l_Name l' = l_Name l"
    using existingListeners_Some [OF s] acceptedListener_name [OF assms(1)] by auto
  have "ls_Conditions s = ls_Conditions (acceptedListener ex t g l)"
    by (simp add: l' n acceptedListener_conditions)
  then show ?thesis
    using s l' n acceptedListener_name [OF assms(1), of t g]
    by (intro listenerStatus.equality)
      (simp_all add: acceptedListener_def [of ?new] Let_def acceptedListenerConditions_again
        acceptedListener_conditions [of ex], simp_all add: acceptedListener_def Let_def)
qed

section \<open>The writers are instances\<close>

definition gatewaySpec :: "gateway \<Rightarrow> objectMeta \<times> string \<times> listener list \<times> gatewayTLSConfig option" where
  "gatewaySpec g = (gw_Meta g, gw_GatewayClassName g, gw_Listeners g, gw_TLS g)"

definition gatewayClassSpec :: "gatewayClass \<Rightarrow> objectMeta \<times> string" where
  "gatewayClassSpec gc = (gc_Meta gc, gc_ControllerName gc)"

lemma acceptedStamp_again: "acceptedStamp t' (acceptedStamp t g) = acceptedStamp t g"
proof -
  let ?st = "gw_Status (acceptedStamp t g)" and ?g = "gw_Generation g"
  let ?A = "(ConditionTrue, ''Accepted'', ''Accepted by appnet-gateway.controller'')"
  have gen: "gw_Meta (acceptedStamp t g) = gw_Meta g" "gw_Listeners (acceptedStamp t g) = gw_Listeners g"
    by (simp_all add: acceptedStamp_def Let_def)
  have acc: "reports (gs_Conditions ?st) CondAccepted ?A ?g"
    and prog: "isProgrammed (gs_Conditions ?st) ?g \<or> reports (gs_Conditions ?st) CondProgrammed pendingVerdict ?g"
    by (simp_all add: acceptedStamp_def Let_def reports_pending)
  have ls: "map (acceptedListener (existingListeners (elems (gs_Listeners ?st))) t' ?g) (gw_Listeners g) =
      elems (gs_Listeners ?st)"
    using acceptedListener_again [OF wf_existingListeners]
    by (simp add: acceptedStamp_def Let_def)
  show ?thesis
    unfolding acceptedStamp_def [of t' "acceptedStamp t g"] Let_def gen
      reports_stable [OF acc] pendingProgrammed_stable [OF prog] ls
    by (simp add: acceptedStamp_def Let_def)
qed

lemma programmedListener_again:
  "programmedListener t' g (programmedListener t g ls) = programmedListener t g ls"
  by (simp add: programmedListener_def reports_stable)

lemma programmedStamp_again: "programmedStamp as t' (programmedStamp as t g) = programmedStamp as t g"
  by (simp add: programmedStamp_def Let_def reports_stable option.map_comp comp_def
      programmedListener_again)

lemma updateFirstListener_again:
  assumes "\<And>ls. ls_Name (f ls) = ls_Name ls" and "\<And>ls. f' (f ls) = f ls"
  shows "updateFirstListener n f' (updateFirstListener n f lss) = updateFirstListener n f lss"
  by (induction lss) (auto simp: assms)

lemma resolvedRefsStamp_again: "resolvedRefsStamp n v t' (resolvedRefsStamp n v t g) = resolvedRefsStamp n v t g"
  by (simp add: resolvedRefsStamp_def Let_def option.map_comp comp_def updateFirstListener_again
      reports_stable)

interpretation gcs: status_stamp gatewayClassStamp gatewayClassSpec
  by unfold_locales (simp_all add: gatewayClassStamp_def gatewayClassSpec_def reports_stable)

interpretation acc: status_stamp acceptedStamp gatewaySpec
  by unfold_locales (simp add: acceptedStamp_def gatewaySpec_def Let_def, rule acceptedStamp_again)

interpretation prg: status_stamp "programmedStamp addresses" gatewaySpec for addresses
  by unfold_locales (simp add: programmedStamp_def gatewaySpec_def Let_def, rule programmedStamp_again)

interpretation rfs: status_stamp "resolvedRefsStamp name v" gatewaySpec for name v
  by unfold_locales (simp add: resolvedRefsStamp_def gatewaySpec_def Let_def, rule resolvedRefsStamp_again)

end
