(* ===== verification/Go_Sha256.thy ===== *)
theory Go_Sha256
  imports Go_Strings "HOL-Library.Word"
begin

unbundle bit_operations_syntax

text \<open>
  \<open>crypto/sha256.Sum256\<close>: the SHA-256 digest of FIPS 180-4 on bytes given as numbers below
  256. The renderer uses it for the suffix of names that are too long and for the annotation
  that makes a change of the certificate set roll the Istiod pods.
\<close>

type_synonym u32 = "32 word"

section \<open>The constants\<close>

text \<open>
  The standard takes its constants from roots of primes: the first 32 bits after the binary point
  of the cube roots of the first 64 primes (the round constants) and of the square roots of the
  first 8 (the initial state). They are computed here from that description, with an integer
  root that decides one bit of the result at a time, the highest first.
\<close>

fun rootBits :: "nat \<Rightarrow> nat \<Rightarrow> nat \<Rightarrow> nat \<Rightarrow> nat" where
  "rootBits k n 0 r = r"
| "rootBits k n (Suc b) r = rootBits k n b (if (r + 2 ^ b) ^ k \<le> n then r + 2 ^ b else r)"

lemma rootBits_bounds:
  "r ^ k \<le> n \<Longrightarrow> n < (r + 2 ^ b) ^ k \<Longrightarrow>
   rootBits k n b r ^ k \<le> n \<and> n < (rootBits k n b r + 1) ^ k"
proof (induction b arbitrary: r)
  case 0
  then show ?case by simp
next
  case (Suc b)
  let ?r = "if (r + 2 ^ b) ^ k \<le> n then r + 2 ^ b else r"
  have "?r ^ k \<le> n" using Suc.prems(1) by simp
  moreover have "n < (?r + 2 ^ b) ^ k" using Suc.prems(2) by (simp add: mult_2 add.assoc)
  ultimately show ?case using Suc.IH [of ?r] by simp
qed

text \<open>The fractional bits of the \<open>k\<close>-th root of \<open>p\<close>, for \<open>p\<close> below \<open>16 ^ k\<close>.\<close>

definition rootFraction :: "nat \<Rightarrow> nat \<Rightarrow> u32" where
  "rootFraction k p = word_of_nat (rootBits k (p * 2 ^ (32 * k)) 36 0)"

lemma rootFraction_floor:
  assumes "0 < k" and "p < 16 ^ k"
  shows "\<exists>r. rootFraction k p = word_of_nat r \<and> r ^ k \<le> p * 2 ^ (32 * k) \<and> p * 2 ^ (32 * k) < (r + 1) ^ k"
proof -
  have "p * 2 ^ (32 * k) < 16 ^ k * 2 ^ (32 * k)" using assms(2) by simp
  also have "(16 :: nat) ^ k * 2 ^ (32 * k) = (16 * 2 ^ 32) ^ k" by (simp only: power_mult power_mult_distrib)
  also have "\<dots> = (0 + 2 ^ 36) ^ k" by simp
  finally have "p * 2 ^ (32 * k) < (0 + 2 ^ 36) ^ k" .
  moreover have "(0 :: nat) ^ k \<le> p * 2 ^ (32 * k)" using assms(1) by (simp add: zero_power)
  ultimately show ?thesis
    using rootBits_bounds [of 0 k "p * 2 ^ (32 * k)" 36] unfolding rootFraction_def by blast
qed

definition firstPrimes :: "nat list" where
  "firstPrimes = filter (\<lambda>n. list_all (\<lambda>d. n mod d \<noteq> 0) [2..<n]) [2..<312]"

definition sha256_K :: "u32 list" where
  "sha256_K = map (rootFraction 3) firstPrimes"

definition sha256_H0 :: "u32 list" where
  "sha256_H0 = map (rootFraction 2) (take 8 firstPrimes)"

section \<open>The compression function\<close>

definition rotr :: "nat \<Rightarrow> u32 \<Rightarrow> u32" where
  "rotr n x = drop_bit n x OR push_bit (32 - n) x"

definition sha256_ch :: "u32 \<Rightarrow> u32 \<Rightarrow> u32 \<Rightarrow> u32" where
  "sha256_ch x y z = (x AND y) XOR (NOT x AND z)"

definition sha256_maj :: "u32 \<Rightarrow> u32 \<Rightarrow> u32 \<Rightarrow> u32" where
  "sha256_maj x y z = (x AND y) XOR (x AND z) XOR (y AND z)"

definition bigSigma0 :: "u32 \<Rightarrow> u32" where
  "bigSigma0 x = rotr 2 x XOR rotr 13 x XOR rotr 22 x"

definition bigSigma1 :: "u32 \<Rightarrow> u32" where
  "bigSigma1 x = rotr 6 x XOR rotr 11 x XOR rotr 25 x"

definition smallSigma0 :: "u32 \<Rightarrow> u32" where
  "smallSigma0 x = rotr 7 x XOR rotr 18 x XOR drop_bit 3 x"

definition smallSigma1 :: "u32 \<Rightarrow> u32" where
  "smallSigma1 x = rotr 17 x XOR rotr 19 x XOR drop_bit 10 x"

text \<open>Padding: a one bit, zeros, and the bit length as a 64-bit big-endian number.\<close>

definition sha256_pad :: "nat list \<Rightarrow> nat list" where
  "sha256_pad bs =
     (let l = length bs; z = (119 - l mod 64) mod 64
      in bs @ 128 # replicate z 0 @ map (\<lambda>i. (8 * l) div 2 ^ (8 * (7 - i)) mod 256) [0..<8])"

fun toWords :: "nat list \<Rightarrow> u32 list" where
  "toWords (a # b # c # d # bs) =
     word_of_nat (a * 16777216 + b * 65536 + c * 256 + d) # toWords bs"
| "toWords bs = []"

text \<open>The message schedule, newest word first.\<close>

fun sha256_schedule :: "nat \<Rightarrow> u32 list \<Rightarrow> u32 list" where
  "sha256_schedule 0 ws = ws"
| "sha256_schedule (Suc n) ws =
     sha256_schedule n
       ((smallSigma1 (ws ! 1) + ws ! 6 + smallSigma0 (ws ! 14) + ws ! 15) # ws)"

fun sha256_round :: "u32 list \<Rightarrow> u32 \<times> u32 \<Rightarrow> u32 list" where
  "sha256_round [a, b, c, d, e, f, g, h] (k, w) =
     (let t1 = h + bigSigma1 e + sha256_ch e f g + k + w;
          t2 = bigSigma0 a + sha256_maj a b c
      in [t1 + t2, a, b, c, d + t1, e, f, g])"
| "sha256_round st kw = st"

definition sha256_block :: "u32 list \<Rightarrow> u32 list \<Rightarrow> u32 list" where
  "sha256_block h ws =
     map2 (+) h (foldl sha256_round h (zip sha256_K (rev (sha256_schedule 48 (rev ws)))))"

function sha256_blocks :: "u32 list \<Rightarrow> u32 list \<Rightarrow> u32 list" where
  "sha256_blocks h ws =
     (if ws = [] then h else sha256_blocks (sha256_block h (take 16 ws)) (drop 16 ws))"
  by pat_completeness auto
termination
  by (relation "measure (\<lambda>(h, ws). length ws)") auto

declare sha256_blocks.simps [simp del]

definition wordBytes :: "u32 \<Rightarrow> nat list" where
  "wordBytes w = [unat w div 16777216 mod 256, unat w div 65536 mod 256,
                  unat w div 256 mod 256, unat w mod 256]"

definition sha256 :: "string \<Rightarrow> nat list" where
  "sha256 s = concat (map wordBytes
     (sha256_blocks sha256_H0 (toWords (sha256_pad (map of_char s)))))"

section \<open>The digest has 32 bytes\<close>

lemma length_sha256_round: "length h = 8 \<Longrightarrow> length (sha256_round h kw) = 8"
  by (cases "(h, kw)" rule: sha256_round.cases) (auto simp: Let_def)

lemma length_sha256_rounds: "length h = 8 \<Longrightarrow> length (foldl sha256_round h kws) = 8"
  by (induction kws arbitrary: h) (auto simp: length_sha256_round)

lemma length_sha256_blocks: "length h = 8 \<Longrightarrow> length (sha256_blocks h ws) = 8"
proof (induction h ws rule: sha256_blocks.induct)
  case (1 h ws)
  show ?case
  proof (cases "ws = []")
    case True
    then show ?thesis using "1.prems" by (simp add: sha256_blocks.simps)
  next
    case False
    have "length (sha256_block h (take 16 ws)) = 8"
      using "1.prems" by (simp add: sha256_block_def length_sha256_rounds)
    then show ?thesis using "1.IH" False by (subst sha256_blocks.simps) simp
  qed
qed

lemma length_concat_wordBytes: "length (concat (map wordBytes ws)) = 4 * length ws"
  by (induction ws) (auto simp: wordBytes_def)

lemma length_sha256_H0: "length sha256_H0 = 8"
proof -
  let ?prime = "\<lambda>n. list_all (\<lambda>d. n mod d \<noteq> 0) [2..<n]"
  have "[2..<312] = [2..<20] @ [20..<312 :: nat]"
    using upt_add_eq_append [of 2 20 292] by (simp del: upt_rec_numeral)
  then have "length firstPrimes \<ge> length (filter ?prime [2..<20])"
    unfolding firstPrimes_def by (simp del: upt_rec_numeral)
  also have "length (filter ?prime [2..<20]) = 8" by (simp add: upt_rec)
  finally show ?thesis by (simp add: sha256_H0_def)
qed

lemma length_sha256 [simp]: "length (sha256 s) = 32"
  by (simp add: sha256_def length_concat_wordBytes length_sha256_blocks length_sha256_H0)

lemma sha256_byte: "b \<in> set (sha256 s) \<Longrightarrow> b < 256"
  by (auto simp: sha256_def wordBytes_def)

end
