(* ===== verification/Render.thy ===== *)
theory Render
  imports Kube_Types Go_Sha256
begin

text \<open>
  The renderer, \<open>controller/internal/provisioner/render.go\<close>: names, labels and annotations, the
  Istiod Deployment and Service of a tenant and the agentgateway ServiceAccount, Deployment and
  Service of a Gateway. Everything here is pure: parameters in, Kubernetes objects out.
\<close>

section \<open>Constants\<close>

definition TLSMountRoot :: string where "TLSMountRoot = ''/var/run/tls''"
definition ManagedByLabel :: string where "ManagedByLabel = ''app.kubernetes.io/managed-by''"
definition ManagedByValue :: string where "ManagedByValue = ''appnet-gateway-controller''"
definition TenantLabel :: string where "TenantLabel = ''appnet.azure.com/tenant''"
definition GatewayLabel :: string where "GatewayLabel = ''appnet.azure.com/gateway''"
definition GatewayNamespaceLabel :: string where
  "GatewayNamespaceLabel = ''appnet.azure.com/gateway-namespace''"
definition GatewayNameAnnotation :: string where
  "GatewayNameAnnotation = ''appnet.azure.com/source-gateway-name''"
definition GatewayNSAnnotation :: string where
  "GatewayNSAnnotation = ''appnet.azure.com/source-gateway-namespace''"
definition MemberTokenExpirationAnnotation :: string where
  "MemberTokenExpirationAnnotation = ''appnet.azure.com/member-token-expiration''"
definition IstiodServicePort :: int where "IstiodServicePort = 15010"
definition IstiodSecureXDSPort :: int where "IstiodSecureXDSPort = 15012"
definition AgentGatewayListen :: int where "AgentGatewayListen = 80"
definition AgentGatewayServiceAccount :: string where "AgentGatewayServiceAccount = ''agentgateway''"
definition IstiodKeyVaultServiceAccount :: string where
  "IstiodKeyVaultServiceAccount = ''istiod-keyvault''"
definition PlatformAKS :: string where "PlatformAKS = ''aks''"
definition AzureInternalLoadBalancerAnnotation :: string where
  "AzureInternalLoadBalancerAnnotation = ''service.beta.kubernetes.io/azure-load-balancer-internal''"
definition IstiodImage :: string where
  "IstiodImage = ''akstraffic.azurecr.io/mgdgtw/istiod:agentgw''"
definition AgentGatewayImage :: string where
  "AgentGatewayImage = ''akstraffic.azurecr.io/mgdgtw/agentgateway:dev''"

lemmas render_consts =
  ManagedByLabel_def ManagedByValue_def TenantLabel_def GatewayLabel_def GatewayNamespaceLabel_def
  GatewayNameAnnotation_def GatewayNSAnnotation_def MemberTokenExpirationAnnotation_def

lemma label_keys_distinct [simp]:
  "ManagedByLabel \<noteq> TenantLabel" "ManagedByLabel \<noteq> GatewayLabel" "ManagedByLabel \<noteq> GatewayNamespaceLabel"
  "TenantLabel \<noteq> GatewayLabel" "TenantLabel \<noteq> GatewayNamespaceLabel" "GatewayLabel \<noteq> GatewayNamespaceLabel"
  "GatewayNameAnnotation \<noteq> GatewayNSAnnotation" "GatewayNSAnnotation \<noteq> GatewayNameAnnotation"
  "MemberTokenExpirationAnnotation \<noteq> GatewayNSAnnotation"
  "MemberTokenExpirationAnnotation \<noteq> GatewayNameAnnotation"
  "GatewayNSAnnotation \<noteq> MemberTokenExpirationAnnotation"
  "GatewayNameAnnotation \<noteq> MemberTokenExpirationAnnotation"
  "ManagedByValue \<noteq> []"
  by (simp_all add: render_consts)

section \<open>Names\<close>

text \<open>The loop of \<open>sortedUniq\<close>, with the set of strings seen so far.\<close>

fun uniqLoop :: "string list \<Rightarrow> string set \<Rightarrow> string list" where
  "uniqLoop [] seen = []"
| "uniqLoop (s # ss) seen =
     (if s = '''' then uniqLoop ss seen
      else if s \<in> seen then uniqLoop ss seen
      else s # uniqLoop ss (insert s seen))"

definition sortedUniq :: "string list \<Rightarrow> string list" where
  "sortedUniq strs = (if strs = [] then [] else sort (uniqLoop strs {}))"

definition tlsCertHash :: "string list \<Rightarrow> string" where
  "tlsCertHash names =
     (if names = [] then ''none''
      else hexEncode (take 8 (sha256 (Join (sortedUniq names) '',''))))"

definition truncateWithHash :: "string \<Rightarrow> nat \<Rightarrow> string" where
  "truncateWithHash raw maxLen =
     (if length raw \<le> maxLen then raw
      else (let suffix = hexEncode (take 5 (sha256 raw));
                keep = maxLen - length suffix - 1
            in TrimRight (take keep raw) ''-_.'' @ ''-'' @ suffix))"

definition dnsChar :: "nat \<Rightarrow> char" where
  "dnsChar r = (if (97 \<le> r \<and> r \<le> 122) \<or> (48 \<le> r \<and> r \<le> 57) \<or> r = 45 then char_of r else CHR ''-'')"

definition safeDNSLabel :: "string list \<Rightarrow> string" where
  "safeDNSLabel parts =
     (let raw = Join parts ''-'';
          name = Trim (map dnsChar (lowerRunes raw)) ''-''
      in truncateWithHash (if name = '''' then ''x'' else name) 63)"

definition safeLabelValue :: "string \<Rightarrow> string" where
  "safeLabelValue raw = truncateWithHash raw 63"

definition isAKS :: "string \<Rightarrow> bool" where
  "isAKS platform = equalFoldASCII (trimSpaceRunes (runes platform)) PlatformAKS"

section \<open>Istiod\<close>

record istiodParams =
  ip_Tenant :: string
  ip_Namespace :: string
  ip_Platform :: string
  ip_Image :: string
  ip_Replicas :: int
  ip_MemberKubeconfigName :: string
  ip_MemberKubeconfigKey :: string
  ip_TLSCertNames :: "string list"

definition defaultIstiodParams :: "istiodParams \<Rightarrow> istiodParams" where
  "defaultIstiodParams p =
     p\<lparr>ip_Image := (if ip_Image p = '''' then IstiodImage else ip_Image p),
       ip_Replicas := (if ip_Replicas p = 0 then 1 else ip_Replicas p),
       ip_MemberKubeconfigKey :=
         (if ip_MemberKubeconfigKey p = '''' then ''kubeconfig'' else ip_MemberKubeconfigKey p)\<rparr>"

definition istiodLabels :: "string \<Rightarrow> strmap" where
  "istiodLabels tenant = [
     ''app.kubernetes.io/name'' \<mapsto> ''istiod'',
     ''app.kubernetes.io/component'' \<mapsto> ''control-plane'',
     ManagedByLabel \<mapsto> ManagedByValue,
     TenantLabel \<mapsto> tenant]"

definition noSource :: volumeSource where
  "noSource = \<lparr>vs_Secret = None, vs_CSI = None, vs_EmptyDir = False\<rparr>"

definition secretSource :: "string \<Rightarrow> keyToPath list \<Rightarrow> bool option \<Rightarrow> volumeSource" where
  "secretSource name items opt =
     noSource\<lparr>vs_Secret := Some \<lparr>sv_SecretName = name, sv_Items = items, sv_Optional = opt\<rparr>\<rparr>"

definition tlsVolume :: "string \<Rightarrow> volume" where
  "tlsVolume n = \<lparr>v_Name = safeDNSLabel [''tls'', n], v_Source = secretSource n [] (Some False)\<rparr>"

definition tlsMount :: "string \<Rightarrow> volumeMount" where
  "tlsMount n = \<lparr>vm_Name = safeDNSLabel [''tls'', n], vm_MountPath = TLSMountRoot @ ''/'' @ n,
     vm_ReadOnly = True\<rparr>"

definition cacertsVolumeSource :: "string \<Rightarrow> volumeSource" where
  "cacertsVolumeSource platform =
     (if isAKS platform then
        noSource\<lparr>vs_CSI := Some \<lparr>csi_Driver = ''secrets-store.csi.k8s.io'', csi_ReadOnly = Some True,
          csi_VolumeAttributes = [''secretProviderClass'' \<mapsto> ''cacerts-keyvault'']\<rparr>\<rparr>
      else secretSource ''cacerts'' [] (Some True))"

definition istiodVolumes :: "istiodParams \<Rightarrow> volume list" where
  "istiodVolumes p =
     [\<lparr>v_Name = ''member-kubeconfig'',
       v_Source = secretSource (ip_MemberKubeconfigName p)
         [\<lparr>kp_Key = ip_MemberKubeconfigKey p, kp_Path = ''kubeconfig''\<rparr>] None\<rparr>,
      \<lparr>v_Name = ''cacerts'', v_Source = cacertsVolumeSource (ip_Platform p)\<rparr>] @
     map tlsVolume (sortedUniq (ip_TLSCertNames p))"

definition istiodMounts :: "istiodParams \<Rightarrow> volumeMount list" where
  "istiodMounts p =
     [\<lparr>vm_Name = ''member-kubeconfig'', vm_MountPath = ''/var/run/member'', vm_ReadOnly = True\<rparr>,
      \<lparr>vm_Name = ''cacerts'', vm_MountPath = ''/etc/cacerts'', vm_ReadOnly = True\<rparr>] @
     map tlsMount (sortedUniq (ip_TLSCertNames p))"

definition rendererResources :: resourceRequirements where
  "rendererResources = \<lparr>rq_Requests = [''cpu'' \<mapsto> ''100m'', ''memory'' \<mapsto> ''128Mi''],
     rq_Limits = [''cpu'' \<mapsto> ''1'', ''memory'' \<mapsto> ''512Mi'']\<rparr>"

definition istiodEnv :: "istiodParams \<Rightarrow> envVar list" where
  "istiodEnv p = [
     \<lparr>e_Name = ''CLUSTER_ID'', e_Value = ip_Tenant p\<rparr>,
     \<lparr>e_Name = ''PILOT_ENABLE_GATEWAY_API'', e_Value = ''true''\<rparr>,
     \<lparr>e_Name = ''PILOT_ENABLE_GATEWAY_API_DEPLOYMENT_CONTROLLER'', e_Value = ''false''\<rparr>,
     \<lparr>e_Name = ''EXTERNAL_ISTIOD'', e_Value = ''true''\<rparr>,
     \<lparr>e_Name = ''ENABLE_CA_SERVER'', e_Value = ''true''\<rparr>,
     \<lparr>e_Name = ''PILOT_CERT_PROVIDER'', e_Value = ''istiod''\<rparr>,
     \<lparr>e_Name = ''ISTIOD_CUSTOM_HOST'',
      e_Value = ''istiod.istio-system.svc,istiod.istio-system.svc.cluster.local,istiod.'' @
        ip_Namespace p @ ''.svc,istiod.'' @ ip_Namespace p @ ''.svc.cluster.local''\<rparr>,
     \<lparr>e_Name = ''PILOT_ENABLE_AMBIENT'', e_Value = ''true''\<rparr>,
     \<lparr>e_Name = ''CA_TRUSTED_NODE_ACCOUNTS'', e_Value = ''istio-system/ztunnel''\<rparr>]"

definition istiodContainer :: "istiodParams \<Rightarrow> container" where
  "istiodContainer p = \<lparr>
     ct_Name = ''discovery'', ct_Image = ip_Image p, ct_ImagePullPolicy = ''Always'',
     ct_Args = [''discovery'', ''--kubeconfig=/var/run/member/kubeconfig'',
                ''--keepaliveMaxServerConnectionAge=30m''],
     ct_Env = istiodEnv p,
     ct_Ports = [
       \<lparr>cp_Name = ''grpc-xds'', cp_ContainerPort = IstiodServicePort, cp_Protocol = ''TCP''\<rparr>,
       \<lparr>cp_Name = ''grpc-xds-tls'', cp_ContainerPort = IstiodSecureXDSPort, cp_Protocol = ''TCP''\<rparr>],
     ct_VolumeMounts = istiodMounts p,
     ct_Resources = rendererResources,
     ct_SecurityContext = \<lparr>sx_AllowPrivilegeEscalation = Some False,
       sx_ReadOnlyRootFilesystem = Some True, sx_RunAsNonRoot = Some True, sx_RunAsUser = Some 1337,
       sx_RunAsGroup = None, sx_SeccompProfile = None, sx_CapDrop = [''ALL''], sx_CapAdd = []\<rparr>\<rparr>"

definition IstiodDeployment :: "istiodParams \<Rightarrow> deployment" where
  "IstiodDeployment p0 =
     (let p = defaultIstiodParams p0;
          labels = istiodLabels (ip_Tenant p);
          podLabels = (if isAKS (ip_Platform p)
                       then labels(''azure.workload.identity/use'' \<mapsto> ''true'') else labels);
          certNames = sortedUniq (ip_TLSCertNames p)
      in \<lparr>dep_Meta = emptyMeta\<lparr>m_Name := ''istiod'', m_Namespace := ip_Namespace p, m_Labels := labels\<rparr>,
          dep_Replicas = ip_Replicas p,
          dep_Selector = labels,
          dep_Template = \<lparr>
            pt_Labels = podLabels,
            pt_Annotations = [''appnet.azure.com/tls-cert-hash'' \<mapsto> tlsCertHash certNames],
            pt_Spec = \<lparr>
              ps_AutomountServiceAccountToken = Some False,
              ps_ServiceAccountName =
                (if isAKS (ip_Platform p) then IstiodKeyVaultServiceAccount else ''''),
              ps_Containers = [istiodContainer p],
              ps_Volumes = istiodVolumes p\<rparr>\<rparr>,
          dep_AvailableReplicas = 0\<rparr>)"

definition emptyService :: service where
  "emptyService = \<lparr>svc_Meta = emptyMeta, svc_Selector = Map.empty, svc_Type = '''', svc_Ports = [],
     svc_ClusterIP = '''', svc_ClusterIPs = [], svc_IPFamilies = [], svc_IPFamilyPolicy = None,
     svc_HealthCheckNodePort = 0, svc_AllocateLoadBalancerNodePorts = None, svc_Ingress = []\<rparr>"

definition IstiodService :: "istiodParams \<Rightarrow> service" where
  "IstiodService p =
     (let labels = istiodLabels (ip_Tenant p);
          meta = emptyMeta\<lparr>m_Name := ''istiod'', m_Namespace := ip_Namespace p, m_Labels := labels\<rparr>;
          svc = emptyService\<lparr>svc_Meta := meta, svc_Selector := labels,
            svc_Ports := [\<lparr>sp_Name = ''grpc-xds-tls'', sp_Port = IstiodSecureXDSPort,
              sp_TargetPort = IstiodSecureXDSPort, sp_Protocol = ''TCP'', sp_NodePort = 0\<rparr>]\<rparr>
      in if isAKS (ip_Platform p) then
           svc\<lparr>svc_Meta := meta\<lparr>m_Annotations := [AzureInternalLoadBalancerAnnotation \<mapsto> ''true'']\<rparr>,
               svc_Type := ''LoadBalancer''\<rparr>
         else svc)"

section \<open>agentgateway\<close>

record gatewayParams =
  gp_Tenant :: string
  gp_InfraNamespace :: string
  gp_Platform :: string
  gp_Gateway :: gateway
  gp_Image :: string
  gp_IstiodDNS :: string
  gp_IstiodPort :: int
  gp_TokenExpiration :: string

definition defaultGatewayParams :: "gatewayParams \<Rightarrow> gatewayParams" where
  "defaultGatewayParams p =
     p\<lparr>gp_Image := (if gp_Image p = '''' then AgentGatewayImage else gp_Image p),
       gp_IstiodPort := (if gp_IstiodPort p = 0 then IstiodSecureXDSPort else gp_IstiodPort p),
       gp_IstiodDNS := (if gp_IstiodDNS p = '''' then
          ''istiod.'' @ gp_InfraNamespace p @ ''.svc.cluster.local'' else gp_IstiodDNS p)\<rparr>"

definition agentGatewayLabels :: "string \<Rightarrow> string \<Rightarrow> string \<Rightarrow> strmap" where
  "agentGatewayLabels tenant gwNS gwName = [
     ''app.kubernetes.io/name'' \<mapsto> ''agentgateway'',
     ''app.kubernetes.io/component'' \<mapsto> ''data-plane'',
     ManagedByLabel \<mapsto> ManagedByValue,
     TenantLabel \<mapsto> tenant,
     GatewayLabel \<mapsto> safeLabelValue (gwName @ ''.'' @ gwNS),
     GatewayNamespaceLabel \<mapsto> safeLabelValue gwNS]"

definition AgentGatewayLabels :: "string \<Rightarrow> gateway \<Rightarrow> strmap" where
  "AgentGatewayLabels tenant gw = agentGatewayLabels tenant (gw_Namespace gw) (gw_Name gw)"

definition agentGatewayAnnotations :: "string \<Rightarrow> string \<Rightarrow> strmap" where
  "agentGatewayAnnotations gwNS gwName =
     [GatewayNSAnnotation \<mapsto> gwNS, GatewayNameAnnotation \<mapsto> gwName]"

definition AgentGatewayAnnotations :: "gateway \<Rightarrow> strmap" where
  "AgentGatewayAnnotations gw = agentGatewayAnnotations (gw_Namespace gw) (gw_Name gw)"

definition AgentGatewayObjectName :: "gateway \<Rightarrow> string" where
  "AgentGatewayObjectName gw = safeDNSLabel [''gw'', gw_Namespace gw, gw_Name gw]"

definition AgentGatewayTokenSecretName :: "gateway \<Rightarrow> string" where
  "AgentGatewayTokenSecretName gw = safeDNSLabel [''gw'', gw_Namespace gw, gw_Name gw, ''token'']"

definition AgentGatewayServiceAccountObject :: "gatewayParams \<Rightarrow> serviceAccount" where
  "AgentGatewayServiceAccountObject p =
     \<lparr>sa_Meta = emptyMeta\<lparr>m_Name := AgentGatewayServiceAccount, m_Namespace := gp_InfraNamespace p,
        m_Labels := [
          ''app.kubernetes.io/name'' \<mapsto> ''agentgateway'',
          ''app.kubernetes.io/component'' \<mapsto> ''data-plane'',
          ManagedByLabel \<mapsto> ManagedByValue,
          TenantLabel \<mapsto> gp_Tenant p]\<rparr>\<rparr>"

definition agentGatewayEnv :: "gatewayParams \<Rightarrow> envVar list" where
  "agentGatewayEnv p = [
     \<lparr>e_Name = ''XDS_ADDRESS'', e_Value = ''https://'' @ gp_IstiodDNS p @ '':'' @ itoa (gp_IstiodPort p)\<rparr>,
     \<lparr>e_Name = ''XDS_ROOT_CA'', e_Value = ''/var/run/secrets/istio/root-cert.pem''\<rparr>,
     \<lparr>e_Name = ''NAMESPACE'', e_Value = gw_Namespace (gp_Gateway p)\<rparr>,
     \<lparr>e_Name = ''GATEWAY'', e_Value = gw_Name (gp_Gateway p)\<rparr>,
     \<lparr>e_Name = ''CLUSTER_ID'', e_Value = gp_Tenant p\<rparr>,
     \<lparr>e_Name = ''CA_ADDRESS'', e_Value = ''https://istiod.'' @ gp_InfraNamespace p @
        ''.svc.cluster.local:'' @ itoa IstiodSecureXDSPort\<rparr>,
     \<lparr>e_Name = ''CA_ROOT_CA'', e_Value = ''/var/run/secrets/istio/root-cert.pem''\<rparr>,
     \<lparr>e_Name = ''SERVICE_ACCOUNT'', e_Value = AgentGatewayServiceAccount\<rparr>,
     \<lparr>e_Name = ''NETWORK'', e_Value = ''infra''\<rparr>,
     \<lparr>e_Name = ''IPV6_ENABLED'', e_Value = ''false''\<rparr>]"

definition agentGatewayMounts :: "volumeMount list" where
  "agentGatewayMounts = [
     \<lparr>vm_Name = ''istio-token'', vm_MountPath = ''/var/run/secrets/tokens'', vm_ReadOnly = True\<rparr>,
     \<lparr>vm_Name = ''istiod-ca-cert'', vm_MountPath = ''/var/run/secrets/istio'', vm_ReadOnly = True\<rparr>,
     \<lparr>vm_Name = ''tmp'', vm_MountPath = ''/tmp'', vm_ReadOnly = False\<rparr>]"

definition agentGatewayVolumes :: "gateway \<Rightarrow> volume list" where
  "agentGatewayVolumes gw = [
     \<lparr>v_Name = ''istio-token'', v_Source = secretSource (AgentGatewayTokenSecretName gw)
        [\<lparr>kp_Key = ''token'', kp_Path = ''istio-token''\<rparr>] None\<rparr>,
     \<lparr>v_Name = ''istiod-ca-cert'', v_Source = secretSource ''cacerts''
        [\<lparr>kp_Key = ''root-cert.pem'', kp_Path = ''root-cert.pem''\<rparr>] (Some False)\<rparr>,
     \<lparr>v_Name = ''tmp'', v_Source = noSource\<lparr>vs_EmptyDir := True\<rparr>\<rparr>]"

definition agentGatewayContainer :: "gatewayParams \<Rightarrow> container" where
  "agentGatewayContainer p = \<lparr>
     ct_Name = ''agentgateway'', ct_Image = gp_Image p, ct_ImagePullPolicy = ''Always'', ct_Args = [],
     ct_Env = agentGatewayEnv p,
     ct_Ports = [\<lparr>cp_Name = ''http'', cp_ContainerPort = AgentGatewayListen, cp_Protocol = ''TCP''\<rparr>],
     ct_VolumeMounts = agentGatewayMounts,
     ct_Resources = rendererResources,
     ct_SecurityContext = \<lparr>sx_AllowPrivilegeEscalation = Some False,
       sx_ReadOnlyRootFilesystem = Some True, sx_RunAsNonRoot = Some True, sx_RunAsUser = Some 1337,
       sx_RunAsGroup = Some 1337, sx_SeccompProfile = Some ''RuntimeDefault'',
       sx_CapDrop = [''ALL''], sx_CapAdd = [''NET_BIND_SERVICE'']\<rparr>\<rparr>"

definition AgentGatewayDeployment :: "gatewayParams \<Rightarrow> deployment" where
  "AgentGatewayDeployment p0 =
     (let p = defaultGatewayParams p0;
          gw = gp_Gateway p;
          labels = agentGatewayLabels (gp_Tenant p) (gw_Namespace gw) (gw_Name gw);
          annotations = agentGatewayAnnotations (gw_Namespace gw) (gw_Name gw);
          podAnnotations = (if gp_TokenExpiration p \<noteq> ''''
            then annotations(MemberTokenExpirationAnnotation \<mapsto> gp_TokenExpiration p) else annotations)
      in \<lparr>dep_Meta = emptyMeta\<lparr>m_Name := AgentGatewayObjectName gw, m_Namespace := gp_InfraNamespace p,
            m_Labels := labels, m_Annotations := annotations\<rparr>,
          dep_Replicas = 1,
          dep_Selector = labels,
          dep_Template = \<lparr>
            pt_Labels = labels,
            pt_Annotations = podAnnotations,
            pt_Spec = \<lparr>
              ps_AutomountServiceAccountToken = Some False,
              ps_ServiceAccountName = AgentGatewayServiceAccount,
              ps_Containers = [agentGatewayContainer p],
              ps_Volumes = agentGatewayVolumes gw\<rparr>\<rparr>,
          dep_AvailableReplicas = 0\<rparr>)"

definition listenerServicePort :: "int \<Rightarrow> servicePort" where
  "listenerServicePort port = \<lparr>sp_Name = ''p-'' @ itoa port, sp_Port = port, sp_TargetPort = port,
     sp_Protocol = ''TCP'', sp_NodePort = 0\<rparr>"

text \<open>One Service port per distinct listener port, in the order of first occurrence.\<close>

fun servicePortLoop :: "listener list \<Rightarrow> int set \<Rightarrow> servicePort list" where
  "servicePortLoop [] seen = []"
| "servicePortLoop (l # ls) seen =
     (if l_Port l \<in> seen then servicePortLoop ls seen
      else listenerServicePort (l_Port l) # servicePortLoop ls (insert (l_Port l) seen))"

definition agentGatewayServicePorts :: "listener list \<Rightarrow> servicePort list" where
  "agentGatewayServicePorts ls =
     (let ports = servicePortLoop ls {}
      in if ports = [] then
           [\<lparr>sp_Name = ''http'', sp_Port = AgentGatewayListen, sp_TargetPort = AgentGatewayListen,
             sp_Protocol = ''TCP'', sp_NodePort = 0\<rparr>]
         else ports)"

definition AgentGatewayService :: "gatewayParams \<Rightarrow> service" where
  "AgentGatewayService p0 =
     (let p = defaultGatewayParams p0; gw = gp_Gateway p;
          labels = agentGatewayLabels (gp_Tenant p) (gw_Namespace gw) (gw_Name gw);
          annotations = agentGatewayAnnotations (gw_Namespace gw) (gw_Name gw)
      in emptyService\<lparr>
           svc_Meta := emptyMeta\<lparr>m_Name := AgentGatewayObjectName gw, m_Namespace := gp_InfraNamespace p,
             m_Labels := labels, m_Annotations := annotations\<rparr>,
           svc_Selector := labels,
           svc_Type := (if isAKS (gp_Platform p) then ''LoadBalancer'' else ''NodePort''),
           svc_Ports := agentGatewayServicePorts (gw_Listeners gw)\<rparr>)"

section \<open>DNS labels\<close>

definition labelChar :: "char \<Rightarrow> bool" where
  "labelChar c \<longleftrightarrow> (97 \<le> (of_char c :: nat) \<and> of_char c \<le> (122::nat)) \<or>
     (48 \<le> (of_char c :: nat) \<and> of_char c \<le> (57::nat)) \<or> c = CHR ''-''"

text \<open>An RFC 1123 label: what the API server accepts as the name of a Service.\<close>

definition dnsLabel :: "string \<Rightarrow> bool" where
  "dnsLabel s \<longleftrightarrow> s \<noteq> [] \<and> length s \<le> 63 \<and> (\<forall>c \<in> set s. labelChar c) \<and>
     hd s \<noteq> CHR ''-'' \<and> last s \<noteq> CHR ''-''"

lemma dash_of_char: "c = CHR ''-'' \<longleftrightarrow> of_char c = (45 :: nat)"
proof -
  have "of_char (CHR ''-'') = (45 :: nat)" by simp
  then show ?thesis by (metis of_char_eq_iff)
qed

lemma labelChar_dnsChar: "labelChar (dnsChar r)"
  by (auto simp: labelChar_def dnsChar_def dash_of_char)

lemma labelChar_hexDigit: "n < 16 \<Longrightarrow> labelChar (hexDigit n) \<and> hexDigit n \<noteq> CHR ''-''"
  by (auto simp: labelChar_def hexDigit_def dash_of_char)

lemma hexEncode_label:
  assumes "\<And>b. b \<in> set bs \<Longrightarrow> b < 256" and "c \<in> set (hexEncode bs)"
  shows "labelChar c \<and> c \<noteq> CHR ''-''"
  using assms
proof (induction bs)
  case Nil
  then show ?case by simp
next
  case (Cons b bs)
  have "b < 256" using Cons.prems(1) by simp
  then have "b div 16 < 16" and "b mod 16 < 16" by auto
  then show ?case using Cons labelChar_hexDigit by auto
qed

definition hashSuffix :: "string \<Rightarrow> string" where
  "hashSuffix raw = hexEncode (take 5 (sha256 raw))"

lemma length_hashSuffix [simp]: "length (hashSuffix raw) = 10"
  by (simp add: hashSuffix_def)

lemma hashSuffix_label: "c \<in> set (hashSuffix raw) \<Longrightarrow> labelChar c \<and> c \<noteq> CHR ''-''"
  unfolding hashSuffix_def by (rule hexEncode_label) (auto dest: in_set_takeD sha256_byte)

lemma truncateWithHash_eq:
  "truncateWithHash raw maxLen =
     (if length raw \<le> maxLen then raw
      else TrimRight (take (maxLen - 11) raw) ''-_.'' @ ''-'' @ hashSuffix raw)"
  by (simp add: truncateWithHash_def Let_def flip: hashSuffix_def)

lemma length_truncateWithHash: "11 \<le> maxLen \<Longrightarrow> length (truncateWithHash raw maxLen) \<le> maxLen"
  using length_TrimRight [of "take (maxLen - 11) raw" "''-_.''"]
  by (auto simp: truncateWithHash_eq)

lemma truncateWithHash_dnsLabel:
  assumes "s \<noteq> []" and "\<forall>c \<in> set s. labelChar c" and "hd s \<noteq> CHR ''-''" and "last s \<noteq> CHR ''-''"
  shows "dnsLabel (truncateWithHash s 63)"
proof (cases "length s \<le> 63")
  case True
  then show ?thesis using assms by (simp add: dnsLabel_def truncateWithHash_eq)
next
  case False
  let ?t = "TrimRight (take 52 s) ''-_.''" and ?h = "hashSuffix s"
  have "hd s \<in> set (take 52 s)" using assms(1) False by (cases s) auto
  moreover have "hd s \<notin> set ''-_.''"
    using assms(1-3) by (cases s) (auto simp: labelChar_def)
  ultimately have t: "?t \<noteq> []" by (rule TrimRight_nonempty)
  then have "hd ?t = hd s" using TrimRight_hd [OF t] assms(1) by (cases s) auto
  moreover have "?h \<noteq> []" using length_hashSuffix [of s] by force
  moreover then have "last ?h \<noteq> CHR ''-''" using hashSuffix_label [of "last ?h" s] by simp
  moreover have "\<forall>c \<in> set ?t. labelChar c"
    using assms(2) set_TrimRight [of "take 52 s" "''-_.''"] by (meson in_set_takeD subsetD)
  moreover have "length (truncateWithHash s 63) \<le> 63" by (rule length_truncateWithHash) simp
  ultimately show ?thesis
    using t False assms(3) hashSuffix_label by (auto simp: dnsLabel_def truncateWithHash_eq labelChar_def)
qed

lemma dnsLabel_safeDNSLabel: "dnsLabel (safeDNSLabel parts)"
proof -
  let ?s = "map dnsChar (lowerRunes (Join parts ''-''))"
  let ?n = "Trim ?s ''-''"
  have "\<forall>c \<in> set ?n. labelChar c"
    using set_Trim [of ?s "''-''"] labelChar_dnsChar by fastforce
  then show ?thesis
    unfolding safeDNSLabel_def Let_def
    using Trim_hd [of ?s "''-''"] Trim_last [of ?s "''-''"]
    by (intro truncateWithHash_dnsLabel) (auto simp: labelChar_def)
qed

text \<open>On a string that is a label already the sanitiser does nothing.\<close>

lemma lowerRunes_label:
  assumes "\<forall>c \<in> set s. labelChar c"
  shows "map dnsChar (lowerRunes s) = s"
proof -
  have "dnsChar (runeLower (of_char c)) = c" if "labelChar c" for c
  proof -
    have "runeLower (of_char c) = of_char c"
      using that by (auto simp: labelChar_def dash_of_char runeLower_def)
    moreover from that have "dnsChar (of_char c) = char_of (of_char c :: nat)"
      unfolding dnsChar_def labelChar_def dash_of_char by (rule if_P)
    ultimately show ?thesis by simp
  qed
  moreover have "ascii s"
    using assms unfolding ascii_def labelChar_def by fastforce
  ultimately show ?thesis using assms by (simp add: lowerRunes_def runes_ascii map_idI)
qed

lemma Trim_id: "s = [] \<or> hd s \<notin> set cs \<and> last s \<notin> set cs \<Longrightarrow> Trim s cs = s"
proof -
  assume "s = [] \<or> hd s \<notin> set cs \<and> last s \<notin> set cs"
  then have "TrimLeft s cs = s" and "TrimRight s cs = s"
    by (auto simp: TrimLeft_def TrimRight_def dropWhile_eq_self_iff hd_rev rev_swap)
  then show "Trim s cs = s" by (simp add: Trim_def)
qed

lemma safeDNSLabel_id:
  assumes "dnsLabel (Join parts ''-'')"
  shows "safeDNSLabel parts = Join parts ''-''"
proof -
  let ?s = "Join parts ''-''"
  have "map dnsChar (lowerRunes ?s) = ?s" and "Trim ?s ''-'' = ?s"
    using assms by (auto simp: dnsLabel_def intro!: lowerRunes_label Trim_id)
  then show ?thesis using assms by (simp add: safeDNSLabel_def Let_def truncateWithHash_eq dnsLabel_def)
qed

section \<open>Certificate names\<close>

lemma set_uniqLoop: "set (uniqLoop ss seen) = set ss - seen - {''''}"
  by (induction ss arbitrary: seen) auto

lemma distinct_uniqLoop: "distinct (uniqLoop ss seen)"
  by (induction ss arbitrary: seen) (auto simp: set_uniqLoop)

lemma sortedUniq_props:
  "sorted (sortedUniq ss)" "distinct (sortedUniq ss)" "set (sortedUniq ss) = set ss - {''''}"
  by (auto simp: sortedUniq_def set_uniqLoop distinct_uniqLoop)

lemma sortedUniq_unique:
  assumes "set ss - {''''} = set ts - {''''}"
  shows "sortedUniq ss = sortedUniq ts"
  using sortedUniq_props [of ss] sortedUniq_props [of ts] assms by (metis sorted_distinct_set_unique)

section \<open>Service ports\<close>

lemma set_servicePortLoop:
  "sp_Port ` set (servicePortLoop ls seen) = l_Port ` set ls - seen"
  by (induction ls arbitrary: seen) (auto simp: listenerServicePort_def)

lemma distinct_servicePortLoop: "distinct (map sp_Port (servicePortLoop ls seen))"
  by (induction ls arbitrary: seen) (auto simp: set_servicePortLoop listenerServicePort_def)

lemma servicePortLoop_form:
  "p \<in> set (servicePortLoop ls seen) \<Longrightarrow> p = listenerServicePort (sp_Port p)"
  by (induction ls arbitrary: seen) (auto simp: listenerServicePort_def split: if_splits)

end
