(* ===== verification/Kube_Trace.thy ===== *)
theory Kube_Trace
  imports Kube_Client
begin

text \<open>
  Traces of API calls. \<open>traced k c\<close> is the client \<open>c\<close> of cluster \<open>k\<close> over a world that
  also holds a log: every successful read of an object and every write is appended to it, writes
  when they are issued, whether or not they succeed. The log changes nothing else, so a property
  of the log of a traced run is a property of the calls the code makes against \<open>c\<close>.
\<close>

section \<open>Events\<close>

datatype cluster = Member | Infra

datatype event =
    GotObject cluster nname clientObject
  | GotGateway nname gateway
  | CreateObject cluster clientObject
  | UpdateObject cluster clientObject
  | DeleteObject cluster clientObject
  | WriteGatewayStatus gateway
  | WriteClassStatus gatewayClass
  | WriteRouteStatus route
  | WriteOther
  | RequestToken serviceAccount

section \<open>Logging\<close>

text \<open>\<open>logging f m\<close> runs \<open>m\<close> on the world and appends the events \<open>f\<close> reads off its result.\<close>

definition logging :: "('a \<Rightarrow> event list) \<Rightarrow> ('w, 'a) io \<Rightarrow> ('w \<times> event list, 'a) io" where
  "logging f m = State (\<lambda>(w, es). case run_state m w of (x, w') \<Rightarrow> (x, (w', es @ f x)))"

lemma run_logging [simp]:
  "run_state (logging f m) s = (case run_state m (fst s) of (x, w') \<Rightarrow> (x, (w', snd s @ f x)))"
  by (cases s) (simp add: logging_def split: prod.splits)

definition tracedResource ::
  "(nname \<Rightarrow> 'o \<Rightarrow> event list) \<Rightarrow> ('o \<Rightarrow> event) \<Rightarrow> ('o \<Rightarrow> event) \<Rightarrow> ('o \<Rightarrow> event) \<Rightarrow> ('o \<Rightarrow> event) \<Rightarrow>
   ('o, 'w) resource \<Rightarrow> ('o, 'w \<times> event list) resource" where
  "tracedResource g cr up de st res = \<lparr>
     Get = (\<lambda>k. logging (\<lambda>r. case r of Inl e \<Rightarrow> [] | Inr x \<Rightarrow> g k x) (Get res k)),
     List = (\<lambda>ns. logging (\<lambda>_. []) (List res ns)),
     Create = (\<lambda>x. logging (\<lambda>_. [cr x]) (Create res x)),
     Update = (\<lambda>x. logging (\<lambda>_. [up x]) (Update res x)),
     Delete = (\<lambda>x. logging (\<lambda>_. [de x]) (Delete res x)),
     StatusUpdate = (\<lambda>x. logging (\<lambda>_. [st x]) (StatusUpdate res x))\<rparr>"

definition tracedObjects ::
  "cluster \<Rightarrow> ('o \<Rightarrow> clientObject) \<Rightarrow> ('o, 'w) resource \<Rightarrow> ('o, 'w \<times> event list) resource" where
  "tracedObjects k f = tracedResource (\<lambda>key x. [GotObject k key (f x)])
     (\<lambda>x. CreateObject k (f x)) (\<lambda>x. UpdateObject k (f x)) (\<lambda>x. DeleteObject k (f x)) (\<lambda>_. WriteOther)"

text \<open>Kinds the controller only reads, or whose status alone it writes.\<close>

definition tracedStatus ::
  "(nname \<Rightarrow> 'o \<Rightarrow> event list) \<Rightarrow> ('o \<Rightarrow> event) \<Rightarrow> ('o, 'w) resource \<Rightarrow> ('o, 'w \<times> event list) resource" where
  "tracedStatus g st = tracedResource g (\<lambda>_. WriteOther) (\<lambda>_. WriteOther) (\<lambda>_. WriteOther) st"

definition traced :: "cluster \<Rightarrow> 'w client \<Rightarrow> ('w \<times> event list) client" where
  "traced k c = \<lparr>
     gateways = tracedStatus (\<lambda>key g. [GotGateway key g]) WriteGatewayStatus (gateways c),
     gatewayClasses = tracedStatus (\<lambda>_ _. []) WriteClassStatus (gatewayClasses c),
     httpRoutes = tracedStatus (\<lambda>_ _. []) WriteRouteStatus (httpRoutes c),
     grpcRoutes = tracedStatus (\<lambda>_ _. []) WriteRouteStatus (grpcRoutes c),
     tlsRoutes = tracedStatus (\<lambda>_ _. []) WriteRouteStatus (tlsRoutes c),
     referenceGrants = tracedStatus (\<lambda>_ _. []) (\<lambda>_. WriteOther) (referenceGrants c),
     backendTLSPolicies = tracedStatus (\<lambda>_ _. []) (\<lambda>_. WriteOther) (backendTLSPolicies c),
     kubeNamespaces = tracedObjects k ONamespace (kubeNamespaces c),
     services = tracedObjects k OService (services c),
     secrets = tracedObjects k OSecret (secrets c),
     serviceAccounts = tracedObjects k OServiceAccount (serviceAccounts c),
     deployments = tracedObjects k ODeployment (deployments c),
     createToken = (\<lambda>sa aud secs. logging (\<lambda>_. [RequestToken sa]) (createToken c sa aud secs))\<rparr>"

lemma tracedResource_simps [simp]:
  "Get (tracedResource g cr up de st res) = (\<lambda>k. logging (\<lambda>r. case r of Inl e \<Rightarrow> [] | Inr x \<Rightarrow> g k x) (Get res k))"
  "List (tracedResource g cr up de st res) = (\<lambda>ns. logging (\<lambda>_. []) (List res ns))"
  "Create (tracedResource g cr up de st res) = (\<lambda>x. logging (\<lambda>_. [cr x]) (Create res x))"
  "Update (tracedResource g cr up de st res) = (\<lambda>x. logging (\<lambda>_. [up x]) (Update res x))"
  "Delete (tracedResource g cr up de st res) = (\<lambda>x. logging (\<lambda>_. [de x]) (Delete res x))"
  "StatusUpdate (tracedResource g cr up de st res) = (\<lambda>x. logging (\<lambda>_. [st x]) (StatusUpdate res x))"
  by (simp_all add: tracedResource_def)

lemma traced_simps [simp]:
  "gateways (traced k c) = tracedStatus (\<lambda>key g. [GotGateway key g]) WriteGatewayStatus (gateways c)"
  "gatewayClasses (traced k c) = tracedStatus (\<lambda>_ _. []) WriteClassStatus (gatewayClasses c)"
  "httpRoutes (traced k c) = tracedStatus (\<lambda>_ _. []) WriteRouteStatus (httpRoutes c)"
  "grpcRoutes (traced k c) = tracedStatus (\<lambda>_ _. []) WriteRouteStatus (grpcRoutes c)"
  "tlsRoutes (traced k c) = tracedStatus (\<lambda>_ _. []) WriteRouteStatus (tlsRoutes c)"
  "referenceGrants (traced k c) = tracedStatus (\<lambda>_ _. []) (\<lambda>_. WriteOther) (referenceGrants c)"
  "backendTLSPolicies (traced k c) = tracedStatus (\<lambda>_ _. []) (\<lambda>_. WriteOther) (backendTLSPolicies c)"
  "kubeNamespaces (traced k c) = tracedObjects k ONamespace (kubeNamespaces c)"
  "services (traced k c) = tracedObjects k OService (services c)"
  "secrets (traced k c) = tracedObjects k OSecret (secrets c)"
  "serviceAccounts (traced k c) = tracedObjects k OServiceAccount (serviceAccounts c)"
  "deployments (traced k c) = tracedObjects k ODeployment (deployments c)"
  "createToken (traced k c) = (\<lambda>sa aud secs. logging (\<lambda>_. [RequestToken sa]) (createToken c sa aud secs))"
  by (simp_all add: traced_def)

section \<open>Guarded traces\<close>

text \<open>
  A guard says which event may follow which history. A log is guarded when every event of it was
  allowed by the history before it.
\<close>

type_synonym guard = "event list \<Rightarrow> event \<Rightarrow> bool"

fun guardedFrom :: "guard \<Rightarrow> event list \<Rightarrow> event list \<Rightarrow> bool" where
  "guardedFrom g pre [] = True"
| "guardedFrom g pre (e # es) = (g pre e \<and> guardedFrom g (pre @ [e]) es)"

definition guarded :: "guard \<Rightarrow> event list \<Rightarrow> bool" where
  "guarded g es = guardedFrom g [] es"

lemma guardedFrom_append:
  "guardedFrom g pre (es @ es') \<longleftrightarrow> guardedFrom g pre es \<and> guardedFrom g (pre @ es) es'"
  by (induction es arbitrary: pre) auto

lemma guarded_Nil [simp]: "guarded g []"
  by (simp add: guarded_def)

lemma guarded_snoc [simp]: "guarded g (es @ [e]) \<longleftrightarrow> guarded g es \<and> g es e"
  by (simp add: guarded_def guardedFrom_append)

text \<open>What a guarded log says of an event in it.\<close>

lemma guardedD: "guarded g (pre @ e # post) \<Longrightarrow> g pre e"
  by (simp add: guarded_def guardedFrom_append)

lemma guardedFrom_iff: "guardedFrom g p es \<longleftrightarrow> (\<forall>pre e post. es = pre @ e # post \<longrightarrow> g (p @ pre) e)"
proof (induction es arbitrary: p)
  case Nil
  then show ?case by simp
next
  case (Cons x es)
  show ?case
  proof
    assume l: "guardedFrom g p (x # es)"
    show "\<forall>pre e post. x # es = pre @ e # post \<longrightarrow> g (p @ pre) e"
    proof (intro allI impI)
      fix pre e post
      assume "x # es = pre @ e # post"
      then show "g (p @ pre) e" using l Cons by (cases pre) auto
    qed
  next
    assume r: "\<forall>pre e post. x # es = pre @ e # post \<longrightarrow> g (p @ pre) e"
    from r [rule_format, of "[]" x es] have "g p x" by simp
    moreover have "guardedFrom g (p @ [x]) es"
      unfolding Cons using r by (metis append.assoc append_Cons append_Nil)
    ultimately show "guardedFrom g p (x # es)" by simp
  qed
qed

lemma guarded_weaken: "guarded g es \<Longrightarrow> (\<And>pre e. g pre e \<Longrightarrow> g' pre e) \<Longrightarrow> guarded g' es"
  by (auto simp: guarded_def guardedFrom_iff)

section \<open>Hoare rules for traced computations\<close>

text \<open>
  Assertions are about the log alone: the log is guarded and some fact holds of it. The facts used
  are stable: more events do not falsify them.
\<close>

definition stable :: "(event list \<Rightarrow> bool) \<Rightarrow> bool" where
  "stable F \<longleftrightarrow> (\<forall>es es'. F es \<longrightarrow> F (es @ es'))"

definition logged :: "guard \<Rightarrow> (event list \<Rightarrow> bool) \<Rightarrow> 'w \<times> event list \<Rightarrow> bool" where
  "logged g F s \<longleftrightarrow> guarded g (snd s) \<and> F (snd s)"

lemma stable_mem [intro!, simp]: "stable (\<lambda>es. e \<in> set es)"
  by (simp add: stable_def)

lemma stable_const [intro!, simp]: "stable (\<lambda>_. b)"
  by (simp add: stable_def)

lemma stable_conj [intro!]: "stable F \<Longrightarrow> stable G \<Longrightarrow> stable (\<lambda>es. F es \<and> G es)"
  by (auto simp: stable_def)

lemma stable_disj [intro!]: "stable F \<Longrightarrow> stable G \<Longrightarrow> stable (\<lambda>es. F es \<or> G es)"
  by (auto simp: stable_def)

lemma stable_ex [intro!]: "(\<And>x. stable (F x)) \<Longrightarrow> stable (\<lambda>es. \<exists>x. F x es)"
  unfolding stable_def by blast

lemma stable_all [intro!]: "(\<And>x. stable (F x)) \<Longrightarrow> stable (\<lambda>es. \<forall>x. F x es)"
  unfolding stable_def by blast

lemma stable_imp [intro!]: "(b \<Longrightarrow> stable F) \<Longrightarrow> stable (\<lambda>es. b \<longrightarrow> F es)"
  by (cases b) auto

lemma stable_ball [intro!]: "(\<And>x. x \<in> A \<Longrightarrow> stable (F x)) \<Longrightarrow> stable (\<lambda>es. \<forall>x \<in> A. F x es)"
  unfolding stable_def by blast

lemma stableD: "stable F \<Longrightarrow> F es \<Longrightarrow> F (es @ es')"
  by (simp add: stable_def)

lemma logged_weaken: "logged g F s \<Longrightarrow> (\<And>es. F es \<Longrightarrow> F' es) \<Longrightarrow> logged g F' s"
  by (simp add: logged_def)

text \<open>A computation that logs at most one event keeps the log guarded when that event is allowed.\<close>

lemma valid_logging_none:
  assumes "stable F"
  shows "valid (logged g F) (logging (\<lambda>_. []) m) (\<lambda>_. logged g F)"
  by (auto simp: valid_def logged_def split: prod.splits)

lemma valid_logging_one:
  assumes "stable F" and "\<And>es. F es \<Longrightarrow> g es e"
  shows "valid (logged g F) (logging (\<lambda>_. [e]) m) (\<lambda>_. logged g F)"
  using assms by (auto simp: valid_def logged_def stable_def split: prod.splits)

lemma valid_logging_got:
  assumes "stable F" and "\<And>es x. F es \<Longrightarrow> g es (ev x)"
  shows "valid (logged g F) (logging (\<lambda>r. case r of Inl e \<Rightarrow> [] | Inr x \<Rightarrow> [ev x]) m)
    (\<lambda>r. logged g (\<lambda>es. F es \<and> (case r of Inl e \<Rightarrow> True | Inr x \<Rightarrow> ev x \<in> set es)))"
  using assms by (auto simp: valid_def logged_def stable_def split: prod.splits sum.splits)

end
