(* ===== verification/Apply.thy ===== *)
theory Apply
  imports Render Kube_Trace
begin

text \<open>
  The applier, \<open>controller/internal/provisioner/apply.go\<close>: create-or-update of an object in a
  cluster, with the owner check, the resource version of the read object and, for Services, the
  fields the API server allocates.
\<close>

section \<open>Operations\<close>

text \<open>\<open>types.NamespacedName.String\<close>.\<close>

definition keyString :: "nname \<Rightarrow> string" where
  "keyString k = fst k @ ''/'' @ snd k"

definition managedNamespace :: "string \<Rightarrow> kubeNamespace" where
  "managedNamespace name =
     \<lparr>ns_Meta = emptyMeta\<lparr>m_Name := name, m_Labels := [ManagedByLabel \<mapsto> ManagedByValue]\<rparr>\<rparr>"

definition EnsureNamespace :: "'w client \<Rightarrow> string \<Rightarrow> ('w, unit) fio" where
  "EnsureNamespace c name =
     tryE (Get (kubeNamespaces c) ('''', name))
       (\<lambda>e. if \<not> IsNotFound e then fail (Wrap (''get namespace '' @ name) e)
            else tryE (Create (kubeNamespaces c) (managedNamespace name))
              (\<lambda>e. if \<not> IsAlreadyExists e then fail (Wrap (''create namespace '' @ name) e) else ok ())
              (\<lambda>_. ok ()))
       (\<lambda>_. ok ())"

definition servicePortMatches :: "servicePort \<Rightarrow> servicePort \<Rightarrow> bool" where
  "servicePortMatches a b =
     (if sp_Name a \<noteq> '''' \<and> sp_Name b \<noteq> '''' then sp_Name a = sp_Name b
      else sp_Port a = sp_Port b \<and> sp_Protocol a = sp_Protocol b)"

definition keepNodePort :: "servicePort list \<Rightarrow> servicePort \<Rightarrow> servicePort" where
  "keepNodePort current p =
     (case find (servicePortMatches p) current of
        None \<Rightarrow> p
      | Some currentPort \<Rightarrow> p\<lparr>sp_NodePort := sp_NodePort currentPort\<rparr>)"

definition preserveServiceFields :: "service \<Rightarrow> service \<Rightarrow> service" where
  "preserveServiceFields current desired =
     desired\<lparr>svc_ClusterIP := svc_ClusterIP current,
       svc_ClusterIPs := svc_ClusterIPs current,
       svc_IPFamilies := svc_IPFamilies current,
       svc_IPFamilyPolicy := svc_IPFamilyPolicy current,
       svc_HealthCheckNodePort := svc_HealthCheckNodePort current,
       svc_AllocateLoadBalancerNodePorts := svc_AllocateLoadBalancerNodePorts current,
       svc_Ports := map (keepNodePort (svc_Ports current)) (svc_Ports desired)\<rparr>"

definition SetResourceVersion :: "string \<Rightarrow> clientObject \<Rightarrow> clientObject" where
  "SetResourceVersion v = mapMeta (\<lambda>m. m\<lparr>m_ResourceVersion := v\<rparr>)"

text \<open>
  An object is foreign when its managed-by label names somebody else; an object without the label
  is taken over.
\<close>

definition foreign :: "clientObject \<Rightarrow> bool" where
  "foreign existing \<longleftrightarrow>
     (let owner = mapGet (GetLabels existing) ManagedByLabel in owner \<noteq> '''' \<and> owner \<noteq> ManagedByValue)"

text \<open>
  \<open>prepareForUpdate\<close> mutates its second argument; here it returns it. The last case of the inner
  match is the type assertion that would panic: \<open>Apply\<close> reads an object of the type it writes.
\<close>

definition prepareForUpdate :: "clientObject \<Rightarrow> clientObject \<Rightarrow> error + clientObject" where
  "prepareForUpdate existing obj =
     (if foreign existing then
        Inl (Errorf (''refusing to update unmanaged object '' @ GetNamespace existing @ ''/'' @ GetName existing))
      else
        (let obj = SetResourceVersion (m_ResourceVersion (objMeta existing)) obj in
         case obj of
           OService desired \<Rightarrow>
             (case existing of
                OService current \<Rightarrow> Inr (OService (preserveServiceFields current desired))
              | _ \<Rightarrow> Inl (Errorf ''interface conversion''))
         | _ \<Rightarrow> Inr obj))"

definition Apply :: "'w client \<Rightarrow> clientObject \<Rightarrow> ('w, unit) fio" where
  "Apply c obj =
     (let key = keyOf (objMeta obj) in
      tryE (objGet c obj key)
        (\<lambda>e. if IsNotFound e then
               tryE (objCreate c obj)
                 (\<lambda>e. if \<not> IsAlreadyExists e then fail (Wrap (''create '' @ keyString key) e) else ok ())
                 (\<lambda>_. ok ())
             else fail (Wrap (''get '' @ keyString key) e))
        (\<lambda>existing.
           case prepareForUpdate existing obj of
             Inl e \<Rightarrow> fail e
           | Inr obj \<Rightarrow> bindE (objUpdate c obj) (Wrap (''update '' @ keyString key)) ok))"

section \<open>Facts\<close>

text \<open>The dynamic type of an object.\<close>

primrec objKind :: "clientObject \<Rightarrow> string" where
  "objKind (ODeployment x) = ''Deployment''"
| "objKind (OService x) = ''Service''"
| "objKind (OSecret x) = ''Secret''"
| "objKind (OServiceAccount x) = ''ServiceAccount''"
| "objKind (ONamespace x) = ''Namespace''"

lemma objGet_kind:
  "run_state (objGet c obj k) w = (Inr x, w') \<Longrightarrow> objKind x = objKind obj"
  by (cases obj) (auto split: prod.splits sum.splits)

lemma objMeta_SetResourceVersion [simp]:
  "objMeta (SetResourceVersion v x) = (objMeta x)\<lparr>m_ResourceVersion := v\<rparr>"
  by (simp add: SetResourceVersion_def)

lemma objKind_SetResourceVersion [simp]: "objKind (SetResourceVersion v x) = objKind x"
  by (cases x) (simp_all add: SetResourceVersion_def)

lemma preserveServiceFields_meta [simp]: "svc_Meta (preserveServiceFields a b) = svc_Meta b"
  by (simp add: preserveServiceFields_def)

lemma prepareForUpdate_foreign: "foreign x \<Longrightarrow> \<exists>m. prepareForUpdate x obj = Inl (Errorf m)"
  by (simp add: prepareForUpdate_def)

lemma prepareForUpdate_Inr:
  assumes "objKind x = objKind obj" and "\<not> foreign x"
  shows "\<exists>obj'. prepareForUpdate x obj = Inr obj' \<and> objKind obj' = objKind obj \<and>
     objMeta obj' = (objMeta obj)\<lparr>m_ResourceVersion := m_ResourceVersion (objMeta x)\<rparr>"
  using assms by (cases obj; cases x) (simp_all add: prepareForUpdate_def SetResourceVersion_def)

lemma prepareForUpdate_meta:
  assumes "prepareForUpdate x obj = Inr obj'"
  shows "\<not> foreign x \<and> objKind obj' = objKind obj \<and>
    objMeta obj' = (objMeta obj)\<lparr>m_ResourceVersion := m_ResourceVersion (objMeta x)\<rparr>"
  using assms
  by (cases obj; cases x) (auto simp: prepareForUpdate_def SetResourceVersion_def split: if_splits)

lemma objGet_traced:
  "objGet (traced k c) obj key =
     logging (\<lambda>r. case r of Inl e \<Rightarrow> [] | Inr x \<Rightarrow> [GotObject k key x]) (objGet c obj key)"
  by (cases obj)
    (auto simp: tracedObjects_def logging_def mapE_def bindE_def ok_def fail_def State_Monad.bind_def
      fun_eq_iff split: prod.splits sum.splits)

lemma objCreate_traced: "objCreate (traced k c) obj = logging (\<lambda>_. [CreateObject k obj]) (objCreate c obj)"
  by (cases obj) (simp_all add: tracedObjects_def)

lemma objUpdate_traced: "objUpdate (traced k c) obj = logging (\<lambda>_. [UpdateObject k obj]) (objUpdate c obj)"
  by (cases obj) (simp_all add: tracedObjects_def)

lemma objDelete_traced: "objDelete (traced k c) obj = logging (\<lambda>_. [DeleteObject k obj]) (objDelete c obj)"
  by (cases obj) (simp_all add: tracedObjects_def)

section \<open>A rule for traced applications\<close>

lemma valid_Apply:
  assumes "stable F"
    and "\<And>es x. F es \<Longrightarrow> g es (GotObject k (keyOf (objMeta obj)) x)"
    and "\<And>es. F es \<Longrightarrow> g es (CreateObject k obj)"
    and "\<And>es x obj'. F es \<Longrightarrow> GotObject k (keyOf (objMeta obj)) x \<in> set es \<Longrightarrow>
       prepareForUpdate x obj = Inr obj' \<Longrightarrow> g es (UpdateObject k obj')"
  shows "valid (logged g F) (Apply (traced k c) obj) (\<lambda>_. logged g F)"
  unfolding Apply_def Let_def objGet_traced objCreate_traced
proof (rule valid_tryE [OF valid_logging_got])
  fix e
  show "valid (logged g (\<lambda>es. F es \<and> (case Inl e of Inl e \<Rightarrow> True | Inr x \<Rightarrow> GotObject k (keyOf (objMeta obj)) x \<in> set es)))
     (if IsNotFound e then tryE (logging (\<lambda>_. [CreateObject k obj]) (objCreate c obj))
          (\<lambda>e. if \<not> IsAlreadyExists e then fail (Wrap (''create '' @ keyString (keyOf (objMeta obj))) e) else ok ()) (\<lambda>_. ok ())
      else fail (Wrap (''get '' @ keyString (keyOf (objMeta obj))) e)) (\<lambda>_. logged g F)"
    using assms(1,3) by (auto intro!: valid_intros valid_logging_one)
next
  fix x
  show "valid (logged g (\<lambda>es. F es \<and> (case Inr x of Inl e \<Rightarrow> True | Inr x \<Rightarrow> GotObject k (keyOf (objMeta obj)) x \<in> set es)))
     (case prepareForUpdate x obj of Inl e \<Rightarrow> fail e
      | Inr obj' \<Rightarrow> bindE (objUpdate (traced k c) obj') (Wrap (''update '' @ keyString (keyOf (objMeta obj)))) ok)
     (\<lambda>_. logged g F)"
  proof (cases "prepareForUpdate x obj")
    case (Inl e)
    then show ?thesis by (auto intro!: valid_intros elim: logged_weaken)
  next
    case (Inr obj')
    have "valid (logged g (\<lambda>es. F es \<and> GotObject k (keyOf (objMeta obj)) x \<in> set es))
       (bindE (objUpdate (traced k c) obj') (Wrap (''update '' @ keyString (keyOf (objMeta obj)))) ok)
       (\<lambda>_. logged g (\<lambda>es. F es \<and> GotObject k (keyOf (objMeta obj)) x \<in> set es))"
      unfolding objUpdate_traced using assms(1,4) Inr by (auto intro!: valid_intros valid_logging_one)
    then show ?thesis using Inr by (auto elim!: valid_post logged_weaken)
  qed
qed (use assms in auto)

end
