(* ===== verification/Go_Time.thy ===== *)
theory Go_Time
  imports Go_Strings
begin

text \<open>
  The part of Go's \<open>time\<close> package the controller uses: \<open>Format(time.RFC3339)\<close> of a UTC time
  and \<open>time.Parse(time.RFC3339, s)\<close>. A time is the number of nanoseconds since the Unix epoch.
\<close>

section \<open>The Gregorian calendar\<close>

definition isLeap :: "int \<Rightarrow> bool" where
  "isLeap y \<longleftrightarrow> y mod 4 = 0 \<and> (y mod 100 \<noteq> 0 \<or> y mod 400 = 0)"

text \<open>Days between 1 January of year 0 and 1 January of year \<open>y\<close>.\<close>

definition daysBeforeYear :: "int \<Rightarrow> int" where
  "daysBeforeYear y = 365 * y + (y + 3) div 4 - (y + 99) div 100 + (y + 399) div 400"

definition monthLengths :: "int \<Rightarrow> int list" where
  "monthLengths y = [31, if isLeap y then 29 else 28, 31, 30, 31, 30, 31, 31, 30, 31, 30, 31]"

text \<open>Day number (from 1 January of year 0) of a date; months and days count from 1.\<close>

definition dayNumber :: "int \<Rightarrow> int \<Rightarrow> int \<Rightarrow> int" where
  "dayNumber y m d = daysBeforeYear y + sum_list (take (nat (m - 1)) (monthLengths y)) + (d - 1)"

definition epochDay :: int where "epochDay = 719528"

text \<open>The year of a day: an estimate from the mean year, corrected by at most one.\<close>

definition yearOfDay :: "int \<Rightarrow> int" where
  "yearOfDay n =
     (let y = 400 * n div 146097 in
      if n < daysBeforeYear y then y - 1 else if daysBeforeYear (y + 1) \<le> n then y + 1 else y)"

fun monthOfDay :: "int list \<Rightarrow> int \<Rightarrow> int \<Rightarrow> int \<times> int" where
  "monthOfDay [] m k = (m, k + 1)"
| "monthOfDay (l # ls) m k = (if k < l then (m, k + 1) else monthOfDay ls (m + 1) (k - l))"

definition dateOfDay :: "int \<Rightarrow> int \<times> int \<times> int" where
  "dateOfDay n = (let y = yearOfDay n in (y, monthOfDay (monthLengths y) 1 (n - daysBeforeYear y)))"

section \<open>Formatting\<close>

definition nanos :: int where "nanos = 1000000000"

text \<open>\<open>appendInt\<close>: decimal, padded with zeros to the given width.\<close>

definition appendInt :: "int \<Rightarrow> nat \<Rightarrow> string" where
  "appendInt x width =
     (let s = natDigits (nat \<bar>x\<bar>)
      in (if x < 0 then ''-'' else '''') @ replicate (width - length s) (CHR ''0'') @ s)"

definition FormatRFC3339 :: "int \<Rightarrow> string" where
  "FormatRFC3339 t =
     (let secs = t div nanos; sod = secs mod 86400;
          (y, m, d) = dateOfDay (secs div 86400 + epochDay)
      in appendInt y 4 @ ''-'' @ appendInt m 2 @ ''-'' @ appendInt d 2 @ ''T'' @
         appendInt (sod div 3600) 2 @ '':'' @ appendInt (sod div 60 mod 60) 2 @ '':'' @
         appendInt (sod mod 60) 2 @ ''Z'')"

section \<open>Parsing\<close>

definition isDigit :: "char \<Rightarrow> bool" where
  "isDigit c \<longleftrightarrow> 48 \<le> (of_char c :: nat) \<and> of_char c \<le> (57 :: nat)"

definition digitVal :: "char \<Rightarrow> int" where
  "digitVal c = int (of_char c) - 48"

definition atoiDigits :: "string \<Rightarrow> int" where
  "atoiDigits s = foldl (\<lambda>n c. 10 * n + digitVal c) 0 s"

text \<open>\<open>getnum\<close>: one or two digits; exactly two when \<open>fixed\<close>.\<close>

fun getnum :: "bool \<Rightarrow> string \<Rightarrow> (int \<times> string) option" where
  "getnum fixed (a # b # s) =
     (if \<not> isDigit a then None
      else if \<not> isDigit b then (if fixed then None else Some (digitVal a, b # s))
      else Some (10 * digitVal a + digitVal b, s))"
| "getnum fixed [a] = (if \<not> isDigit a \<or> fixed then None else Some (digitVal a, []))"
| "getnum fixed [] = None"

text \<open>A number below a bound, and the literal that separates it from the next.\<close>

definition getRange :: "bool \<Rightarrow> int \<Rightarrow> int \<Rightarrow> string \<Rightarrow> (int \<times> string) option" where
  "getRange fixed lo hi s =
     (case getnum fixed s of None \<Rightarrow> None | Some (n, s') \<Rightarrow> if lo \<le> n \<and> n \<le> hi then Some (n, s') else None)"

fun skipChar :: "char \<Rightarrow> string \<Rightarrow> string option" where
  "skipChar c [] = None"
| "skipChar c (a # s) = (if a = c then Some s else None)"

definition getYear :: "string \<Rightarrow> (int \<times> string) option" where
  "getYear s =
     (if length s < 4 \<or> \<not> list_all isDigit (take 4 s) then None
      else Some (atoiDigits (take 4 s), drop 4 s))"

text \<open>An optional fraction of a second after a period or a comma; digits past the ninth are cut.\<close>

definition getFraction :: "string \<Rightarrow> int \<times> string" where
  "getFraction s =
     (if length s \<ge> 2 \<and> (hd s = CHR ''.'' \<or> hd s = CHR '','') \<and> isDigit (s ! 1) then
        (let ds = take 9 (takeWhile isDigit (tl s))
         in (atoiDigits ds * 10 ^ (9 - length ds), dropWhile isDigit (tl s)))
      else (0, s))"

text \<open>\<open>Z\<close>, or a signed offset; the bounds of the offset are inclusive, as in the library.\<close>

definition getZone :: "string \<Rightarrow> (int \<times> string) option" where
  "getZone s =
     (if s \<noteq> [] \<and> hd s = CHR ''Z'' then Some (0, tl s)
      else if length s < 6 \<or> s ! 3 \<noteq> CHR '':'' then None
      else
        (case (getRange True 0 24 (take 2 (drop 1 s)), getRange True 0 60 (take 2 (drop 4 s))) of
           (Some (hr, _), Some (mm, _)) \<Rightarrow>
             (let off = (hr * 60 + mm) * 60
              in if hd s = CHR ''+'' then Some (off, drop 6 s)
                 else if hd s = CHR ''-'' then Some (- off, drop 6 s) else None)
         | _ \<Rightarrow> None))"

definition ParseRFC3339 :: "string \<Rightarrow> int option" where
  "ParseRFC3339 value =
     Option.bind (getYear value) (\<lambda>(year, s).
     Option.bind (skipChar CHR ''-'' s) (\<lambda>s.
     Option.bind (getRange True 1 12 s) (\<lambda>(month, s).
     Option.bind (skipChar CHR ''-'' s) (\<lambda>s.
     Option.bind (getnum True s) (\<lambda>(day, s).
     Option.bind (skipChar CHR ''T'' s) (\<lambda>s.
     Option.bind (getRange False 0 23 s) (\<lambda>(hour, s).
     Option.bind (skipChar CHR '':'' s) (\<lambda>s.
     Option.bind (getRange True 0 59 s) (\<lambda>(mi, s).
     Option.bind (skipChar CHR '':'' s) (\<lambda>s.
     Option.bind (getRange True 0 59 s) (\<lambda>(sec, s).
     case getFraction s of (nsec, s) \<Rightarrow>
     Option.bind (getZone s) (\<lambda>(off, s).
     if s \<noteq> [] \<or> day < 1 \<or> monthLengths year ! nat (month - 1) < day then None
     else Some ((((dayNumber year month day - epochDay) * 86400 + hour * 3600 + mi * 60 + sec) - off) * nanos + nsec)))))))))))))"

section \<open>Dates round trip\<close>

lemma ceiling_div:
  assumes "0 < (k :: int)"
  shows "(y + (k - 1)) div k = y div k + (if y mod k = 0 then 0 else 1)"
proof -
  let ?r = "y mod k"
  have r: "0 \<le> ?r" "?r < k" using assms by simp_all
  have "(y + (k - 1)) div k = (?r + (k - 1) + k * (y div k)) div k"
    by (simp add: algebra_simps)
  also have "\<dots> = y div k + (?r + (k - 1)) div k" using assms by (subst div_mult_self2) simp_all
  also have "(?r + (k - 1)) div k = (if ?r = 0 then 0 else 1)"
  proof (cases "?r = 0")
    case False
    then have "(?r - 1 + k * 1) div k = 1 + (?r - 1) div k" using assms by (intro div_mult_self2) simp
    moreover have "(?r - 1) div k = 0" using r False by (intro div_pos_pos_trivial) linarith+
    ultimately show ?thesis using False by (simp add: algebra_simps)
  qed (use assms in simp)
  finally show ?thesis .
qed

lemmas year_ceilings = ceiling_div [of 4, simplified] ceiling_div [of 100, simplified] ceiling_div [of 400, simplified]

lemma daysBeforeYear_Suc: "daysBeforeYear (y + 1) = daysBeforeYear y + (if isLeap y then 366 else 365)"
proof -
  have "daysBeforeYear (y + 1) = 365 * (y + 1) + (y + 4) div 4 - (y + 100) div 100 + (y + 400) div 400"
    by (simp add: daysBeforeYear_def add.assoc)
  then have next_year: "daysBeforeYear (y + 1) = 365 * (y + 1) + (y div 4 + 1) - (y div 100 + 1) + (y div 400 + 1)"
    using div_add_self2 [of 4 y] div_add_self2 [of 100 y] div_add_self2 [of 400 y] by simp
  have this_year: "daysBeforeYear y = 365 * y + (y div 4 + (if y mod 4 = 0 then 0 else 1)) -
      (y div 100 + (if y mod 100 = 0 then 0 else 1)) + (y div 400 + (if y mod 400 = 0 then 0 else 1))"
    by (simp only: daysBeforeYear_def year_ceilings)
  have "y mod 400 = 0 \<Longrightarrow> y mod 100 = 0"
    using dvd_trans [of 100 400 y] by (simp add: mod_eq_0_iff_dvd)
  moreover have "y mod 100 = 0 \<Longrightarrow> y mod 4 = 0"
    using dvd_trans [of 4 100 y] by (simp add: mod_eq_0_iff_dvd)
  ultimately show ?thesis unfolding next_year this_year isLeap_def by (simp split: if_split)
qed

lemma sum_monthLengths: "sum_list (monthLengths y) = (if isLeap y then 366 else 365)"
  by (simp add: monthLengths_def)

lemma daysBeforeYear_bounds:
  "146097 * y - 800 \<le> 400 * daysBeforeYear y \<and> 400 * daysBeforeYear y \<le> 146097 * y + 800"
proof -
  have "400 * daysBeforeYear y = 146000 * y + 400 * ((y + 3) div 4) - 400 * ((y + 99) div 100) + 400 * ((y + 399) div 400)"
    by (simp add: daysBeforeYear_def)
  moreover have "y = 4 * (y div 4) + y mod 4" "y = 100 * (y div 100) + y mod 100" "y = 400 * (y div 400) + y mod 400"
    by simp_all
  moreover have "0 \<le> y mod 4" "y mod 4 \<le> 3" "0 \<le> y mod 100" "y mod 100 \<le> 99" "0 \<le> y mod 400" "y mod 400 \<le> 399"
    using pos_mod_bound [of 4 y] pos_mod_bound [of 100 y] pos_mod_bound [of 400 y] by simp_all
  ultimately show ?thesis unfolding year_ceilings by (smt (verit))
qed

lemma yearOfDay_bounds: "daysBeforeYear (yearOfDay n) \<le> n \<and> n < daysBeforeYear (yearOfDay n + 1)"
proof -
  define y where "y = 400 * n div 146097"
  have "400 * n = 146097 * y + 400 * n mod 146097" by (simp add: y_def)
  moreover have "0 \<le> 400 * n mod 146097" "400 * n mod 146097 < 146097" by simp_all
  ultimately have "146097 * y \<le> 400 * n" "400 * n < 146097 * y + 146097" by linarith+
  moreover note daysBeforeYear_bounds [of "y - 1"] daysBeforeYear_bounds [of "y + 1 + 1"]
  ultimately have "400 * daysBeforeYear (y - 1) \<le> 400 * n" and "400 * n < 400 * daysBeforeYear (y + 1 + 1)"
    by (auto simp: algebra_simps)
  then show ?thesis by (auto simp: yearOfDay_def Let_def simp flip: y_def)
qed

lemma monthOfDay_sum:
  assumes "0 \<le> k" and "k < sum_list ls" and "\<forall>l \<in> set ls. 0 < l"
  shows "case monthOfDay ls m k of (m', d) \<Rightarrow>
    m \<le> m' \<and> m' < m + int (length ls) \<and> 1 \<le> d \<and> d \<le> ls ! nat (m' - m) \<and>
    sum_list (take (nat (m' - m)) ls) + (d - 1) = k"
  using assms
proof (induction ls m k rule: monthOfDay.induct)
  case (1 m k)
  then show ?case by simp
next
  case (2 l ls m k)
  show ?case
  proof (cases "k < l")
    case True
    then show ?thesis using 2 by simp
  next
    case False
    obtain m' d where md: "monthOfDay ls (m + 1) (k - l) = (m', d)" by force
    then have IH: "m + 1 \<le> m'" "m' < m + 1 + int (length ls)" "1 \<le> d" "d \<le> ls ! nat (m' - (m + 1))"
      "sum_list (take (nat (m' - (m + 1))) ls) + (d - 1) = k - l"
      using "2.IH" [OF False] "2.prems" False by auto
    have "nat (m' - m) = Suc (nat (m' - (m + 1)))" using IH(1) by linarith
    then show ?thesis using md IH False by simp
  qed
qed

lemma dateOfDay:
  assumes "dateOfDay n = (y, m, d)"
  shows "dayNumber y m d = n \<and> 1 \<le> m \<and> m \<le> 12 \<and> 1 \<le> d \<and> d \<le> monthLengths y ! nat (m - 1) \<and> d \<le> 31 \<and> y = yearOfDay n"
proof -
  let ?y = "yearOfDay n" and ?k = "n - daysBeforeYear (yearOfDay n)"
  have y: "y = ?y" and md: "monthOfDay (monthLengths ?y) 1 ?k = (m, d)"
    using assms by (auto simp: dateOfDay_def Let_def)
  have "0 \<le> ?k" and "?k < sum_list (monthLengths ?y)"
    using yearOfDay_bounds [of n] daysBeforeYear_Suc [of ?y] by (auto simp: sum_monthLengths)
  moreover have "\<forall>l \<in> set (monthLengths ?y). 0 < l" by (simp add: monthLengths_def)
  ultimately have *: "1 \<le> m \<and> m < 1 + int (length (monthLengths ?y)) \<and> 1 \<le> d \<and> d \<le> monthLengths ?y ! nat (m - 1) \<and>
      sum_list (take (nat (m - 1)) (monthLengths ?y)) + (d - 1) = ?k"
    using monthOfDay_sum [of ?k "monthLengths ?y" 1] md by simp
  moreover have len: "length (monthLengths ?y) = 12" by (simp add: monthLengths_def)
  moreover have "monthLengths ?y ! nat (m - 1) \<le> 31"
  proof -
    have "monthLengths ?y ! nat (m - 1) \<in> set (monthLengths ?y)" using * len by (intro nth_mem) linarith
    then show ?thesis by (auto simp: monthLengths_def)
  qed
  ultimately show ?thesis using y by (auto simp: dayNumber_def)
qed

lemma daysBeforeYear_mono: "y \<le> z \<Longrightarrow> daysBeforeYear y \<le> daysBeforeYear z"
  by (induction z rule: int_ge_induct) (auto simp: daysBeforeYear_Suc)

text \<open>Four-digit years: the days of the years 0 to 9999.\<close>

lemma yearOfDay_range:
  assumes "0 \<le> n" and "n < 3652425"
  shows "0 \<le> yearOfDay n \<and> yearOfDay n \<le> 9999"
proof -
  have z: "daysBeforeYear 0 = 0" "daysBeforeYear 10000 = 3652425" by (simp_all add: daysBeforeYear_def)
  have "\<not> yearOfDay n + 1 \<le> 0"
    using daysBeforeYear_mono [of "yearOfDay n + 1" 0] yearOfDay_bounds [of n] z assms(1) by linarith
  moreover have "\<not> 10000 \<le> yearOfDay n"
    using daysBeforeYear_mono [of 10000 "yearOfDay n"] yearOfDay_bounds [of n] z assms(2) by linarith
  ultimately show ?thesis by linarith
qed

section \<open>Strings round trip\<close>

definition digitChar :: "int \<Rightarrow> char" where
  "digitChar n = char_of (48 + nat n)"

lemma char_of_zero: "(char_of (48 :: nat) :: char) = CHR ''0''"
proof -
  have "of_char (char_of (48 :: nat) :: char) = (of_char (CHR ''0'') :: nat)" by simp
  then show ?thesis by (simp only: of_char_eq_iff)
qed

lemma digitChar: "0 \<le> n \<Longrightarrow> n < 10 \<Longrightarrow> isDigit (digitChar n) \<and> digitVal (digitChar n) = n"
  by (auto simp: isDigit_def digitVal_def digitChar_def)

lemma appendInt_2:
  assumes "0 \<le> x" and "x < 100"
  shows "appendInt x 2 = [digitChar (x div 10), digitChar (x mod 10)]"
proof -
  have "nat x div 10 < 10" using assms by linarith
  moreover have "nat (x div 10) = nat x div 10" "nat (x mod 10) = nat x mod 10"
    using assms by (simp_all add: nat_div_distrib nat_mod_distrib)
  ultimately show ?thesis
    using assms by (simp add: appendInt_def char_of_zero natDigits.simps [of "nat x"] natDigits.simps [of "nat x div 10"] digitChar_def Let_def)
qed

lemma natDigits_4:
  assumes "n < 10000"
  shows "replicate (4 - length (natDigits n)) (CHR ''0'') @ natDigits n =
     [char_of (48 + n div 10 div 10 div 10), char_of (48 + n div 10 div 10 mod 10), char_of (48 + n div 10 mod 10), char_of (48 + n mod 10)]"
proof -
  define a where "a = n div 10"
  define b where "b = a div 10"
  define c where "c = b div 10"
  have "a < 1000" using assms unfolding a_def by linarith
  then have "b < 100" unfolding b_def by linarith
  then have c: "c < 10" unfolding c_def by linarith
  have digits: "natDigits n = (if n < 10 then [char_of (48 + n)] else natDigits a @ [char_of (48 + n mod 10)])"
    "natDigits a = (if a < 10 then [char_of (48 + a)] else natDigits b @ [char_of (48 + a mod 10)])"
    "natDigits b = (if b < 10 then [char_of (48 + b)] else natDigits c @ [char_of (48 + b mod 10)])"
    "natDigits c = [char_of (48 + c)]"
    using c by (simp_all add: natDigits.simps [of n] natDigits.simps [of a] natDigits.simps [of b] natDigits.simps [of c]
        a_def [symmetric] b_def [symmetric] c_def [symmetric])
  have small: "n < 10 \<Longrightarrow> a = 0" "a < 10 \<Longrightarrow> b = 0" "b < 10 \<Longrightarrow> c = 0"
    by (simp_all add: a_def b_def c_def)
  have "replicate (4 - length (natDigits n)) (CHR ''0'') @ natDigits n =
      [char_of (48 + c), char_of (48 + b mod 10), char_of (48 + a mod 10), char_of (48 + n mod 10)]"
  proof (cases "n < 10")
    case True
    then have "a = 0" "b = 0" "c = 0" using small by auto
    then show ?thesis using True digits(1) char_of_zero by (simp add: eval_nat_numeral(3) numeral_2_eq_2)
  next
    case n: False
    show ?thesis
    proof (cases "a < 10")
      case True
      then have "b = 0" "c = 0" using small by auto
      then show ?thesis using n True digits(1,2) char_of_zero by (simp add: eval_nat_numeral(3) numeral_2_eq_2)
    next
      case a: False
      show ?thesis
      proof (cases "b < 10")
        case True
        then show ?thesis using n a digits(1-3) char_of_zero small(3) by simp
      next
        case False
        then show ?thesis using n a digits by simp
      qed
    qed
  qed
  then show ?thesis by (simp only: a_def b_def c_def)
qed

lemma appendInt_4:
  assumes "0 \<le> x" and "x < 10000"
  shows "appendInt x 4 = [digitChar (x div 10 div 10 div 10), digitChar (x div 10 div 10 mod 10), digitChar (x div 10 mod 10), digitChar (x mod 10)]"
proof -
  have x: "x = int (nat x)" using assms(1) by simp
  have "appendInt x 4 = replicate (4 - length (natDigits (nat x))) (CHR ''0'') @ natDigits (nat x)"
    using assms(1) by (simp add: appendInt_def Let_def)
  also have "\<dots> = [char_of (48 + nat x div 10 div 10 div 10), char_of (48 + nat x div 10 div 10 mod 10),
      char_of (48 + nat x div 10 mod 10), char_of (48 + nat x mod 10)]"
    using assms by (intro natDigits_4) linarith
  also have "\<dots> = [digitChar (x div 10 div 10 div 10), digitChar (x div 10 div 10 mod 10), digitChar (x div 10 mod 10), digitChar (x mod 10)]"
    using assms(1) by (simp only: digitChar_def nat_div_distrib nat_mod_distrib pos_imp_zdiv_nonneg_iff zero_less_numeral
        zero_le_numeral nat_numeral)
  finally show ?thesis .
qed

lemma getnum_appendInt:
  assumes "0 \<le> x" and "x < 100"
  shows "getnum fixed (appendInt x 2 @ s) = Some (x, s)"
proof -
  have "0 \<le> x div 10" "x div 10 < 10" "0 \<le> x mod 10" "x mod 10 < 10" using assms by auto
  then show ?thesis using assms digitChar by (simp add: appendInt_2)
qed

lemma getRange_appendInt:
  assumes "lo \<le> x" and "x \<le> hi" and "0 \<le> lo" and "hi < 100"
  shows "getRange fixed lo hi (appendInt x 2 @ s) = Some (x, s)"
  using assms by (simp add: getRange_def getnum_appendInt)

lemma getYear_appendInt:
  assumes "0 \<le> x" and "x < 10000"
  shows "getYear (appendInt x 4 @ s) = Some (x, s)"
proof -
  define a where "a = x div 10"
  define b where "b = a div 10"
  define c where "c = b div 10"
  have "0 \<le> c" using assms(1) by (simp add: a_def b_def c_def pos_imp_zdiv_nonneg_iff)
  moreover have "c < 10"
  proof -
    have "a < 1000" using assms(2) unfolding a_def by linarith
    then have "b < 100" unfolding b_def by linarith
    then show ?thesis unfolding c_def by linarith
  qed
  moreover have "0 \<le> b mod 10" "b mod 10 < 10" "0 \<le> a mod 10" "a mod 10 < 10" "0 \<le> x mod 10" "x mod 10 < 10" by simp_all
  moreover have "10 * (10 * (10 * c + b mod 10) + a mod 10) + x mod 10 = x"
  proof -
    have "10 * c + b mod 10 = b" "10 * b + a mod 10 = a" "10 * a + x mod 10 = x"
      by (simp_all add: a_def b_def c_def)
    then show ?thesis by simp
  qed
  moreover have "appendInt x 4 = [digitChar c, digitChar (b mod 10), digitChar (a mod 10), digitChar (x mod 10)]"
    unfolding appendInt_4 [OF assms] by (simp only: a_def b_def c_def)
  ultimately show ?thesis
    using digitChar by (simp add: getYear_def atoiDigits_def)
qed

lemma zone_Z: "getFraction ''Z'' = (0, ''Z'')" "getZone ''Z'' = Some (0, [])"
  by (simp_all add: getFraction_def getZone_def)

lemma ParseRFC3339_fields:
  assumes "0 \<le> y" "y < 10000" and "1 \<le> m" "m \<le> 12" and "1 \<le> d" "d < 100" "d \<le> monthLengths y ! nat (m - 1)"
    and "0 \<le> h" "h \<le> 23" and "0 \<le> mi" "mi \<le> 59" and "0 \<le> s" "s \<le> 59"
  shows "ParseRFC3339 (appendInt y 4 @ CHR ''-'' # appendInt m 2 @ CHR ''-'' # appendInt d 2 @ CHR ''T'' #
      appendInt h 2 @ CHR '':'' # appendInt mi 2 @ CHR '':'' # appendInt s 2 @ ''Z'') =
    Some (((dayNumber y m d - epochDay) * 86400 + h * 3600 + mi * 60 + s) * nanos)"
  unfolding ParseRFC3339_def
  using assms by (simp add: getYear_appendInt getRange_appendInt getnum_appendInt zone_Z)

lemma timeOfDay:
  assumes "0 \<le> sod" and "sod < (86400 :: int)"
  shows "0 \<le> sod div 3600" "sod div 3600 \<le> 23" "0 \<le> sod div 60 mod 60" "sod div 60 mod 60 \<le> 59"
    "0 \<le> sod mod 60" "sod mod 60 \<le> 59"
    "sod div 3600 * 3600 + sod div 60 mod 60 * 60 + sod mod 60 = sod"
proof -
  define q where "q = sod div 60"
  have q: "sod div 3600 = q div 60" by (simp add: q_def zdiv_zmult2_eq [symmetric])
  have "60 * (q div 60) + q mod 60 = q" "60 * q + sod mod 60 = sod" by (simp_all add: q_def)
  then show "sod div 3600 * 3600 + sod div 60 mod 60 * 60 + sod mod 60 = sod"
    unfolding q q_def [symmetric] by linarith
  show "0 \<le> sod div 3600" using assms(1) by (simp add: pos_imp_zdiv_nonneg_iff)
  have "sod div 3600 < 24" using assms(2) by (simp add: div_less_iff_less_mult)
  then show "sod div 3600 \<le> 23" by simp
  show "0 \<le> sod div 60 mod 60" "0 \<le> sod mod 60" by simp_all
  have "sod div 60 mod 60 < 60" "sod mod 60 < 60" by simp_all
  then show "sod div 60 mod 60 \<le> 59" "sod mod 60 \<le> 59" by simp_all
qed

text \<open>A formatted time parses to itself, cut to whole seconds.\<close>

lemma ParseRFC3339_Format:
  assumes "0 \<le> t" and "t < 253402300800 * nanos"
  shows "ParseRFC3339 (FormatRFC3339 t) = Some (t div nanos * nanos)"
proof -
  define secs where "secs = t div nanos"
  define day where "day = secs div 86400"
  define sod where "sod = secs mod 86400"
  obtain y m d where date: "dateOfDay (day + epochDay) = (y, m, d)" by (metis prod_cases3)
  have "0 \<le> secs" "secs < 253402300800"
    using assms by (simp_all add: secs_def nanos_def pos_imp_zdiv_nonneg_iff div_less_iff_less_mult)
  then have "0 \<le> day" "day < 2932897"
    by (simp_all add: day_def pos_imp_zdiv_nonneg_iff div_less_iff_less_mult)
  then have "0 \<le> yearOfDay (day + epochDay) \<and> yearOfDay (day + epochDay) \<le> 9999"
    by (intro yearOfDay_range) (simp_all add: epochDay_def)
  with dateOfDay [OF date] have y: "0 \<le> y" "y < 10000" and md: "1 \<le> m" "m \<le> 12" "1 \<le> d" "d < 100"
    "d \<le> monthLengths y ! nat (m - 1)" and n: "dayNumber y m d - epochDay = day" by auto
  have "0 \<le> sod" "sod < 86400" by (simp_all add: sod_def)
  note tod = timeOfDay [OF this]
  have "secs = day * 86400 + sod" by (simp add: day_def sod_def)
  then have total: "(dayNumber y m d - epochDay) * 86400 + sod div 3600 * 3600 + sod div 60 mod 60 * 60 + sod mod 60 = secs"
    unfolding n using tod(7) by linarith
  have "FormatRFC3339 t = appendInt y 4 @ CHR ''-'' # appendInt m 2 @ CHR ''-'' # appendInt d 2 @ CHR ''T'' #
      appendInt (sod div 3600) 2 @ CHR '':'' # appendInt (sod div 60 mod 60) 2 @ CHR '':'' # appendInt (sod mod 60) 2 @ ''Z''"
    unfolding FormatRFC3339_def Let_def secs_def [symmetric] day_def [symmetric] sod_def [symmetric] date by simp
  also have "ParseRFC3339 \<dots> = Some (secs * nanos)"
    unfolding ParseRFC3339_fields [OF y md tod(1-6)] total ..
  finally show ?thesis by (simp only: secs_def)
qed

end
