(* ===== verification/Gateway_Reconciler.thy ===== *)
theory Gateway_Reconciler
  imports Status_Writer Apply Go_Time
begin

text \<open>
  The reconciler, \<open>controller/internal/gateway/reconciler.go\<close>: one pass over one Gateway. It reads
  the Gateway and its class from the member cluster, validates the certificates it refers to against
  the infra cluster, provisions the agentgateway objects, refreshes Istiod, waits for the data plane
  and reports back in status.

  The two polling loops end when the context does. How often the ticker fires before that is an
  argument (\<open>ticks\<close>), so the definitions are total and every theorem holds for any such number.
\<close>

section \<open>Dependencies\<close>

record 'w deps =
  d_Tenant :: string
  d_InfraNamespace :: string
  d_Platform :: string
  d_MemberClient :: "'w client"
  d_InfraClient :: "'w client"
  d_IstiodImage :: string
  d_IstiodReplicas :: int
  d_MemberKubeconfigName :: string
  d_MemberKubeconfigKey :: string

definition agentGatewayTokenExpiration :: int where "agentGatewayTokenExpiration = 12 * 3600 * nanos"
definition agentGatewayTokenRefresh :: int where "agentGatewayTokenRefresh = 4 * 3600 * nanos"

section \<open>Ownership\<close>

text \<open>The verb \<open>%q\<close>, on strings of printable ASCII characters.\<close>

definition quote :: "string \<Rightarrow> string" where
  "quote s = CHR 0x22 # concat (map (\<lambda>c. if c = CHR 0x22 \<or> c = CHR 0x5C then [CHR 0x5C, c] else [c]) s) @ [CHR 0x22]"

definition isOurs :: "'w client \<Rightarrow> gateway \<Rightarrow> ('w, bool) fio" where
  "isOurs c gw =
     tryE (Get (gatewayClasses c) ('''', gw_GatewayClassName gw))
       (\<lambda>e. if IsNotFound e then ok False
            else fail (Wrap (''get gatewayclass '' @ quote (gw_GatewayClassName gw)) e))
       (\<lambda>gc. ok (gc_ControllerName gc = ControllerName))"

section \<open>Certificate references\<close>

definition secretObjectReferenceName :: "secretObjectReference \<Rightarrow> string option" where
  "secretObjectReferenceName ref =
     (if optOr (s_Group ref) '''' = '''' \<and> optOr (s_Kind ref) ''Secret'' = ''Secret''
      then Some (s_Name ref) else None)"

text \<open>The certificate references of a listener, and whether it needs any.\<close>

definition listenerCertificateRefs :: "listener \<Rightarrow> secretObjectReference list \<times> bool" where
  "listenerCertificateRefs l =
     (if l_Protocol l \<noteq> HTTPSProtocolType \<and> l_Protocol l \<noteq> TLSProtocolType then ([], False)
      else
        (case l_TLS l of
           None \<Rightarrow> if l_Protocol l = TLSProtocolType then ([], False) else ([], True)
         | Some tls \<Rightarrow>
             if lt_Mode tls = Some TLSModePassthrough then ([], False)
             else (lt_CertificateRefs tls, True)))"

definition gatewayTLSCertNames :: "gateway \<Rightarrow> string list" where
  "gatewayTLSCertNames gw = concat (map (\<lambda>l.
     if l_Protocol l \<noteq> HTTPSProtocolType \<and> l_Protocol l \<noteq> TLSProtocolType then []
     else
       (case l_TLS l of
          None \<Rightarrow> []
        | Some tls \<Rightarrow>
            if lt_Mode tls = Some TLSModePassthrough then []
            else List.map_filter secretObjectReferenceName (lt_CertificateRefs tls))) (gw_Listeners gw))"

definition clientCertificateRef :: "gateway \<Rightarrow> secretObjectReference option" where
  "clientCertificateRef gw =
     (case gw_TLS gw of
        None \<Rightarrow> None
      | Some tls \<Rightarrow> (case gt_Backend tls of None \<Rightarrow> None | Some b \<Rightarrow> gb_ClientCertificateRef b))"

definition gatewayBackendTLSCertNames :: "gateway \<Rightarrow> string list" where
  "gatewayBackendTLSCertNames gw =
     (case clientCertificateRef gw of
        None \<Rightarrow> []
      | Some ref \<Rightarrow> (case secretObjectReferenceName ref of None \<Rightarrow> [] | Some name \<Rightarrow> [name]))"

definition backendTLSPolicyCACertNames :: "'w client \<Rightarrow> ('w, string list) io" where
  "backendTLSPolicyCACertNames c =
     tryE (List (backendTLSPolicies c) None)
       (\<lambda>_. pureIO [])
       (\<lambda>policies. pureIO (concat (map (\<lambda>policy.
          map lo_Name (filter (\<lambda>ref. lo_Group ref = '''' \<and> lo_Kind ref = ''ConfigMap'')
            (bp_CACertificateRefs policy))) policies)))"

section \<open>Validation of certificates\<close>

definition gatewayReferenceGrantAllows :: "referenceGrant \<Rightarrow> string \<Rightarrow> string \<Rightarrow> bool" where
  "gatewayReferenceGrantAllows grant fromNamespace toName =
     list_ex (\<lambda>from.
       \<not> (rf_Group from \<noteq> GatewayGroup \<or> rf_Kind from \<noteq> ''Gateway'' \<or> rf_Namespace from \<noteq> fromNamespace) \<and>
       list_ex (\<lambda>to. rt_Group to = '''' \<and> rt_Kind to = ''Secret'' \<and>
                     (rt_Name to = None \<or> rt_Name to = Some toName)) (rg_To grant)) (rg_From grant)"

definition gatewaySecretReferencePermitted ::
  "'w client \<Rightarrow> gateway \<Rightarrow> secretObjectReference \<Rightarrow> ('w, bool) io" where
  "gatewaySecretReferencePermitted c gw ref =
     (let namespace = optOr (s_Namespace ref) (gw_Namespace gw) in
      if namespace = gw_Namespace gw then pureIO True
      else tryE (List (referenceGrants c) (Some namespace))
        (\<lambda>_. pureIO False)
        (\<lambda>grants. pureIO (list_ex (\<lambda>grant. gatewayReferenceGrantAllows grant (gw_Namespace gw) (s_Name ref)) grants)))"

definition requireInfraSecretKeys ::
  "'w client \<Rightarrow> string \<Rightarrow> string \<Rightarrow> string list \<Rightarrow> ('w, unit) fio" where
  "requireInfraSecretKeys c namespace name keys =
     tryE (Get (secrets c) (namespace, name))
       (\<lambda>e. if IsNotFound e then fail (Errorf ''infra Secret not found'') else fail e)
       (\<lambda>secret.
          case find (\<lambda>key. mapGet (sec_Data secret) key = '''') keys of
            Some key \<Rightarrow> fail (Errorf (''infra Secret missing '' @ key))
          | None \<Rightarrow> ok ())"

definition tlsKeys :: "string list" where "tlsKeys = [''tls.crt'', ''tls.key'']"

definition validateListenerRef ::
  "'w deps \<Rightarrow> gateway \<Rightarrow> listener \<Rightarrow> secretObjectReference \<Rightarrow> ('w, unit) fio" where
  "validateListenerRef d gw l ref =
     (case secretObjectReferenceName ref of
        None \<Rightarrow> fail (ListenerRefsError (l_Name l) ''InvalidCertificateRef''
                  (''certificateRef '' @ s_Name ref @ '' must reference a core Secret''))
      | Some name \<Rightarrow>
          State_Monad.bind (gatewaySecretReferencePermitted (d_MemberClient d) gw ref) (\<lambda>permitted.
            if \<not> permitted then
              fail (ListenerRefsError (l_Name l) ''RefNotPermitted''
                (''certificateRef '' @ s_Name ref @ '' is not permitted''))
            else
              bindE (requireInfraSecretKeys (d_InfraClient d) (d_InfraNamespace d) name tlsKeys)
                (\<lambda>e. ListenerRefsError (l_Name l) ''InvalidCertificateRef''
                   (''certificateRef '' @ s_Name ref @ '': '' @ Error e))
                ok))"

definition validateListener :: "'w deps \<Rightarrow> gateway \<Rightarrow> listener \<Rightarrow> ('w, unit) fio" where
  "validateListener d gw l =
     (case listenerCertificateRefs l of (refs, required) \<Rightarrow>
        if \<not> required then ok ()
        else if refs = [] then
          fail (ListenerRefsError (l_Name l) ''InvalidCertificateRef'' ''Listener requires a certificateRef'')
        else forE (validateListenerRef d gw l) refs)"

definition validateClientCertificate :: "'w deps \<Rightarrow> gateway \<Rightarrow> ('w, unit) fio" where
  "validateClientCertificate d gw =
     (case clientCertificateRef gw of
        None \<Rightarrow> ok ()
      | Some ref \<Rightarrow>
          (case secretObjectReferenceName ref of
             None \<Rightarrow> fail (Errorf (''backend clientCertificateRef '' @ s_Name ref @ '' must reference a core Secret''))
           | Some name \<Rightarrow>
               State_Monad.bind (gatewaySecretReferencePermitted (d_MemberClient d) gw ref) (\<lambda>permitted.
                 if \<not> permitted then
                   fail (Errorf (''backend clientCertificateRef '' @ s_Name ref @ '' is not permitted''))
                 else
                   bindE (requireInfraSecretKeys (d_InfraClient d) (d_InfraNamespace d) name tlsKeys)
                     (Wrap (''backend clientCertificateRef '' @ s_Name ref)) ok)))"

definition validateGatewayTLSAssets :: "'w deps \<Rightarrow> gateway \<Rightarrow> ('w, unit) fio" where
  "validateGatewayTLSAssets d gw =
     bindE (forE (validateListener d gw) (gw_Listeners gw)) id (\<lambda>_. validateClientCertificate d gw)"

section \<open>Waiting for the data plane\<close>

text \<open>One turn of a loop; \<open>again\<close> is what follows the \<open>select\<close>.\<close>

definition pollAvailable :: "'w client \<Rightarrow> nname \<Rightarrow> ('w, bool) fio \<Rightarrow> ('w, bool) fio" where
  "pollAvailable c key again =
     tryE (Get (deployments c) key)
       (\<lambda>e. if \<not> IsNotFound e then fail e else again)
       (\<lambda>dep. if dep_AvailableReplicas dep \<ge> 1 then ok True else again)"

primrec waitForAgentGatewayAvailable :: "'w client \<Rightarrow> nname \<Rightarrow> nat \<Rightarrow> ('w, bool) fio" where
  "waitForAgentGatewayAvailable c key 0 = pollAvailable c key (ok False)"
| "waitForAgentGatewayAvailable c key (Suc ticks) =
     pollAvailable c key (waitForAgentGatewayAvailable c key ticks)"

definition serviceGatewayAddresses :: "service \<Rightarrow> gatewayStatusAddress list" where
  "serviceGatewayAddresses svc = concat (map (\<lambda>ingress.
     (if lb_IP ingress \<noteq> '''' then [\<lparr>ga_Type = Some IPAddressType, ga_Value = lb_IP ingress\<rparr>] else []) @
     (if lb_Hostname ingress \<noteq> '''' then [\<lparr>ga_Type = Some HostnameAddressType, ga_Value = lb_Hostname ingress\<rparr>] else []))
     (svc_Ingress svc))"

definition pollAddresses ::
  "'w client \<Rightarrow> nname \<Rightarrow> ('w, gatewayStatusAddress list) fio \<Rightarrow> ('w, gatewayStatusAddress list) fio" where
  "pollAddresses c key again =
     tryE (Get (services c) key)
       (\<lambda>e. if \<not> IsNotFound e then fail e else again)
       (\<lambda>svc. let addresses = serviceGatewayAddresses svc in if addresses \<noteq> [] then ok addresses else again)"

primrec waitForAgentGatewayAddresses ::
  "'w client \<Rightarrow> nname \<Rightarrow> nat \<Rightarrow> ('w, gatewayStatusAddress list) fio" where
  "waitForAgentGatewayAddresses c key 0 = pollAddresses c key (ok [])"
| "waitForAgentGatewayAddresses c key (Suc ticks) =
     pollAddresses c key (waitForAgentGatewayAddresses c key ticks)"

section \<open>The member token\<close>

definition tokenSecretCurrent :: "secret \<Rightarrow> int \<Rightarrow> bool" where
  "tokenSecretCurrent secret now =
     (if mapGet (sec_Data secret) ''token'' = '''' then False
      else
        (case m_Annotations (sec_Meta secret) MemberTokenExpirationAnnotation of
           None \<Rightarrow> False
         | Some expires \<Rightarrow>
             if expires = '''' then False
             else (case ParseRFC3339 expires of
                     None \<Rightarrow> False
                   | Some expiration \<Rightarrow> expiration > now + agentGatewayTokenRefresh)))"

definition memberServiceAccount :: "'w deps \<Rightarrow> gateway \<Rightarrow> serviceAccount" where
  "memberServiceAccount d gw =
     \<lparr>sa_Meta = emptyMeta\<lparr>m_Name := AgentGatewayServiceAccount, m_Namespace := gw_Namespace gw,
        m_Labels := [ManagedByLabel \<mapsto> ManagedByValue, TenantLabel \<mapsto> d_Tenant d]\<rparr>\<rparr>"

definition tokenSecret :: "'w deps \<Rightarrow> gateway \<Rightarrow> string \<Rightarrow> string \<Rightarrow> secret" where
  "tokenSecret d gw token expires =
     \<lparr>sec_Meta = emptyMeta\<lparr>m_Name := AgentGatewayTokenSecretName gw, m_Namespace := d_InfraNamespace d,
        m_Labels := AgentGatewayLabels (d_Tenant d) gw,
        m_Annotations := (AgentGatewayAnnotations gw)(MemberTokenExpirationAnnotation \<mapsto> expires)\<rparr>,
      sec_Type = ''Opaque'', sec_Data = Map.empty, sec_StringData = [''token'' \<mapsto> token]\<rparr>"

text \<open>
  The request of a new token, after the check of the stored one. The token subresource reads the name and the namespace of
  the account only, so it is passed as constructed.
\<close>

definition requestMemberToken :: "'w deps \<Rightarrow> gateway \<Rightarrow> ('w, string) fio" where
  "requestMemberToken d gw =
     bindE (createToken (d_MemberClient d) (memberServiceAccount d gw) [''istio-ca'']
              (agentGatewayTokenExpiration div nanos))
       (Wrap ''create member agentgateway token'') (\<lambda>status.
     if tr_Token status = '''' then fail (Errorf ''create member agentgateway token: empty token'')
     else
       (case tr_ExpirationTimestamp status of
          None \<Rightarrow> fail (Errorf ''create member agentgateway token: empty expiration'')
        | Some t \<Rightarrow>
            (let expires = FormatRFC3339 t in
             bindE (Apply (d_InfraClient d) (OSecret (tokenSecret d gw (tr_Token status) expires)))
               (Wrap ''apply infra agentgateway token secret'') (\<lambda>_. ok expires))))"

definition ensureAgentGatewayMemberToken :: "'w lib \<Rightarrow> 'w deps \<Rightarrow> gateway \<Rightarrow> ('w, string) fio" where
  "ensureAgentGatewayMemberToken L d gw =
     bindE (Apply (d_MemberClient d) (OServiceAccount (memberServiceAccount d gw)))
       (Wrap ''apply member agentgateway serviceaccount'') (\<lambda>_.
     tryE (Get (secrets (d_InfraClient d)) (d_InfraNamespace d, AgentGatewayTokenSecretName gw))
       (\<lambda>e. if \<not> IsNotFound e then fail (Wrap ''get infra agentgateway token secret'' e)
            else requestMemberToken d gw)
       (\<lambda>existing. State_Monad.bind (Now L) (\<lambda>now.
          if tokenSecretCurrent existing now then
            ok (mapGet (m_Annotations (sec_Meta existing)) MemberTokenExpirationAnnotation)
          else requestMemberToken d gw)))"

section \<open>Deletion\<close>

definition deleteManagedGatewayObject :: "'w client \<Rightarrow> clientObject \<Rightarrow> nname \<Rightarrow> ('w, unit) fio" where
  "deleteManagedGatewayObject c obj key =
     tryE (objGet c obj (keyOf (objMeta obj)))
       (\<lambda>e. if IsNotFound e then ok () else fail e)
       (\<lambda>obj.
          if mapGet (GetLabels obj) ManagedByLabel \<noteq> ManagedByValue then ok ()
          else
            (let ns = mapGet (GetAnnotations obj) GatewayNSAnnotation;
                 name = mapGet (GetAnnotations obj) GatewayNameAnnotation
             in if ns \<noteq> '''' \<and> ns \<noteq> fst key then ok ()
                else if name \<noteq> '''' \<and> name \<noteq> snd key then ok ()
                else objDelete c obj))"

definition stubGateway :: "nname \<Rightarrow> gateway" where
  "stubGateway key =
     \<lparr>gw_Meta = emptyMeta\<lparr>m_Namespace := fst key, m_Name := snd key\<rparr>, gw_GatewayClassName = '''',
      gw_Listeners = [], gw_TLS = None, gw_Status = emptyGatewayStatus\<rparr>"

definition stubParams :: "'w deps \<Rightarrow> nname \<Rightarrow> gatewayParams" where
  "stubParams d key =
     \<lparr>gp_Tenant = '''', gp_InfraNamespace = d_InfraNamespace d, gp_Platform = d_Platform d,
      gp_Gateway = stubGateway key, gp_Image = '''', gp_IstiodDNS = '''', gp_IstiodPort = 0, gp_TokenExpiration = ''''\<rparr>"

definition stubTokenSecret :: "'w deps \<Rightarrow> nname \<Rightarrow> secret" where
  "stubTokenSecret d key =
     \<lparr>sec_Meta = emptyMeta\<lparr>m_Name := AgentGatewayTokenSecretName (stubGateway key), m_Namespace := d_InfraNamespace d\<rparr>,
      sec_Type = '''', sec_Data = Map.empty, sec_StringData = Map.empty\<rparr>"

definition deleteAgentGateway :: "'w deps \<Rightarrow> nname \<Rightarrow> ('w, unit) fio" where
  "deleteAgentGateway d key =
     bindE (deleteManagedGatewayObject (d_InfraClient d) (ODeployment (AgentGatewayDeployment (stubParams d key))) key)
       (Wrap ''delete deployment'') (\<lambda>_.
     bindE (deleteManagedGatewayObject (d_InfraClient d) (OService (AgentGatewayService (stubParams d key))) key)
       (Wrap ''delete service'') (\<lambda>_.
     bindE (deleteManagedGatewayObject (d_InfraClient d) (OSecret (stubTokenSecret d key)) key)
       (Wrap ''delete token secret'') ok))"

section \<open>Istiod\<close>

fun istiodCertNames :: "'w client \<Rightarrow> gateway list \<Rightarrow> ('w, string list) fio" where
  "istiodCertNames c [] = ok []"
| "istiodCertNames c (gw # gws) =
     bindE (isOurs c gw) id (\<lambda>ours.
     bindE (istiodCertNames c gws) id (\<lambda>rest.
     ok ((if ours then gatewayTLSCertNames gw @ gatewayBackendTLSCertNames gw else []) @ rest)))"

definition istiodParamsOf :: "'w deps \<Rightarrow> string list \<Rightarrow> istiodParams" where
  "istiodParamsOf d certs =
     \<lparr>ip_Tenant = d_Tenant d, ip_Namespace = d_InfraNamespace d, ip_Platform = d_Platform d,
      ip_Image = d_IstiodImage d, ip_Replicas = d_IstiodReplicas d,
      ip_MemberKubeconfigName = d_MemberKubeconfigName d, ip_MemberKubeconfigKey = d_MemberKubeconfigKey d,
      ip_TLSCertNames = certs\<rparr>"

definition RefreshIstiod :: "'w deps \<Rightarrow> ('w, unit) fio" where
  "RefreshIstiod d =
     (if d_MemberKubeconfigName d = '''' then ok ()
      else
        bindE (List (gateways (d_MemberClient d)) None) (Wrap ''list gateways'') (\<lambda>gws.
        bindE (istiodCertNames (d_MemberClient d) gws) id (\<lambda>certs.
        State_Monad.bind (backendTLSPolicyCACertNames (d_MemberClient d)) (\<lambda>cas.
        bindE (Apply (d_InfraClient d) (ODeployment (IstiodDeployment (istiodParamsOf d (certs @ cas)))))
          (Wrap ''apply istiod deployment'') ok))))"

section \<open>Reconcile\<close>

definition gatewayParamsOf :: "'w deps \<Rightarrow> gateway \<Rightarrow> string \<Rightarrow> gatewayParams" where
  "gatewayParamsOf d gw expires =
     \<lparr>gp_Tenant = d_Tenant d, gp_InfraNamespace = d_InfraNamespace d, gp_Platform = d_Platform d,
      gp_Gateway = gw, gp_Image = '''', gp_IstiodDNS = '''', gp_IstiodPort = 0, gp_TokenExpiration = expires\<rparr>"

text \<open>The apply calls, in order.\<close>

definition provision :: "'w lib \<Rightarrow> 'w deps \<Rightarrow> gateway \<Rightarrow> ('w, unit) fio" where
  "provision L d gw =
     bindE (Apply (d_InfraClient d) (OServiceAccount (AgentGatewayServiceAccountObject (gatewayParamsOf d gw ''''))))
       (Wrap ''apply agentgateway serviceaccount'') (\<lambda>_.
     bindE (ensureAgentGatewayMemberToken L d gw) id (\<lambda>tokenExpiration.
     bindE (Apply (d_InfraClient d) (ODeployment (AgentGatewayDeployment (gatewayParamsOf d gw tokenExpiration))))
       (Wrap ''apply agentgateway deployment'') (\<lambda>_.
     bindE (Apply (d_InfraClient d) (OService (AgentGatewayService (gatewayParamsOf d gw tokenExpiration))))
       (Wrap ''apply agentgateway service'') ok)))"

text \<open>The rest of the pass: wait for the Deployment and the addresses, then report.\<close>

definition publish :: "'w lib \<Rightarrow> 'w deps \<Rightarrow> nname \<Rightarrow> gateway \<Rightarrow> nat \<times> nat \<Rightarrow> ('w, unit) fio" where
  "publish L d key gw ticks =
     (let objKey = (d_InfraNamespace d, AgentGatewayObjectName gw) in
      bindE (waitForAgentGatewayAvailable (d_InfraClient d) objKey (fst ticks))
        (Wrap ''wait for agentgateway deployment'') (\<lambda>ready.
      if \<not> ready then fail (Errorf (''agentgateway deployment '' @ keyString objKey @ '' not ready''))
      else
        bindE (waitForAgentGatewayAddresses (d_InfraClient d) objKey (snd ticks))
          (Wrap ''wait for agentgateway service address'') (\<lambda>addresses.
        if addresses = [] then
          fail (Errorf (''agentgateway service '' @ keyString objKey @ '' has no loadbalancer address''))
        else
          tryE (Get (gateways (d_MemberClient d)) key)
            (\<lambda>_. ok ())
            (\<lambda>fresh.
               State_Monad.bind (MarkProgrammed L (d_MemberClient d) fresh addresses) (\<lambda>_.
               State_Monad.bind (MarkRoutesAccepted L (d_MemberClient d) fresh) (\<lambda>_. ok ()))))))"

definition validated :: "'w lib \<Rightarrow> 'w deps \<Rightarrow> gateway \<Rightarrow> ('w, unit) fio" where
  "validated L d gw =
     tryE (validateGatewayTLSAssets d gw)
       (\<lambda>e. case asListenerRefsError e of
              None \<Rightarrow> fail e
            | Some (l, reason, message) \<Rightarrow>
                bindE (MarkListenerResolvedRefs L (d_MemberClient d) gw l ConditionFalse reason message)
                  (Wrap ''write listener resolved refs status'') (\<lambda>_. fail e))
       ok"

definition cleanUp :: "'w deps \<Rightarrow> nname \<Rightarrow> ('w, unit) fio" where
  "cleanUp d key = bindE (deleteAgentGateway d key) id (\<lambda>_. RefreshIstiod d)"

definition Reconcile :: "'w lib \<Rightarrow> 'w deps \<Rightarrow> nname \<Rightarrow> nat \<times> nat \<Rightarrow> ('w, unit) fio" where
  "Reconcile L d key ticks =
     tryE (Get (gateways (d_MemberClient d)) key)
       (\<lambda>e. if IsNotFound e then cleanUp d key else fail (Wrap ''get gateway'' e))
       (\<lambda>gw.
          bindE (isOurs (d_MemberClient d) gw) id (\<lambda>handled.
          if \<not> handled then cleanUp d key
          else
            bindE (MarkAccepted L (d_MemberClient d) gw) (Wrap ''write accepted status'') (\<lambda>_.
            bindE (validated L d gw) id (\<lambda>_.
            bindE (provision L d gw) id (\<lambda>_.
            State_Monad.bind (RefreshIstiod d) (\<lambda>_.
            publish L d key gw ticks))))))"

end
