(* ===== verification/Event_Handlers.thy ===== *)
theory Event_Handlers
  imports Gateway_Reconciler
begin

text \<open>
  The rest of \<open>controller/internal/membercluster/handler.go\<close>: the retry loops, the GatewayClass
  processor with its in-flight set, and the informer handlers. A handler is the list of keys it hands
  to its \<open>process\<close> function, in order.
\<close>

section \<open>Retries\<close>

text \<open>
  The loop of both processors: up to \<open>n\<close> more attempts, the first success ends it, and so does the
  parent context when it is done while the loop waits between attempts. \<open>m i\<close> is the attempt with \<open>i\<close>
  further ones left; \<open>parentDone\<close> is the outcome of the \<open>select\<close>.
\<close>

primrec attemptLoop :: "(nat \<Rightarrow> ('w, unit) fio) \<Rightarrow> ('w, bool) io \<Rightarrow> nat \<Rightarrow> ('w, unit) io" where
  "attemptLoop m parentDone 0 = pureIO ()"
| "attemptLoop m parentDone (Suc n) =
     tryE (m n)
       (\<lambda>_. State_Monad.bind parentDone (\<lambda>d. if d then pureIO () else attemptLoop m parentDone n))
       (\<lambda>_. pureIO ())"

definition reconcileWithRetries ::
  "'w lib \<Rightarrow> 'w deps \<Rightarrow> (nat \<Rightarrow> nat \<times> nat) \<Rightarrow> ('w, bool) io \<Rightarrow> nname \<Rightarrow> ('w, unit) io" where
  "reconcileWithRetries L d ticks parentDone key = attemptLoop (\<lambda>i. Reconcile L d key (ticks i)) parentDone 3"

section \<open>GatewayClass\<close>

definition reconcileGatewayClass :: "'w lib \<Rightarrow> 'w client \<Rightarrow> string \<Rightarrow> ('w, unit) fio" where
  "reconcileGatewayClass L c name =
     tryE (Get (gatewayClasses c) ('''', name))
       (\<lambda>e. if IsNotFound e then ok () else fail e)
       (\<lambda>gc. if gc_ControllerName gc \<noteq> ControllerName then ok () else MarkGatewayClassAccepted L c gc)"

definition gatewayClassWorker :: "'w lib \<Rightarrow> 'w client \<Rightarrow> ('w, bool) io \<Rightarrow> string \<Rightarrow> ('w, unit) io" where
  "gatewayClassWorker L c parentDone name = attemptLoop (\<lambda>_. reconcileGatewayClass L c name) parentDone 3"

text \<open>
  The class processor: the names in flight, and for each goroutine whether it has started to reconcile.
  An event for a name in flight is dropped; the deferred delete ends a goroutine.
\<close>

record classProcessor =
  inflight :: "string set"
  classStarted :: "string \<rightharpoonup> bool"

definition processClass :: "string \<Rightarrow> classProcessor \<Rightarrow> classProcessor" where
  "processClass name p =
     (if name = '''' then p
      else if name \<in> inflight p then p
      else p\<lparr>inflight := insert name (inflight p), classStarted := (classStarted p)(name \<mapsto> False)\<rparr>)"

datatype classLabel = ClassEvent string | ClassStart string | ClassDone string

inductive classStep :: "classProcessor \<Rightarrow> classLabel \<Rightarrow> classProcessor \<Rightarrow> bool" where
  "classStep p (ClassEvent n) (processClass n p)"
| "classStarted p n = Some False \<Longrightarrow> classStep p (ClassStart n) (p\<lparr>classStarted := (classStarted p)(n \<mapsto> True)\<rparr>)"
| "classStarted p n = Some True \<Longrightarrow>
   classStep p (ClassDone n) (p\<lparr>inflight := inflight p - {n}, classStarted := (classStarted p)(n := None)\<rparr>)"

inductive classReach :: "classLabel list \<Rightarrow> classProcessor \<Rightarrow> bool" where
  "classReach [] \<lparr>inflight = {}, classStarted = Map.empty\<rparr>"
| "classReach tr p \<Longrightarrow> classStep p l p' \<Longrightarrow> classReach (l # tr) p'"

section \<open>Informer handlers\<close>

text \<open>What an informer passes: an object, a tombstone around one, or something else.\<close>

datatype informerObject = KubeObject objectMeta | DeletedFinalStateUnknown informerObject | NotAnObject

datatype informerEvent =
    AddEvent informerObject
  | UpdateEvent informerObject informerObject
  | DeleteEvent informerObject

fun objectChanged :: "informerObject \<Rightarrow> informerObject \<Rightarrow> bool" where
  "objectChanged (KubeObject old) (KubeObject new) =
     (if m_Generation old \<noteq> m_Generation new then True else m_Deleting old \<noteq> m_Deleting new)"
| "objectChanged old new = True"

fun objectKey :: "informerObject \<Rightarrow> nname list" where
  "objectKey (KubeObject m) = [keyOf m]"
| "objectKey x = []"

fun unwrapTombstone :: "informerObject \<Rightarrow> informerObject" where
  "unwrapTombstone (DeletedFinalStateUnknown x) = x"
| "unwrapTombstone x = x"

fun newGatewayHandler :: "informerEvent \<Rightarrow> nname list" where
  "newGatewayHandler (AddEvent x) = objectKey x"
| "newGatewayHandler (UpdateEvent old new) = (if \<not> objectChanged old new then [] else objectKey new)"
| "newGatewayHandler (DeleteEvent x) = objectKey (unwrapTombstone x)"

fun newGatewayClassHandler :: "informerEvent \<Rightarrow> string list" where
  "newGatewayClassHandler (AddEvent x) = map snd (objectKey x)"
| "newGatewayClassHandler (UpdateEvent old new) = (if \<not> objectChanged old new then [] else map snd (objectKey new))"
| "newGatewayClassHandler (DeleteEvent x) = []"

definition enqueueAllGateways :: "'w client \<Rightarrow> ('w, nname list) io" where
  "enqueueAllGateways c =
     tryE (List (gateways c) None) (\<lambda>_. pureIO []) (\<lambda>gws. pureIO (map (\<lambda>gw. keyOf (gw_Meta gw)) gws))"

text \<open>The periodic refresh, for the ticks before the context ends.\<close>

primrec startGatewayPeriodicRefresh :: "'w client \<Rightarrow> nat \<Rightarrow> ('w, nname list) io" where
  "startGatewayPeriodicRefresh c 0 = pureIO []"
| "startGatewayPeriodicRefresh c (Suc ticks) =
     State_Monad.bind (enqueueAllGateways c) (\<lambda>ks.
     State_Monad.bind (startGatewayPeriodicRefresh c ticks) (\<lambda>ks'. pureIO (ks @ ks')))"

fun newGatewayRefreshHandler :: "'w client \<Rightarrow> informerEvent \<Rightarrow> ('w, nname list) io" where
  "newGatewayRefreshHandler c (AddEvent x) = enqueueAllGateways c"
| "newGatewayRefreshHandler c (UpdateEvent old new) =
     (if objectChanged old new then enqueueAllGateways c else pureIO [])"
| "newGatewayRefreshHandler c (DeleteEvent x) = enqueueAllGateways c"

end
