(* ===== verification/Traced_Reads.thy ===== *)
theory Traced_Reads
  imports Gateway_Reconciler
begin

text \<open>
  What a traced reconcile logs. The interface \<open>read_guard\<close> is a guard that allows every read; the
  computations that only read keep any such log guarded.
\<close>

section \<open>Computations that only read\<close>

definition clock_law :: "('w \<times> event list) lib \<Rightarrow> bool" where
  "clock_law L \<longleftrightarrow> (\<forall>s. snd (snd (run_state (Now L) s)) = snd s)"

locale read_guard =
  fixes g :: guard
  assumes got_object: "g es (GotObject k key x)"
    and got_gateway: "g es (GotGateway key gw)"
begin

lemma now [valid_intros]: "clock_law L \<Longrightarrow> stable F \<Longrightarrow> preserves (logged g F) (Now L)"
proof (rule validI)
  fix s x s'
  assume clock: "clock_law L" and "logged g F s" and "run_state (Now L) s = (x, s')"
  moreover from this have "snd s' = snd s" by (metis clock_law_def snd_conv)
  ultimately show "logged g F s'" by (simp add: logged_def)
qed

lemma reads_nothing: "stable F \<Longrightarrow> preserves (logged g F) (logging (\<lambda>_. []) m)"
  by (rule valid_logging_none)

lemma reads_silently: "preserves (logged g F) (logging (\<lambda>r. case r of Inl e \<Rightarrow> [] | Inr x \<Rightarrow> []) m)"
  by (auto simp: valid_def logged_def split: prod.splits sum.splits)

lemma reads_object:
  assumes "stable F"
  shows "valid (logged g F) (Get (tracedObjects k f res) key)
    (\<lambda>r. logged g (\<lambda>es. F es \<and> (case r of Inl e \<Rightarrow> True | Inr x \<Rightarrow> GotObject k key (f x) \<in> set es)))"
  unfolding tracedObjects_def tracedResource_simps
  by (rule valid_logging_got) (use assms got_object in auto)

lemma reads_gateway:
  assumes "stable F"
  shows "valid (logged g F) (Get (gateways (traced k c)) key)
    (\<lambda>r. logged g (\<lambda>es. F es \<and> (case r of Inl e \<Rightarrow> True | Inr x \<Rightarrow> GotGateway key x \<in> set es)))"
  unfolding traced_simps tracedStatus_def tracedResource_simps
  by (rule valid_logging_got) (use assms got_gateway in auto)

lemma get_object [valid_intros]: "stable F \<Longrightarrow> preserves (logged g F) (Get (tracedObjects k f res) key)"
  by (rule valid_post [OF reads_object]) (auto elim: logged_weaken)

lemma get_gateway [valid_intros]: "stable F \<Longrightarrow> preserves (logged g F) (Get (gateways (traced k c)) key)"
  by (rule valid_post [OF reads_gateway]) (auto elim: logged_weaken)

lemma get_silent [valid_intros]:
  "stable F \<Longrightarrow> preserves (logged g F) (Get (tracedStatus (\<lambda>_ _. []) st res) key)"
  unfolding tracedStatus_def tracedResource_simps by (rule reads_silently)

lemma list_status [valid_intros]: "stable F \<Longrightarrow> preserves (logged g F) (List (tracedStatus get st res) ns)"
  unfolding tracedStatus_def tracedResource_simps by (rule reads_nothing)

lemma isOurs [valid_intros]: "stable F \<Longrightarrow> preserves (logged g F) (isOurs (traced k c) gw)"
  unfolding isOurs_def traced_simps by (intro valid_intros)

lemma gatewaySecretReferencePermitted [valid_intros]:
  "stable F \<Longrightarrow> preserves (logged g F) (gatewaySecretReferencePermitted (traced k c) gw ref)"
  unfolding gatewaySecretReferencePermitted_def Let_def traced_simps by (intro valid_intros)

lemma referencePermitted [valid_intros]:
  "stable F \<Longrightarrow> preserves (logged g F) (referencePermitted (traced k c) a b e h i j l)"
  unfolding referencePermitted_def traced_simps by (intro valid_intros)

lemma backendTLSPolicyCACertNames [valid_intros]:
  "stable F \<Longrightarrow> preserves (logged g F) (backendTLSPolicyCACertNames (traced k c))"
  unfolding backendTLSPolicyCACertNames_def traced_simps by (intro valid_intros)

lemma istiodCertNames [valid_intros]:
  "stable F \<Longrightarrow> preserves (logged g F) (istiodCertNames (traced k c) gws)"
  by (induction gws) (auto intro!: valid_intros)

lemma listenerAllowsRoute [valid_intros]:
  "stable F \<Longrightarrow> preserves (logged g F) (listenerAllowsRoute L (traced k c) l a b kind)"
  unfolding listenerAllowsRoute_def listenerAllowsNamespace_def traced_simps
  by (auto intro!: valid_intros split: option.splits sum.splits)

lemma routeAcceptedByGateway [valid_intros]:
  assumes "stable F"
  shows "preserves (logged g F) (routeAcceptedByGateway L (traced k c) ref ns hs gw kind)"
proof -
  have loop: "preserves (logged g F) (acceptLoop allows ref hs kind ls m h)"
    if "\<And>l. preserves (logged g F) (allows l)" for allows ls m h
    using that by (induction ls arbitrary: m h) (auto intro!: valid_intros)
  show ?thesis
    unfolding routeAcceptedByGateway_def by (intro loop listenerAllowsRoute assms)
qed

lemma backendRefsResolved [valid_intros]:
  "stable F \<Longrightarrow> preserves (logged g F) (backendRefsResolved (traced k c) ns kind refs)"
  by (induction refs) (auto intro!: valid_intros simp: Let_def split: option.splits)

lemma parentStatusLoop:
  assumes "\<And>ref. preserves P (accept ref)"
  shows "preserves P (parentStatusLoop accept ns gw v t gen refs)"
  using assms by (induction refs) (auto intro!: valid_intros)

lemma routeStamp [valid_intros]:
  "clock_law L \<Longrightarrow> stable F \<Longrightarrow> preserves (logged g F) (routeStamp L (traced k c) gw kind backendRefs r)"
  unfolding routeStamp_def routeParentStatuses_def
  by (intro valid_intros parentStatusLoop)

text \<open>A status writer keeps the log guarded when the guard allows the objects it can store.\<close>

lemma updateStatus:
  assumes "retry_law (RetryOnConflict L)" and "stable F" and "\<And>x. preserves (logged g F) (compute x)"
    and "\<And>es x. F es \<Longrightarrow> g es (st x)"
  shows "preserves (logged g F) (updateStatus L (tracedStatus (\<lambda>_ _. []) st res) key compute)"
proof -
  have "preserves (logged g F) (StatusUpdate (tracedStatus (\<lambda>_ _. []) st res) x)" for x
    unfolding tracedStatus_def tracedResource_simps using assms(2,4) by (rule valid_logging_one)
  then show ?thesis
    unfolding updateStatus_def using assms(2,3) by (intro preserves_retry [OF assms(1)] valid_intros)
qed

lemma stampGateway:
  assumes retries: "retry_law (RetryOnConflict L)" and clock: "clock_law L" and "stable F"
    and "\<And>es x t. F es \<Longrightarrow> GotGateway key x \<in> set es \<Longrightarrow> g es (WriteGatewayStatus (stamp t x))"
  shows "preserves (logged g F) (stampStatus L (gateways (traced k c)) key stamp)"
proof -
  have "valid (logged g F) (bindE (Get (gateways (traced k c)) key) id (\<lambda>x.
      bindE (State_Monad.bind (Now L) (\<lambda>now. ok (stamp now x))) id
        (\<lambda>y. if y = x then ok () else StatusUpdate (gateways (traced k c)) y))) (\<lambda>_. logged g F)"
  proof (rule valid_bindE [OF reads_gateway [OF assms(3)]])
    fix x
    let ?F = "\<lambda>es. F es \<and> GotGateway key x \<in> set es"
    have st: "stable ?F" using assms(3) by auto
    have "valid (logged g (\<lambda>es. ?F es \<and> (\<exists>t. y = stamp t x)))
        (if y = x then ok () else StatusUpdate (gateways (traced k c)) y) (\<lambda>_. logged g F)" for y
    proof (cases "\<exists>t. y = stamp t x")
      case True
      then have "preserves (logged g ?F) (StatusUpdate (gateways (traced k c)) y)"
        unfolding traced_simps tracedStatus_def tracedResource_simps
        using assms(4) by (intro valid_logging_one [OF st]) auto
      then have "preserves (logged g ?F) (if y = x then ok () else StatusUpdate (gateways (traced k c)) y)"
        by (intro valid_intros)
      then show ?thesis using True by (auto elim!: valid_post logged_weaken)
    next
      case False
      then show ?thesis by (simp add: valid_def logged_def)
    qed
    moreover have "valid (logged g ?F) (State_Monad.bind (Now L) (\<lambda>now. ok (stamp now x)))
        (\<lambda>r. logged g (\<lambda>es. ?F es \<and> (\<exists>t. r = Inr (stamp t x))))"
      by (rule valid_bind [OF now [OF clock st]]) (auto simp: valid_def logged_def)
    ultimately have "valid (logged g ?F) (bindE (State_Monad.bind (Now L) (\<lambda>now. ok (stamp now x))) id
        (\<lambda>y. if y = x then ok () else StatusUpdate (gateways (traced k c)) y)) (\<lambda>_. logged g F)"
      by (intro valid_bindE [where R = "\<lambda>r. logged g (\<lambda>es. ?F es \<and> (\<exists>t. r = Inr (stamp t x)))"])
        (auto simp: logged_def)
    then show "valid (logged g (\<lambda>es. F es \<and> (case Inr x of Inl e \<Rightarrow> True | Inr x \<Rightarrow> GotGateway key x \<in> set es)))
        (bindE (State_Monad.bind (Now L) (\<lambda>now. ok (stamp now x))) id
          (\<lambda>y. if y = x then ok () else StatusUpdate (gateways (traced k c)) y)) (\<lambda>_. logged g F)" by simp
  qed (auto elim: logged_weaken)
  then show ?thesis
    unfolding stampStatus_def updateStatus_def by (rule preserves_retry [OF retries])
qed

end

end
