(* ===== verification/Reconciler_Trace.thy ===== *)
theory Reconciler_Trace
  imports Traced_Reads
begin

text \<open>
  The guard of a reconcile: which call may follow which history, and the proof that every call
  \<open>Reconcile\<close> makes is allowed by it, whatever the two API servers answer.
\<close>

section \<open>The guard\<close>

definition tracedDeps :: "'w deps \<Rightarrow> ('w \<times> event list) deps" where
  "tracedDeps d = \<lparr>d_Tenant = d_Tenant d, d_InfraNamespace = d_InfraNamespace d, d_Platform = d_Platform d,
     d_MemberClient = traced Member (d_MemberClient d), d_InfraClient = traced Infra (d_InfraClient d),
     d_IstiodImage = d_IstiodImage d, d_IstiodReplicas = d_IstiodReplicas d,
     d_MemberKubeconfigName = d_MemberKubeconfigName d, d_MemberKubeconfigKey = d_MemberKubeconfigKey d\<rparr>"

lemma tracedDeps_simps [simp]:
  "d_Tenant (tracedDeps d) = d_Tenant d" "d_InfraNamespace (tracedDeps d) = d_InfraNamespace d"
  "d_Platform (tracedDeps d) = d_Platform d" "d_MemberKubeconfigName (tracedDeps d) = d_MemberKubeconfigName d"
  "d_MemberKubeconfigKey (tracedDeps d) = d_MemberKubeconfigKey d" "d_IstiodImage (tracedDeps d) = d_IstiodImage d"
  "d_IstiodReplicas (tracedDeps d) = d_IstiodReplicas d"
  "d_MemberClient (tracedDeps d) = traced Member (d_MemberClient d)"
  "d_InfraClient (tracedDeps d) = traced Infra (d_InfraClient d)"
  by (simp_all add: tracedDeps_def)

text \<open>A certificate was checked: the infra Secret was read and has both keys.\<close>

definition certChecked :: "string \<Rightarrow> event list \<Rightarrow> string \<Rightarrow> bool" where
  "certChecked ns es name \<longleftrightarrow>
     (\<exists>s. GotObject Infra (ns, name) (OSecret s) \<in> set es \<and> list_all (\<lambda>k. mapGet (sec_Data s) k \<noteq> '''') tlsKeys)"

definition gatewayCerts :: "gateway \<Rightarrow> string set" where
  "gatewayCerts gw = set (gatewayTLSCertNames gw) \<union> set (gatewayBackendTLSCertNames gw)"

text \<open>The Gateway being reconciled was read and all its certificates were checked.\<close>

definition cleared :: "string \<Rightarrow> nname \<Rightarrow> gateway \<Rightarrow> event list \<Rightarrow> bool" where
  "cleared ns key gw es \<longleftrightarrow> GotGateway key gw \<in> set es \<and> (\<forall>n \<in> gatewayCerts gw. certChecked ns es n)"

text \<open>The data plane was seen ready: an available Deployment and a Service with these addresses.\<close>

definition dataPlaneReady :: "string \<Rightarrow> gateway \<Rightarrow> gatewayStatusAddress list \<Rightarrow> event list \<Rightarrow> bool" where
  "dataPlaneReady ns gw addresses es \<longleftrightarrow>
     (\<exists>dep. GotObject Infra (ns, AgentGatewayObjectName gw) (ODeployment dep) \<in> set es \<and> dep_AvailableReplicas dep \<ge> 1) \<and>
     (\<exists>svc. GotObject Infra (ns, AgentGatewayObjectName gw) (OService svc) \<in> set es \<and>
        addresses = serviceGatewayAddresses svc) \<and> addresses \<noteq> []"

definition infraObject :: "string \<Rightarrow> nname \<Rightarrow> event list \<Rightarrow> clientObject \<Rightarrow> bool" where
  "infraObject ns key es obj \<longleftrightarrow>
     GetNamespace obj = ns \<and> mapGet (GetLabels obj) ManagedByLabel = ManagedByValue \<and>
     (objKind obj = ''Deployment'' \<and> GetName obj = ''istiod'' \<or>
      (\<exists>gw. cleared ns key gw es \<and>
        GetName obj \<in> {AgentGatewayServiceAccount, AgentGatewayObjectName gw, AgentGatewayTokenSecretName gw}))"

definition memberAccount :: "string \<Rightarrow> nname \<Rightarrow> event list \<Rightarrow> clientObject \<Rightarrow> bool" where
  "memberAccount ns key es obj \<longleftrightarrow> objKind obj = ''ServiceAccount'' \<and>
     (\<exists>gw. cleared ns key gw es \<and> keyOf (objMeta obj) = (gw_Namespace gw, AgentGatewayServiceAccount))"

definition readBefore :: "cluster \<Rightarrow> event list \<Rightarrow> clientObject \<Rightarrow> bool" where
  "readBefore k es obj \<longleftrightarrow>
     (\<exists>x. GotObject k (keyOf (objMeta obj)) x \<in> set es \<and> \<not> foreign x \<and>
        m_ResourceVersion (objMeta obj) = m_ResourceVersion (objMeta x))"

definition ownObject :: "string \<Rightarrow> nname \<Rightarrow> event list \<Rightarrow> clientObject \<Rightarrow> bool" where
  "ownObject ns key es obj \<longleftrightarrow>
     (\<exists>name. GotObject Infra (ns, name) obj \<in> set es) \<and>
     mapGet (GetLabels obj) ManagedByLabel = ManagedByValue \<and>
     mapGet (GetAnnotations obj) GatewayNSAnnotation \<in> {'''', fst key} \<and>
     mapGet (GetAnnotations obj) GatewayNameAnnotation \<in> {'''', snd key}"

text \<open>
  A Gateway was read under the name and namespace in the metadata of one that was read under \<open>key\<close>: what a
  status writer starts from when it is given a Gateway that the pass has read.
\<close>

definition freshRead :: "nname \<Rightarrow> event list \<Rightarrow> gateway \<Rightarrow> bool" where
  "freshRead key es x \<longleftrightarrow> (\<exists>gw. GotGateway key gw \<in> set es \<and> GotGateway (keyOf (gw_Meta gw)) x \<in> set es)"

definition statusWrite :: "string \<Rightarrow> nname \<Rightarrow> event list \<Rightarrow> gateway \<Rightarrow> bool" where
  "statusWrite ns key es g \<longleftrightarrow>
     (\<exists>t x. freshRead key es x \<and>
        (g = acceptedStamp t x \<or>
         (\<exists>l reason message. g = resolvedRefsStamp l (ConditionFalse, reason, message) t x) \<or>
         (\<exists>gw addresses. g = programmedStamp addresses t x \<and> cleared ns key gw es \<and> dataPlaneReady ns gw addresses es)))"

fun reconcileGuard :: "string \<Rightarrow> nname \<Rightarrow> guard" where
  "reconcileGuard ns key es (GotObject k n x) = True"
| "reconcileGuard ns key es (GotGateway n x) = True"
| "reconcileGuard ns key es (CreateObject Infra obj) = infraObject ns key es obj"
| "reconcileGuard ns key es (UpdateObject Infra obj) = (infraObject ns key es obj \<and> readBefore Infra es obj)"
| "reconcileGuard ns key es (DeleteObject Infra obj) = ownObject ns key es obj"
| "reconcileGuard ns key es (CreateObject Member obj) = memberAccount ns key es obj"
| "reconcileGuard ns key es (UpdateObject Member obj) = (memberAccount ns key es obj \<and> readBefore Member es obj)"
| "reconcileGuard ns key es (DeleteObject Member obj) = False"
| "reconcileGuard ns key es (WriteGatewayStatus g) = statusWrite ns key es g"
| "reconcileGuard ns key es (WriteRouteStatus r) = (\<exists>gw addresses. cleared ns key gw es \<and> dataPlaneReady ns gw addresses es)"
| "reconcileGuard ns key es (WriteClassStatus gc) = False"
| "reconcileGuard ns key es WriteOther = False"
| "reconcileGuard ns key es (RequestToken sa) = memberAccount ns key es (OServiceAccount sa)"

lemma stable_certChecked [intro!, simp]: "stable (\<lambda>es. certChecked ns es n)"
  unfolding certChecked_def by auto

lemma stable_cleared [intro!, simp]: "stable (\<lambda>es. cleared ns key gw es)"
  unfolding cleared_def by auto

lemma stable_dataPlaneReady [intro!, simp]: "stable (\<lambda>es. dataPlaneReady ns gw a es)"
  unfolding dataPlaneReady_def by auto

interpretation rg: read_guard "reconcileGuard ns key" for ns key
  by unfold_locales auto

section \<open>What a fallible computation establishes\<close>

text \<open>
  \<open>establishes g F m K\<close>: from a guarded log with \<open>F\<close>, \<open>m\<close> keeps the log guarded and \<open>F\<close>, and a
  nil error with result \<open>x\<close> adds \<open>K x\<close>.
\<close>

definition establishes ::
  "guard \<Rightarrow> (event list \<Rightarrow> bool) \<Rightarrow> ('w \<times> event list, 'a) fio \<Rightarrow> ('a \<Rightarrow> event list \<Rightarrow> bool) \<Rightarrow> bool" where
  "establishes g F m K \<longleftrightarrow>
     valid (logged g F) m (\<lambda>r. logged g (\<lambda>es. F es \<and> (\<forall>x. r = Inr x \<longrightarrow> K x es)))"

lemma est_ok: "(\<And>es. F es \<Longrightarrow> K x es) \<Longrightarrow> establishes g F (ok x) K"
  by (auto simp: establishes_def valid_def logged_def)

lemma est_fail: "establishes g F (fail e) K"
  by (auto simp: establishes_def valid_def logged_def)

lemma est_preserves: "preserves (logged g F) m \<Longrightarrow> establishes g F m (\<lambda>_ _. True)"
  by (simp add: establishes_def)

lemma preserves_est: "establishes g F m K \<Longrightarrow> preserves (logged g F) m"
  unfolding establishes_def by (erule valid_post) (auto elim: logged_weaken)

lemma est_post:
  "establishes g F m K \<Longrightarrow> (\<And>x es. F es \<Longrightarrow> K x es \<Longrightarrow> K' x es) \<Longrightarrow> establishes g F m K'"
  unfolding establishes_def by (erule valid_post) (auto elim: logged_weaken)

lemma est_tryE:
  assumes "establishes g F m K" and "\<And>e. establishes g F (h e) K'"
    and "\<And>x. establishes g (\<lambda>es. F es \<and> K x es) (k x) K'"
  shows "establishes g F (tryE m h k) K'"
  unfolding establishes_def
proof (rule valid_tryE [OF assms(1) [unfolded establishes_def]])
  show "valid (logged g (\<lambda>es. F es \<and> (\<forall>x. Inl e = Inr x \<longrightarrow> K x es))) (h e)
      (\<lambda>r. logged g (\<lambda>es. F es \<and> (\<forall>x. r = Inr x \<longrightarrow> K' x es)))" for e
    using assms(2) [of e] by (simp add: establishes_def)
  show "valid (logged g (\<lambda>es. F es \<and> (\<forall>y. Inr x = Inr y \<longrightarrow> K y es))) (k x)
      (\<lambda>r. logged g (\<lambda>es. F es \<and> (\<forall>x. r = Inr x \<longrightarrow> K' x es)))" for x
    using assms(3) [of x] unfolding establishes_def by (rule valid_post [OF valid_pre]) (auto elim: logged_weaken)
qed

lemma est_bindE:
  assumes "establishes g F m K" and "\<And>x. establishes g (\<lambda>es. F es \<and> K x es) (k x) K'"
  shows "establishes g F (bindE m f k) K'"
proof -
  have "bindE m f k = tryE m (\<lambda>e. fail (f e)) k" by (simp add: bindE_def tryE_def)
  then show ?thesis using assms by (auto intro!: est_tryE est_fail)
qed

lemma est_bind:
  assumes "preserves (logged g F) m" and "\<And>x. establishes g F (k x) K"
  shows "establishes g F (State_Monad.bind m k) K"
  using assms unfolding establishes_def by (rule valid_bind)

lemma est_forE:
  assumes "\<And>x F. stable F \<Longrightarrow> establishes g F (f x) (\<lambda>_. K x)" and "\<And>x. stable (K x)" and "stable F"
  shows "establishes g F (forE f xs) (\<lambda>_ es. \<forall>x \<in> set xs. K x es)"
  using assms(3)
proof (induction xs arbitrary: F)
  case Nil
  show ?case by (auto intro: est_ok)
next
  case (Cons x xs)
  have "establishes g (\<lambda>es. F es \<and> K x es) (forE f xs) (\<lambda>_ es. \<forall>x \<in> set xs. K x es)"
    using Cons assms(2) by auto
  then have "establishes g (\<lambda>es. F es \<and> K x es) (forE f xs) (\<lambda>_ es. \<forall>x \<in> set (x # xs). K x es)"
    by (rule est_post) auto
  then show ?case using assms(1) [OF Cons.prems, of x] by (auto intro: est_bindE)
qed

lemma est_get:
  assumes "stable F" and "\<And>es key x. g es (GotObject k key x)"
  shows "establishes g F (Get (tracedObjects k f res) key) (\<lambda>x es. GotObject k key (f x) \<in> set es)"
  unfolding establishes_def tracedObjects_def tracedResource_simps
  by (rule valid_post [OF valid_logging_got [OF assms(1)]]) (auto intro: assms(2) elim: logged_weaken)

section \<open>Validation\<close>

lemma est_requireInfraSecretKeys:
  assumes "stable F"
  shows "establishes (reconcileGuard ns key) F (requireInfraSecretKeys (traced Infra c) ns' name tlsKeys)
    (\<lambda>_ es. certChecked ns' es name)"
  unfolding requireInfraSecretKeys_def traced_simps
proof (rule est_tryE [OF est_get [OF assms]])
  fix s
  let ?F = "\<lambda>es. F es \<and> GotObject Infra (ns', name) (OSecret s) \<in> set es"
  show "establishes (reconcileGuard ns key) ?F
      (case find (\<lambda>key. mapGet (sec_Data s) key = '''') tlsKeys of
         Some key \<Rightarrow> fail (Errorf (''infra Secret missing '' @ key)) | None \<Rightarrow> ok ())
      (\<lambda>_ es. certChecked ns' es name)"
    by (auto split: option.splits intro!: est_fail est_ok simp: certChecked_def find_None_iff list_all_iff)
qed (auto intro: est_fail)

lemma est_validateListenerRef:
  assumes "stable F"
  shows "establishes (reconcileGuard ns key) F (validateListenerRef (tracedDeps d) gw l ref)
    (\<lambda>_ es. \<forall>n. secretObjectReferenceName ref = Some n \<longrightarrow> certChecked (d_InfraNamespace d) es n)"
  unfolding validateListenerRef_def tracedDeps_simps
  by (cases "secretObjectReferenceName ref")
    (auto intro!: est_fail est_bind rg.gatewaySecretReferencePermitted assms
      est_bindE [OF est_requireInfraSecretKeys [OF assms]] est_ok)

lemma est_validateListener:
  assumes "stable F"
  shows "establishes (reconcileGuard ns key) F (validateListener (tracedDeps d) gw l)
    (\<lambda>_ es. \<forall>ref \<in> set (fst (listenerCertificateRefs l)). \<forall>n. secretObjectReferenceName ref = Some n \<longrightarrow>
       certChecked (d_InfraNamespace d) es n)"
proof -
  have "\<not> snd (listenerCertificateRefs l) \<Longrightarrow> fst (listenerCertificateRefs l) = []"
    by (auto simp: listenerCertificateRefs_def split: option.splits if_splits)
  then show ?thesis
    unfolding validateListener_def
    by (auto split: prod.splits intro!: est_fail est_ok est_forE est_validateListenerRef assms)
qed

lemma est_validateClientCertificate:
  assumes "stable F"
  shows "establishes (reconcileGuard ns key) F (validateClientCertificate (tracedDeps d) gw)
    (\<lambda>_ es. \<forall>n \<in> set (gatewayBackendTLSCertNames gw). certChecked (d_InfraNamespace d) es n)"
  unfolding validateClientCertificate_def gatewayBackendTLSCertNames_def
  by (auto split: option.splits intro!: est_fail est_ok est_bind rg.gatewaySecretReferencePermitted assms
      est_bindE [OF est_requireInfraSecretKeys [OF assms]])

text \<open>The references that are validated cover the names that are mounted.\<close>

lemma set_map_filter: "set (List.map_filter f xs) = {y. \<exists>x \<in> set xs. f x = Some y}"
  by (induction xs) (auto simp: List.map_filter_simps split: option.splits)

lemma gatewayTLSCertNames_refs:
  "set (gatewayTLSCertNames gw) =
     {n. \<exists>l \<in> set (gw_Listeners gw). \<exists>ref \<in> set (fst (listenerCertificateRefs l)). secretObjectReferenceName ref = Some n}"
proof -
  have eq: "set (if l_Protocol l \<noteq> HTTPSProtocolType \<and> l_Protocol l \<noteq> TLSProtocolType then []
     else (case l_TLS l of None \<Rightarrow> []
           | Some tls \<Rightarrow> if lt_Mode tls = Some TLSModePassthrough then []
               else List.map_filter secretObjectReferenceName (lt_CertificateRefs tls))) =
     {n. \<exists>ref \<in> set (fst (listenerCertificateRefs l)). secretObjectReferenceName ref = Some n}" for l
    by (cases "l_TLS l") (auto simp: listenerCertificateRefs_def set_map_filter)
  show ?thesis unfolding gatewayTLSCertNames_def set_concat set_map image_image eq by auto
qed

lemma est_validateGatewayTLSAssets:
  assumes "stable F"
  shows "establishes (reconcileGuard ns key) F (validateGatewayTLSAssets (tracedDeps d) gw)
    (\<lambda>_ es. \<forall>n \<in> gatewayCerts gw. certChecked (d_InfraNamespace d) es n)"
proof -
  let ?K = "\<lambda>es. \<forall>l \<in> set (gw_Listeners gw). \<forall>ref \<in> set (fst (listenerCertificateRefs l)). \<forall>n.
    secretObjectReferenceName ref = Some n \<longrightarrow> certChecked (d_InfraNamespace d) es n"
  have "stable (\<lambda>es. F es \<and> ?K es)" using assms by auto
  from est_validateClientCertificate [OF this]
  have "establishes (reconcileGuard ns key) (\<lambda>es. F es \<and> ?K es) (validateClientCertificate (tracedDeps d) gw)
      (\<lambda>_ es. \<forall>n \<in> gatewayCerts gw. certChecked (d_InfraNamespace d) es n)"
    by (rule est_post) (auto simp: gatewayCerts_def gatewayTLSCertNames_refs)
  then show ?thesis
    unfolding validateGatewayTLSAssets_def
    by (intro est_bindE [OF est_forE]) (auto intro!: est_validateListener assms)
qed

section \<open>Writes to the clusters\<close>

lemma valid_Apply_infra:
  assumes "stable F" and "\<And>es. F es \<Longrightarrow> infraObject ns key es obj"
  shows "preserves (logged (reconcileGuard ns key) F) (Apply (traced Infra c) obj)"
proof (rule valid_Apply [OF assms(1)])
  fix es x obj'
  assume F: "F es" and got: "GotObject Infra (keyOf (objMeta obj)) x \<in> set es" and prep: "prepareForUpdate x obj = Inr obj'"
  note meta = prepareForUpdate_meta [OF prep]
  then have "infraObject ns key es obj'" using assms(2) [OF F] by (simp add: infraObject_def)
  moreover have "readBefore Infra es obj'" using meta got by (auto simp: readBefore_def keyOf_def)
  ultimately show "reconcileGuard ns key es (UpdateObject Infra obj')" by simp
qed (use assms(2) in auto)

lemma valid_Apply_member:
  assumes "stable F" and "\<And>es. F es \<Longrightarrow> memberAccount ns key es obj"
  shows "preserves (logged (reconcileGuard ns key) F) (Apply (traced Member c) obj)"
proof (rule valid_Apply [OF assms(1)])
  fix es x obj'
  assume F: "F es" and got: "GotObject Member (keyOf (objMeta obj)) x \<in> set es" and prep: "prepareForUpdate x obj = Inr obj'"
  note meta = prepareForUpdate_meta [OF prep]
  then have "memberAccount ns key es obj'" using assms(2) [OF F] by (simp add: memberAccount_def keyOf_def)
  moreover have "readBefore Member es obj'" using meta got by (auto simp: readBefore_def keyOf_def)
  ultimately show "reconcileGuard ns key es (UpdateObject Member obj')" by simp
qed (use assms(2) in auto)

lemma valid_RefreshIstiod:
  assumes "stable F" and "ns = d_InfraNamespace d"
  shows "preserves (logged (reconcileGuard ns key) F) (RefreshIstiod (tracedDeps d))"
proof -
  have istiod: "infraObject ns key es (ODeployment (IstiodDeployment (istiodParamsOf (tracedDeps d) certs)))" for es certs
    using assms(2)
    by (simp add: infraObject_def IstiodDeployment_def istiodParamsOf_def defaultIstiodParams_def Let_def
        istiodLabels_def mapGet_def)
  show ?thesis
    unfolding RefreshIstiod_def tracedDeps_simps traced_simps
    by (intro valid_intros rg.list_status rg.istiodCertNames rg.backendTLSPolicyCACertNames assms(1)
        valid_Apply_infra istiod)
qed

lemma valid_deleteManagedGatewayObject:
  assumes "stable F" and "GetNamespace obj = ns"
  shows "preserves (logged (reconcileGuard ns key) F) (deleteManagedGatewayObject (traced Infra c) obj key)"
proof -
  let ?G = "reconcileGuard ns key" and ?k = "keyOf (objMeta obj)"
  have got: "establishes ?G F (objGet (traced Infra c) obj ?k) (\<lambda>x es. GotObject Infra ?k x \<in> set es)"
    unfolding objGet_traced establishes_def
    by (rule valid_post [OF valid_logging_got [OF assms(1)]]) (auto elim: logged_weaken)
  have "establishes ?G F (deleteManagedGatewayObject (traced Infra c) obj key) (\<lambda>_ _. True)"
    unfolding deleteManagedGatewayObject_def
  proof (rule est_tryE [OF got])
    fix x
    let ?F = "\<lambda>es. F es \<and> GotObject Infra ?k x \<in> set es"
    have st: "stable ?F" using assms(1) by auto
    have k: "?k = (ns, snd ?k)" using assms(2) by (simp add: keyOf_def)
    have "preserves (logged ?G ?F) (objDelete (traced Infra c) x)"
      if "mapGet (GetLabels x) ManagedByLabel = ManagedByValue"
        "mapGet (GetAnnotations x) GatewayNSAnnotation \<in> {'''', fst key}"
        "mapGet (GetAnnotations x) GatewayNameAnnotation \<in> {'''', snd key}"
      unfolding objDelete_traced using that k
      by (intro valid_logging_one [OF st]) (simp add: ownObject_def, metis)
    then show "establishes ?G ?F
        (if mapGet (GetLabels x) ManagedByLabel \<noteq> ManagedByValue then ok ()
         else let ns = mapGet (GetAnnotations x) GatewayNSAnnotation; name = mapGet (GetAnnotations x) GatewayNameAnnotation
           in if ns \<noteq> '''' \<and> ns \<noteq> fst key then ok ()
              else if name \<noteq> '''' \<and> name \<noteq> snd key then ok () else objDelete (traced Infra c) x) (\<lambda>_ _. True)"
      unfolding Let_def by (intro est_preserves) (auto intro!: valid_intros)
  qed (auto intro: est_ok est_fail)
  then show ?thesis by (rule preserves_est)
qed

lemma valid_cleanUp:
  assumes "stable F" and "ns = d_InfraNamespace d"
  shows "preserves (logged (reconcileGuard ns key) F) (cleanUp (tracedDeps d) key)"
  unfolding cleanUp_def deleteAgentGateway_def tracedDeps_simps
  by (intro valid_intros valid_deleteManagedGatewayObject valid_RefreshIstiod assms)
    (simp_all add: AgentGatewayDeployment_def AgentGatewayService_def Let_def stubParams_def defaultGatewayParams_def
      stubTokenSecret_def assms(2))

section \<open>Provisioning\<close>

lemma valid_requestMemberToken:
  assumes "stable F" and "ns = d_InfraNamespace d" and "\<And>es. F es \<Longrightarrow> cleared ns key gw es"
  shows "preserves (logged (reconcileGuard ns key) F) (requestMemberToken (tracedDeps d) gw)"
proof -
  have "memberAccount ns key es (OServiceAccount (memberServiceAccount (tracedDeps d) gw))" if "F es" for es
    using assms(3) [OF that] by (auto simp: memberAccount_def memberServiceAccount_def keyOf_def)
  then have "preserves (logged (reconcileGuard ns key) F)
      (createToken (traced Member c) (memberServiceAccount (tracedDeps d) gw) aud secs)" for c aud secs
    unfolding traced_simps by (intro valid_logging_one [OF assms(1)]) simp
  moreover have "infraObject ns key es (OSecret (tokenSecret (tracedDeps d) gw token expires))" if "F es" for es token expires
    using assms(2) assms(3) [OF that]
    by (auto simp: infraObject_def tokenSecret_def AgentGatewayLabels_def agentGatewayLabels_def mapGet_def)
  ultimately show ?thesis
    unfolding requestMemberToken_def tracedDeps_simps Let_def
    by (intro valid_intros valid_Apply_infra assms(1))
qed

lemma valid_ensureAgentGatewayMemberToken:
  assumes "clock_law L" and "stable F" and "ns = d_InfraNamespace d" and "\<And>es. F es \<Longrightarrow> cleared ns key gw es"
  shows "preserves (logged (reconcileGuard ns key) F) (ensureAgentGatewayMemberToken L (tracedDeps d) gw)"
proof -
  have "memberAccount ns key es (OServiceAccount (memberServiceAccount (tracedDeps d) gw))" if "F es" for es
    using assms(4) [OF that] by (auto simp: memberAccount_def memberServiceAccount_def keyOf_def)
  then show ?thesis
    unfolding ensureAgentGatewayMemberToken_def tracedDeps_simps
    using valid_requestMemberToken [OF assms(2-4)] rg.get_object [OF assms(2)] rg.now [OF assms(1,2)]
    by (auto intro!: valid_intros valid_Apply_member assms(1,2))
qed

lemma valid_provision:
  assumes "clock_law L" and "stable F" and "ns = d_InfraNamespace d" and "\<And>es. F es \<Longrightarrow> cleared ns key gw es"
  shows "preserves (logged (reconcileGuard ns key) F) (provision L (tracedDeps d) gw)"
proof -
  let ?p = "\<lambda>e. gatewayParamsOf (tracedDeps d) gw e"
  have "infraObject ns key es (OServiceAccount (AgentGatewayServiceAccountObject (?p e)))"
    "infraObject ns key es (ODeployment (AgentGatewayDeployment (?p e)))"
    "infraObject ns key es (OService (AgentGatewayService (?p e)))" if "F es" for es e
    using assms(3) assms(4) [OF that]
    by (auto simp: infraObject_def AgentGatewayServiceAccountObject_def AgentGatewayDeployment_def AgentGatewayService_def
        Let_def gatewayParamsOf_def defaultGatewayParams_def agentGatewayLabels_def mapGet_def)
  then show ?thesis
    unfolding provision_def tracedDeps_simps
    by (intro valid_intros valid_Apply_infra valid_ensureAgentGatewayMemberToken assms)
qed

section \<open>Waiting\<close>

definition availableSeen :: "nname \<Rightarrow> event list \<Rightarrow> bool" where
  "availableSeen k es \<longleftrightarrow> (\<exists>dep. GotObject Infra k (ODeployment dep) \<in> set es \<and> dep_AvailableReplicas dep \<ge> 1)"

definition addressesSeen :: "nname \<Rightarrow> gatewayStatusAddress list \<Rightarrow> event list \<Rightarrow> bool" where
  "addressesSeen k a es \<longleftrightarrow> (\<exists>svc. GotObject Infra k (OService svc) \<in> set es \<and> a = serviceGatewayAddresses svc)"

lemma dataPlaneReady_iff:
  "dataPlaneReady ns gw a es \<longleftrightarrow>
     availableSeen (ns, AgentGatewayObjectName gw) es \<and> addressesSeen (ns, AgentGatewayObjectName gw) a es \<and> a \<noteq> []"
  by (auto simp: dataPlaneReady_def availableSeen_def addressesSeen_def)

lemma stable_seen [intro!, simp]: "stable (availableSeen k)" "stable (addressesSeen k a)"
  unfolding availableSeen_def addressesSeen_def by auto

lemma availableSeenI: "GotObject Infra k (ODeployment dep) \<in> set es \<Longrightarrow> dep_AvailableReplicas dep \<ge> 1 \<Longrightarrow> availableSeen k es"
  by (auto simp: availableSeen_def)

lemma addressesSeenI: "GotObject Infra k (OService svc) \<in> set es \<Longrightarrow> addressesSeen k (serviceGatewayAddresses svc) es"
  by (auto simp: addressesSeen_def)

lemma est_pollAvailable:
  assumes "stable F"
    and "\<And>F'. stable F' \<Longrightarrow> establishes (reconcileGuard ns key) F' again (\<lambda>r es. r \<longrightarrow> availableSeen k es)"
  shows "establishes (reconcileGuard ns key) F (pollAvailable (traced Infra c) k again) (\<lambda>r es. r \<longrightarrow> availableSeen k es)"
  unfolding pollAvailable_def traced_simps
  by (rule est_tryE [OF est_get [OF assms(1)]])
    (auto intro!: est_fail est_ok assms intro: availableSeenI)

lemma est_waitForAgentGatewayAvailable:
  assumes "stable F"
  shows "establishes (reconcileGuard ns key) F (waitForAgentGatewayAvailable (traced Infra c) k n)
     (\<lambda>r es. r \<longrightarrow> availableSeen k es)"
  using assms
proof (induction n arbitrary: F)
  case 0
  then show ?case by (auto intro!: est_pollAvailable est_ok)
next
  case (Suc n)
  then show ?case by (auto intro!: est_pollAvailable)
qed

lemma est_pollAddresses:
  assumes "stable F" and "\<And>F'. stable F' \<Longrightarrow> establishes (reconcileGuard ns key) F' again (\<lambda>a es. a \<noteq> [] \<longrightarrow> addressesSeen k a es)"
  shows "establishes (reconcileGuard ns key) F (pollAddresses (traced Infra c) k again)
     (\<lambda>a es. a \<noteq> [] \<longrightarrow> addressesSeen k a es)"
  unfolding pollAddresses_def traced_simps Let_def
  by (rule est_tryE [OF est_get [OF assms(1)]])
    (auto intro!: est_fail est_ok assms intro: addressesSeenI)

lemma est_waitForAgentGatewayAddresses:
  assumes "stable F"
  shows "establishes (reconcileGuard ns key) F (waitForAgentGatewayAddresses (traced Infra c) k n)
     (\<lambda>a es. a \<noteq> [] \<longrightarrow> addressesSeen k a es)"
  using assms
proof (induction n arbitrary: F)
  case 0
  then show ?case by (auto intro!: est_pollAddresses est_ok)
next
  case (Suc n)
  then show ?case by (auto intro!: est_pollAddresses)
qed

section \<open>Status\<close>

lemma statusWriteI:
  assumes "GotGateway key gw0 \<in> set es" and "GotGateway (keyOf (gw_Meta gw0)) x \<in> set es"
  shows "statusWrite ns key es (acceptedStamp t x)"
    and "statusWrite ns key es (resolvedRefsStamp l (ConditionFalse, reason, message) t x)"
    and "cleared ns key gw es \<Longrightarrow> dataPlaneReady ns gw addresses es \<Longrightarrow> statusWrite ns key es (programmedStamp addresses t x)"
  using assms unfolding statusWrite_def freshRead_def by blast+

lemma valid_MarkAccepted:
  assumes "retry_law (RetryOnConflict L)" and "clock_law L" and "stable F"
    and "\<And>es. F es \<Longrightarrow> GotGateway key gw \<in> set es"
  shows "preserves (logged (reconcileGuard ns key) F) (MarkAccepted L (traced Member c) gw)"
  unfolding MarkAccepted_def by (rule rg.stampGateway [OF assms(1-3)]) (auto intro: statusWriteI assms(4))

lemma valid_MarkListenerResolvedRefs:
  assumes "retry_law (RetryOnConflict L)" and "clock_law L" and "stable F"
    and "\<And>es. F es \<Longrightarrow> GotGateway key gw \<in> set es"
  shows "preserves (logged (reconcileGuard ns key) F)
    (MarkListenerResolvedRefs L (traced Member c) gw l ConditionFalse reason message)"
  unfolding MarkListenerResolvedRefs_def by (rule rg.stampGateway [OF assms(1-3)]) (auto intro: statusWriteI assms(4))

lemma valid_MarkProgrammed:
  assumes "retry_law (RetryOnConflict L)" and "clock_law L" and "stable F"
    and "\<And>es. F es \<Longrightarrow> cleared ns key gw es \<and> dataPlaneReady ns gw addresses es"
    and "\<And>es. F es \<Longrightarrow> GotGateway key fresh \<in> set es"
  shows "preserves (logged (reconcileGuard ns key) F) (MarkProgrammed L (traced Member c) fresh addresses)"
  unfolding MarkProgrammed_def
  by (rule rg.stampGateway [OF assms(1-3)]) (use assms(4,5) in \<open>auto intro: statusWriteI\<close>)

lemma valid_MarkRoutesAccepted:
  assumes "retry_law (RetryOnConflict L)" and "clock_law L" and "stable F"
    and "\<And>es. F es \<Longrightarrow> cleared ns key gw es \<and> dataPlaneReady ns gw addresses es"
  shows "preserves (logged (reconcileGuard ns key) F) (MarkRoutesAccepted L (traced Member c) fresh)"
proof -
  have "preserves (logged (reconcileGuard ns key) F)
      (markRoute L (traced Member c) fresh kind refs (tracedStatus (\<lambda>_ _. []) WriteRouteStatus res) r)" for kind refs res r
    unfolding markRoute_def
  proof (rule rg.updateStatus [OF assms(1,3) rg.routeStamp [OF assms(2,3)]])
    show "reconcileGuard ns key es (WriteRouteStatus r)" if "F es" for es r
      using assms(4) [OF that] by auto
  qed
  then show ?thesis
    unfolding MarkRoutesAccepted_def markHTTPRoutesAccepted_def markGRPCRoutesAccepted_def markTLSRoutesAccepted_def traced_simps
    by (intro valid_intros rg.list_status assms(3))
qed

section \<open>Reconcile\<close>

lemma est_validated:
  assumes "retry_law (RetryOnConflict L)" and "clock_law L" and "stable F"
    and "\<And>es. F es \<Longrightarrow> GotGateway key gw \<in> set es"
  shows "establishes (reconcileGuard ns key) F (validated L (tracedDeps d) gw)
    (\<lambda>_ es. \<forall>n \<in> gatewayCerts gw. certChecked (d_InfraNamespace d) es n)"
  unfolding validated_def
  by (rule est_tryE [OF est_validateGatewayTLSAssets [OF assms(3)]])
    (auto intro!: est_fail est_ok est_bindE [OF est_preserves [OF valid_MarkListenerResolvedRefs [OF assms]]]
      split: option.splits)

text \<open>The end of a pass: the last read and the two status writers.\<close>

abbreviation reportReady :: "'w lib \<Rightarrow> 'w client \<Rightarrow> nname \<Rightarrow> gatewayStatusAddress list \<Rightarrow> ('w, unit) fio" where
  "reportReady L c key addresses \<equiv> tryE (Get (gateways c) key) (\<lambda>_. ok ())
     (\<lambda>fresh. State_Monad.bind (MarkProgrammed L c fresh addresses) (\<lambda>_.
        State_Monad.bind (MarkRoutesAccepted L c fresh) (\<lambda>_. ok ())))"

lemma est_gateway:
  assumes "stable F"
  shows "establishes (reconcileGuard ns key) F (Get (gateways (traced Member c)) n) (\<lambda>x es. GotGateway n x \<in> set es)"
  unfolding establishes_def by (rule valid_post [OF rg.reads_gateway [OF assms]]) (auto elim: logged_weaken)

lemma valid_reportReady:
  assumes "retry_law (RetryOnConflict L)" and "clock_law L" and "stable F"
    and "\<And>es. F es \<Longrightarrow> cleared ns key gw es \<and> dataPlaneReady ns gw a es"
  shows "preserves (logged (reconcileGuard ns key) F) (reportReady L (traced Member c) key a)"
proof -
  have "establishes (reconcileGuard ns key) F (reportReady L (traced Member c) key a) (\<lambda>_ _. True)"
  proof (rule est_tryE [OF est_gateway [OF assms(3)]])
    fix fresh
    let ?F = "\<lambda>es. F es \<and> GotGateway key fresh \<in> set es"
    have st: "stable ?F" using assms(3) by auto
    have ready: "?F es \<Longrightarrow> cleared ns key gw es \<and> dataPlaneReady ns gw a es" for es using assms(4) by blast
    have "preserves (logged (reconcileGuard ns key) ?F) (MarkProgrammed L (traced Member c) fresh a)"
      by (rule valid_MarkProgrammed [OF assms(1,2) st ready]) auto
    with valid_MarkRoutesAccepted [OF assms(1,2) st ready]
    show "establishes (reconcileGuard ns key) ?F
        (State_Monad.bind (MarkProgrammed L (traced Member c) fresh a) (\<lambda>_.
           State_Monad.bind (MarkRoutesAccepted L (traced Member c) fresh) (\<lambda>_. ok ()))) (\<lambda>_ _. True)"
      by (intro est_preserves valid_intros)
  qed (auto intro: est_ok)
  then show ?thesis by (rule preserves_est)
qed

lemma valid_publish:
  assumes "retry_law (RetryOnConflict L)" and "clock_law L" and "stable F" and "ns = d_InfraNamespace d"
    and "\<And>es. F es \<Longrightarrow> cleared ns key gw es"
  shows "preserves (logged (reconcileGuard ns key) F) (publish L (tracedDeps d) key gw ticks)"
proof -
  let ?k = "(ns, AgentGatewayObjectName gw)" and ?G = "reconcileGuard ns key"
  have "establishes ?G (\<lambda>es. F es \<and> availableSeen ?k es)
      (bindE (waitForAgentGatewayAddresses (traced Infra c) ?k n) f (\<lambda>a.
        if a = [] then fail e else reportReady L (traced Member c') key a)) (\<lambda>_ _. True)" for c c' n f e
    by (rule est_bindE [OF est_waitForAgentGatewayAddresses])
      (use assms(3,5) in \<open>auto intro!: est_fail est_preserves valid_reportReady [OF assms(1,2)] simp: dataPlaneReady_iff simp del: traced_simps\<close>)
  then have "establishes ?G F (publish L (tracedDeps d) key gw ticks) (\<lambda>_ _. True)"
    unfolding publish_def Let_def tracedDeps_simps assms(4) [symmetric]
    by (intro est_bindE [OF est_waitForAgentGatewayAvailable [OF assms(3)]]) (auto intro!: est_fail)
  then show ?thesis by (rule preserves_est)
qed

lemma valid_Reconcile:
  assumes "retry_law (RetryOnConflict L)" and "clock_law L"
  shows "preserves (logged (reconcileGuard (d_InfraNamespace d) key) (\<lambda>_. True)) (Reconcile L (tracedDeps d) key ticks)"
proof -
  let ?ns = "d_InfraNamespace d" and ?G = "reconcileGuard (d_InfraNamespace d) key"
  have handled: "establishes ?G F (bindE (MarkAccepted L (traced Member c) gw) f (\<lambda>_.
      bindE (validated L (tracedDeps d) gw) id (\<lambda>_. bindE (provision L (tracedDeps d) gw) id (\<lambda>_.
      State_Monad.bind (RefreshIstiod (tracedDeps d)) (\<lambda>_. publish L (tracedDeps d) key gw ticks))))) (\<lambda>_ _. True)"
    if "stable F" and "\<And>es. F es \<Longrightarrow> GotGateway key gw \<in> set es" for F gw c f
  proof -
    let ?F = "\<lambda>es. (F es \<and> True) \<and> (\<forall>n \<in> gatewayCerts gw. certChecked ?ns es n)"
    have st: "stable ?F" using that(1) by auto
    have cl: "?F es \<Longrightarrow> cleared ?ns key gw es" for es using that(2) by (auto simp: cleared_def)
    have "preserves (logged ?G ?F) (bindE (provision L (tracedDeps d) gw) id (\<lambda>_.
        State_Monad.bind (RefreshIstiod (tracedDeps d)) (\<lambda>_. publish L (tracedDeps d) key gw ticks)))"
      by (intro valid_intros valid_provision [OF assms(2) st refl cl] valid_RefreshIstiod [OF st refl]
          valid_publish [OF assms st refl cl])
    from est_preserves [OF this] show ?thesis
      by (intro est_bindE [OF est_preserves [OF valid_MarkAccepted [OF assms that]]] est_bindE [OF est_validated [OF assms]])
        (use that in auto)
  qed
  have "establishes ?G (\<lambda>_. True) (Reconcile L (tracedDeps d) key ticks) (\<lambda>_ _. True)"
    unfolding Reconcile_def tracedDeps_simps
  proof (rule est_tryE [OF est_gateway [OF stable_const]])
    show "establishes ?G (\<lambda>_. True) (if IsNotFound e then cleanUp (tracedDeps d) key else fail (Wrap ''get gateway'' e)) (\<lambda>_ _. True)" for e
      by (auto intro!: est_fail est_preserves valid_cleanUp)
    fix gw
    let ?F = "\<lambda>es. True \<and> GotGateway key gw \<in> set es"
    show "establishes ?G ?F (bindE (isOurs (traced Member (d_MemberClient d)) gw) id (\<lambda>handled.
        if \<not> handled then cleanUp (tracedDeps d) key
        else bindE (MarkAccepted L (traced Member (d_MemberClient d)) gw) (Wrap ''write accepted status'') (\<lambda>_.
          bindE (validated L (tracedDeps d) gw) id (\<lambda>_. bindE (provision L (tracedDeps d) gw) id (\<lambda>_.
          State_Monad.bind (RefreshIstiod (tracedDeps d)) (\<lambda>_. publish L (tracedDeps d) key gw ticks)))))) (\<lambda>_ _. True)"
      by (intro est_bindE [OF est_preserves [OF rg.isOurs]]) (auto intro!: handled est_preserves [OF valid_cleanUp])
  qed
  then show ?thesis by (rule preserves_est)
qed

text \<open>The log of a reconcile that starts from an empty log is guarded.\<close>

lemma Reconcile_guarded:
  assumes "retry_law (RetryOnConflict L)" and "clock_law L"
    and "run_state (Reconcile L (tracedDeps d) key ticks) (w, []) = (r, w', es)"
  shows "guarded (reconcileGuard (d_InfraNamespace d) key) es"
  using validD [OF valid_Reconcile [OF assms(1,2)] _ assms(3)] by (simp add: logged_def)

end
