(* ===== verification/Render_Properties.thy ===== *)
theory Render_Properties
  imports Render Sample_Objects
begin

text \<open>
  The properties of the renderer: object names are DNS labels (and where they collide), the Istiod
  Deployment as a function of the set of certificates, mounts, pod hardening and Service ports.
\<close>

section \<open>Decimal numerals are injective\<close>

lemma digit_inj: "a < 10 \<Longrightarrow> b < 10 \<Longrightarrow> (char_of (48 + a :: nat) :: char) = char_of (48 + b) \<Longrightarrow> a = b"
  by (drule arg_cong [where f = "of_char :: char \<Rightarrow> nat"]) simp

lemma natDigits_nonempty: "natDigits n \<noteq> []"
  by (subst natDigits.simps) simp

lemma natDigits_inj: "natDigits m = natDigits n \<Longrightarrow> m = n"
proof (induction m arbitrary: n rule: natDigits.induct)
  case (1 m)
  note eq = "1.prems" [unfolded natDigits.simps [of m] natDigits.simps [of n]]
  show ?case
  proof (cases "m < 10 \<or> n < 10")
    case True
    then have "m < 10 \<and> n < 10"
      using eq natDigits_nonempty not_sym [OF natDigits_nonempty] by (auto split: if_splits)
    then show ?thesis using eq digit_inj by simp
  next
    case False
    then have "natDigits (m div 10) = natDigits (n div 10)" and d: "m mod 10 = n mod 10"
      using eq digit_inj [of "m mod 10" "n mod 10"] by auto
    then have "m div 10 = n div 10" using "1.IH" False by simp
    with d show ?thesis by (metis div_mult_mod_eq)
  qed
qed

lemma natDigits_no_dash: "CHR ''-'' \<notin> set (natDigits n)"
proof (induction n rule: natDigits.induct)
  case (1 n)
  have "char_of (48 + k :: nat) \<noteq> CHR ''-''" if "k < 10" for k
    using that by (simp add: dash_of_char)
  then show ?case using 1 by (subst natDigits.simps) (auto simp: eq_commute [of "CHR ''-''"])
qed

lemma itoa_inj: "itoa i = itoa j \<Longrightarrow> i = j"
  unfolding itoa_def
  by (metis append_Cons append_Nil list.set_intros(1) list.inject natDigits_inj natDigits_no_dash
      nat_eq_iff2 neg_equal_iff_equal neg_less_0_iff_less not_less int_nat_eq nat_0_le less_imp_le neg_0_le_iff_le)

lemma listenerServicePort_inj: "sp_Name (listenerServicePort a) = sp_Name (listenerServicePort b) \<Longrightarrow> a = b"
  by (simp add: listenerServicePort_def itoa_inj)

lemma distinct_servicePort_names:
  "distinct (map sp_Name (servicePortLoop ls seen))"
proof -
  have "map sp_Name (servicePortLoop ls seen) = map (\<lambda>p. sp_Name (listenerServicePort (sp_Port p))) (servicePortLoop ls seen)"
    using servicePortLoop_form by (metis (no_types, lifting) map_cong)
  also have "\<dots> = map (\<lambda>i. sp_Name (listenerServicePort i)) (map sp_Port (servicePortLoop ls seen))" by simp
  finally show ?thesis
    using distinct_servicePortLoop [of ls seen] listenerServicePort_inj
    by (simp add: distinct_map inj_on_def)
qed

section \<open>Volume names\<close>

lemma tls_label:
  assumes "n \<noteq> []" and "\<forall>c \<in> set n. labelChar c" and "last n \<noteq> CHR ''-''" and "length n \<le> 59"
  shows "safeDNSLabel [''tls'', n] = ''tls-'' @ n"
  using safeDNSLabel_id [of "[''tls'', n]"] assms by (simp add: dnsLabel_def labelChar_def)

text \<open>A name that is a label with room for the prefix gets a volume of its own.\<close>

definition shortLabel :: "string \<Rightarrow> bool" where
  "shortLabel n \<longleftrightarrow> dnsLabel n \<and> length n \<le> 59"

lemma tlsVolume_name: "shortLabel n \<Longrightarrow> v_Name (tlsVolume n) = ''tls-'' @ n"
  by (simp add: tlsVolume_def shortLabel_def dnsLabel_def tls_label)

lemma dotted_volume_name:
  assumes "ascii x" and "ascii y"
  shows "safeDNSLabel [''tls'', x @ ''.'' @ y] = safeDNSLabel [''tls'', x @ ''-'' @ y]"
proof -
  have "ascii (Join [''tls'', x @ ''.'' @ y] ''-'')" and "ascii (Join [''tls'', x @ ''-'' @ y] ''-'')"
    using assms by (auto simp: ascii_def)
  moreover have "char_of (45 :: nat) = CHR ''-''" by (simp add: dash_of_char)
  ultimately show ?thesis using runes_ascii
    by (simp add: safeDNSLabel_def lowerRunes_def dnsChar_def runeLower_def)
qed

text \<open>What the project asks of every rendered pod.\<close>

definition lockedDown :: "deployment \<Rightarrow> bool" where
  "lockedDown d \<longleftrightarrow>
     (let pod = pt_Spec (dep_Template d) in
      ps_AutomountServiceAccountToken pod = Some False \<and>
      list_all (\<lambda>ct. let sx = ct_SecurityContext ct in
        sx_RunAsNonRoot sx = Some True \<and> sx_AllowPrivilegeEscalation sx = Some False \<and>
        sx_ReadOnlyRootFilesystem sx = Some True \<and> sx_CapDrop sx = [''ALL''] \<and>
        list_all (\<lambda>m. vm_Name m \<in> v_Name ` set (ps_Volumes pod)) (ct_VolumeMounts ct)) (ps_Containers pod) \<and>
      dep_Selector d \<subseteq>\<^sub>m pt_Labels (dep_Template d) \<and>
      m_Labels (dep_Meta d) ManagedByLabel = Some ManagedByValue)"

definition sampleIstiodParams :: istiodParams where
  "sampleIstiodParams = \<lparr>ip_Tenant = ''alice'', ip_Namespace = ''tenant-alice'', ip_Platform = ''aks'',
     ip_Image = '''', ip_Replicas = 0, ip_MemberKubeconfigName = ''member'', ip_MemberKubeconfigKey = '''',
     ip_TLSCertNames = []\<rparr>"

section \<open>Properties\<close>

text \<open>
  C29: every name the renderer derives from a Gateway is a valid DNS label: not empty, at most 63
  characters from \<open>a-z\<close>, \<open>0-9\<close> and the dash, with no dash at either end, whatever bytes the
  Gateway's namespace and name consist of.
\<close>

theorem gateway_names_dnsLabel:
  "dnsLabel (AgentGatewayObjectName gw) \<and> dnsLabel (AgentGatewayTokenSecretName gw)"
  by (simp add: AgentGatewayObjectName_def AgentGatewayTokenSecretName_def dnsLabel_safeDNSLabel)

text \<open>
  When \<open>gw-<namespace>-<name>\<close> is a DNS label, it is the object name: the sanitiser and the
  truncation leave it as it is.
\<close>

theorem AgentGatewayObjectName_plain:
  assumes "dnsLabel (''gw-'' @ gw_Namespace gw @ ''-'' @ gw_Name gw)"
  shows "AgentGatewayObjectName gw = ''gw-'' @ gw_Namespace gw @ ''-'' @ gw_Name gw"
  using safeDNSLabel_id [of "[''gw'', gw_Namespace gw, gw_Name gw]"] assms
  by (simp add: AgentGatewayObjectName_def)

text \<open>An instance.\<close>

theorem AgentGatewayObjectName_plain_witness:
  "AgentGatewayObjectName sampleGateway = ''gw-demo-demo-gw''"
  using AgentGatewayObjectName_plain [of sampleGateway]
  by (simp add: sample_defs dnsLabel_def labelChar_def)

text \<open>
  C22: the Istiod Deployment depends on the certificate names only as a set. Reordering or
  repeating them, or adding empty names, renders the same object, so a reconcile that lists the
  Gateways in another order does not roll the Istiod pods.
\<close>

theorem IstiodDeployment_cert_set:
  assumes "set names - {''''} = set names' - {''''}"
  shows "IstiodDeployment (p\<lparr>ip_TLSCertNames := names\<rparr>) = IstiodDeployment (p\<lparr>ip_TLSCertNames := names'\<rparr>)"
proof -
  have "sortedUniq names = sortedUniq names'" using assms by (rule sortedUniq_unique)
  then show ?thesis
    by (simp add: IstiodDeployment_def defaultIstiodParams_def istiodVolumes_def istiodContainer_def
        istiodMounts_def istiodEnv_def Let_def)
qed

text \<open>Witness for C22.\<close>

theorem IstiodDeployment_cert_set_witness:
  "IstiodDeployment (sampleIstiodParams\<lparr>ip_TLSCertNames := [''b'', ''a'', ''b'']\<rparr>) =
   IstiodDeployment (sampleIstiodParams\<lparr>ip_TLSCertNames := [''a'', '''', ''b'']\<rparr>)"
  by (rule IstiodDeployment_cert_set) auto



text \<open>
  C21: rendered pods are locked down and consistent. Neither Istiod nor agentgateway pods get a
  service account token; their containers run as a non-root user without privilege escalation, with
  a read-only root file system and all capabilities dropped; the Deployment's selector selects its own
  pods; every volume mount names a volume of the pod; every object carries the managed-by label.
\<close>

theorem rendered_lockedDown: "lockedDown (IstiodDeployment p) \<and> lockedDown (AgentGatewayDeployment q)"
  by (auto simp: lockedDown_def Let_def IstiodDeployment_def AgentGatewayDeployment_def istiodContainer_def
      agentGatewayContainer_def istiodMounts_def istiodVolumes_def tlsVolume_def tlsMount_def
      agentGatewayMounts_def agentGatewayVolumes_def istiodLabels_def agentGatewayLabels_def
      list_all_iff map_le_def image_iff render_consts)

text \<open>
  C28: the ports of the agentgateway Service. There is always at least one; port numbers and port
  names are pairwise distinct; and for a Gateway with listeners they are exactly the listener ports.
\<close>

theorem AgentGatewayService_ports:
  "let ports = svc_Ports (AgentGatewayService p); ls = gw_Listeners (gp_Gateway p) in
   ports \<noteq> [] \<and> distinct (map sp_Port ports) \<and> distinct (map sp_Name ports) \<and>
   sp_Port ` set ports = (if ls = [] then {AgentGatewayListen} else l_Port ` set ls)"
proof -
  let ?ls = "gw_Listeners (gp_Gateway p)"
  have "servicePortLoop ?ls {} = [] \<longleftrightarrow> ?ls = []"
    using set_servicePortLoop [of ?ls "{}"] by auto
  then show ?thesis
    using set_servicePortLoop [of ?ls "{}"] distinct_servicePortLoop [of ?ls "{}"]
      distinct_servicePort_names [of ?ls "{}"]
    by (auto simp: AgentGatewayService_def agentGatewayServicePorts_def defaultGatewayParams_def Let_def)
qed

text \<open>
  Certificates named by DNS labels (of at most 59 characters) get volumes of their own: the volume
  names of the Istiod pod are pairwise distinct.
\<close>

theorem istiod_volume_names_distinct:
  assumes "\<forall>n \<in> set (ip_TLSCertNames p) - {''''}. shortLabel n"
  shows "distinct (map v_Name (ps_Volumes (pt_Spec (dep_Template (IstiodDeployment p)))))"
proof -
  let ?ns = "sortedUniq (ip_TLSCertNames p)"
  have names: "map v_Name (map tlsVolume ?ns) = map (\<lambda>n. ''tls-'' @ n) ?ns"
    using assms sortedUniq_props(3) [of "ip_TLSCertNames p"] tlsVolume_name by simp
  then have "distinct (map v_Name (map tlsVolume ?ns))"
    using sortedUniq_props(2) [of "ip_TLSCertNames p"] by (simp add: distinct_map inj_on_def)
  moreover have "''member-kubeconfig'' \<notin> set (map v_Name (map tlsVolume ?ns))"
    and "''cacerts'' \<notin> set (map v_Name (map tlsVolume ?ns))" unfolding names by auto
  ultimately show ?thesis
    by (simp add: IstiodDeployment_def Let_def istiodVolumes_def defaultIstiodParams_def)
qed

text \<open>An instance.\<close>

theorem istiod_volume_names_distinct_witness:
  "distinct (map v_Name (ps_Volumes (pt_Spec (dep_Template
     (IstiodDeployment (sampleIstiodParams\<lparr>ip_TLSCertNames := [''web'', ''api'']\<rparr>))))))"
  by (rule istiod_volume_names_distinct) (simp add: shortLabel_def dnsLabel_def labelChar_def)

text \<open>
  C39: names with dots collide. The Secrets \<open>a.b\<close> and \<open>a-b\<close> are both valid certificate references,
  but their volumes get the same name, so the rendered Istiod Deployment has two volumes of one name.
\<close>

theorem istiod_volume_names_collide:
  assumes "ip_TLSCertNames p = [x @ ''.'' @ y, x @ ''-'' @ y]" and "ascii x" and "ascii y"
  shows "\<not> distinct (map v_Name (ps_Volumes (pt_Spec (dep_Template (IstiodDeployment p)))))"
proof -
  let ?a = "x @ ''.'' @ y" and ?b = "x @ ''-'' @ y"
  let ?ns = "sortedUniq [?a, ?b]"
  have "v_Name (tlsVolume ?a) = v_Name (tlsVolume ?b)"
    using dotted_volume_name [OF assms(2,3)] by (simp add: tlsVolume_def)
  moreover have "?a \<in> set ?ns" and "?b \<in> set ?ns" and "?a \<noteq> ?b"
    by (simp_all add: sortedUniq_props)
  ultimately have "\<not> inj_on (\<lambda>n. v_Name (tlsVolume n)) (set ?ns)" by (meson inj_onD)
  then have "\<not> distinct (map v_Name (map tlsVolume ?ns))" by (simp add: distinct_map comp_def)
  then show ?thesis
    using assms(1) by (simp add: IstiodDeployment_def Let_def istiodVolumes_def defaultIstiodParams_def)
qed

text \<open>Witness for C39: the Secrets \<open>web.tls\<close> and \<open>web-tls\<close>.\<close>

theorem istiod_volume_names_collide_witness:
  "\<not> distinct (map v_Name (ps_Volumes (pt_Spec (dep_Template
     (IstiodDeployment (sampleIstiodParams\<lparr>ip_TLSCertNames := [''web.tls'', ''web-tls'']\<rparr>))))))"
  by (rule istiod_volume_names_collide [where x = "''web''" and y = "''tls''"]) (simp_all add: ascii_def)

end
