(* ===== verification/Apply_Properties.thy ===== *)
theory Apply_Properties
  imports Apply Render_Properties
begin

text \<open>
  The properties of the applier: which calls \<open>Apply\<close> can make, what an update sends, and what
  happens when two Gateways share their object names.
\<close>

section \<open>Rendered Services are stable under re-application\<close>

text \<open>What the API server adds to a Service it stores.\<close>

record allocation =
  al_ClusterIP :: string
  al_ClusterIPs :: "string list"
  al_IPFamilies :: "string list"
  al_IPFamilyPolicy :: "string option"
  al_HealthCheckNodePort :: int
  al_AllocateNodePorts :: "bool option"
  al_NodePort :: "string \<Rightarrow> int"
  al_ResourceVersion :: string

definition allocated :: "allocation \<Rightarrow> service \<Rightarrow> service" where
  "allocated a svc =
     svc\<lparr>svc_Meta := (svc_Meta svc)\<lparr>m_ResourceVersion := al_ResourceVersion a\<rparr>,
       svc_ClusterIP := al_ClusterIP a, svc_ClusterIPs := al_ClusterIPs a,
       svc_IPFamilies := al_IPFamilies a, svc_IPFamilyPolicy := al_IPFamilyPolicy a,
       svc_HealthCheckNodePort := al_HealthCheckNodePort a,
       svc_AllocateLoadBalancerNodePorts := al_AllocateNodePorts a,
       svc_Ports := map (\<lambda>p. p\<lparr>sp_NodePort := al_NodePort a (sp_Name p)\<rparr>) (svc_Ports svc)\<rparr>"

lemma keepNodePort_named:
  assumes "distinct (map sp_Name ps)" and "p \<in> set ps" and "\<forall>q \<in> set ps. sp_Name q \<noteq> ''''"
  shows "keepNodePort (map (\<lambda>q. q\<lparr>sp_NodePort := f (sp_Name q)\<rparr>) ps) p = p\<lparr>sp_NodePort := f (sp_Name p)\<rparr>"
proof -
  have "find (servicePortMatches p) (map (\<lambda>q. q\<lparr>sp_NodePort := f (sp_Name q)\<rparr>) ps) =
      map_option (\<lambda>q. q\<lparr>sp_NodePort := f (sp_Name q)\<rparr>) (find (servicePortMatches p) ps)"
    by (rule find_cong_map) (simp add: servicePortMatches_def)
  also have "find (servicePortMatches p) ps = find (\<lambda>q. sp_Name q = sp_Name p) ps"
    using assms(2,3) by (auto intro!: find_cong simp: servicePortMatches_def)
  also have "\<dots> = Some p" using assms(1,2) by (rule find_unique)
  finally show ?thesis by (simp add: keepNodePort_def)
qed

lemma preserve_allocated:
  assumes "distinct (map sp_Name (svc_Ports svc))" and "\<forall>q \<in> set (svc_Ports svc). sp_Name q \<noteq> ''''"
  shows "preserveServiceFields (allocated a svc) (svc\<lparr>svc_Meta := (svc_Meta svc)\<lparr>m_ResourceVersion := al_ResourceVersion a\<rparr>\<rparr>) =
     allocated a svc"
  using keepNodePort_named [OF assms(1) _ assms(2), of _ "al_NodePort a"]
  by (simp add: preserveServiceFields_def allocated_def)

lemma AgentGatewayService_port_names:
  "distinct (map sp_Name (svc_Ports (AgentGatewayService p)))"
  "\<forall>q \<in> set (svc_Ports (AgentGatewayService p)). sp_Name q \<noteq> ''''"
  using distinct_servicePort_names servicePortLoop_form
  by (auto simp: AgentGatewayService_def agentGatewayServicePorts_def Let_def listenerServicePort_def)
    (metis (no_types, lifting) append_Cons list.distinct(1) listenerServicePort_def servicePort.select_convs(1))

section \<open>What an update sends\<close>

text \<open>The object sent is the one given, but for the resource version and the allocated fields of a Service.\<close>

lemma keepNodePort_other [simp]: "(keepNodePort ps p)\<lparr>sp_NodePort := 0\<rparr> = p\<lparr>sp_NodePort := 0\<rparr>"
  by (simp add: keepNodePort_def split: option.splits)

definition sends :: "clientObject \<Rightarrow> clientObject \<Rightarrow> clientObject \<Rightarrow> bool" where
  "sends x obj obj' \<longleftrightarrow>
     objMeta obj' = (objMeta obj)\<lparr>m_ResourceVersion := m_ResourceVersion (objMeta x)\<rparr> \<and>
     (case obj of
        OService s \<Rightarrow> \<exists>cur s'. x = OService cur \<and> obj' = OService s' \<and>
          svc_Selector s' = svc_Selector s \<and> svc_Type s' = svc_Type s \<and>
          map (\<lambda>p. p\<lparr>sp_NodePort := 0\<rparr>) (svc_Ports s') = map (\<lambda>p. p\<lparr>sp_NodePort := 0\<rparr>) (svc_Ports s) \<and>
          svc_ClusterIP s' = svc_ClusterIP cur \<and> svc_ClusterIPs s' = svc_ClusterIPs cur \<and>
          svc_IPFamilies s' = svc_IPFamilies cur \<and> svc_IPFamilyPolicy s' = svc_IPFamilyPolicy cur \<and>
          svc_HealthCheckNodePort s' = svc_HealthCheckNodePort cur \<and>
          svc_AllocateLoadBalancerNodePorts s' = svc_AllocateLoadBalancerNodePorts cur
      | _ \<Rightarrow> obj' = SetResourceVersion (m_ResourceVersion (objMeta x)) obj)"

lemma prepareForUpdate_sends: "prepareForUpdate x obj = Inr obj' \<Longrightarrow> sends x obj obj'"
  by (cases obj; cases x)
    (auto simp: sends_def prepareForUpdate_def SetResourceVersion_def preserveServiceFields_def split: if_splits)

lemma Apply_found:
  assumes "run_state (objGet c obj (keyOf (objMeta obj))) w = (Inr x, w1)" and "prepareForUpdate x obj = Inr obj'"
    and "run_state (objUpdate c obj') w1 = (a, w2)"
  shows "run_state (Apply (traced k c) obj) (w, es) =
    (case a of Inl e \<Rightarrow> Inl (Wrap (''update '' @ keyString (keyOf (objMeta obj))) e) | Inr _ \<Rightarrow> Inr (),
     w2, es @ [GotObject k (keyOf (objMeta obj)) x, UpdateObject k obj'])"
  using assms by (simp add: Apply_def Let_def objGet_traced objUpdate_traced split: sum.splits)

section \<open>Sample objects\<close>

definition helmService :: service where
  "helmService = sampleService\<lparr>svc_Meta := emptyMeta\<lparr>m_Labels := [ManagedByLabel \<mapsto> ''Helm'']\<rparr>\<rparr>"

definition sampleGatewayParams :: gatewayParams where
  "sampleGatewayParams = \<lparr>gp_Tenant = ''alice'', gp_InfraNamespace = ''tenant-alice'', gp_Platform = ''kind'',
     gp_Gateway = sampleGateway, gp_Image = [], gp_IstiodDNS = [], gp_IstiodPort = 0, gp_TokenExpiration = []\<rparr>"

section \<open>Properties\<close>

text \<open>
  C14: the calls of \<open>Apply\<close> and what it reports, for every answer of the API server. It reads the object once.
  When the answer is that there is none, and only then, it creates it as given, and succeeds when the create
  does or reports that the object exists by now. When the read fails otherwise it makes no further call and
  reports that error. When the object found belongs to another manager it refuses and makes no further call.
  Otherwise it sends exactly one update: of the given object, but for the resource version, which is that of
  the object found, and, for a Service, the allocated fields of the spec; and it succeeds exactly when the
  update does. A failing create or update is reported with its cause.
\<close>

theorem Apply_effects:
  assumes "run_state (Apply (traced k c) obj) (w, es) = (r, w', es')"
    and "run_state (objGet c obj (keyOf (objMeta obj))) w = (got, w1)"
  shows "case got of
     Inl e \<Rightarrow>
       if IsNotFound e then
         \<exists>a. run_state (objCreate c obj) w1 = (a, w') \<and> es' = es @ [CreateObject k obj] \<and>
           (case a of Inr _ \<Rightarrow> r = Inr () | Inl e' \<Rightarrow> if IsAlreadyExists e' then r = Inr () else \<exists>m. r = Inl (Wrap m e'))
       else w' = w1 \<and> es' = es \<and> (\<exists>m. r = Inl (Wrap m e))
   | Inr x \<Rightarrow>
       if foreign x then w' = w1 \<and> es' = es @ [GotObject k (keyOf (objMeta obj)) x] \<and> (\<exists>e. r = Inl e)
       else \<exists>obj' a. run_state (objUpdate c obj') w1 = (a, w') \<and>
         es' = es @ [GotObject k (keyOf (objMeta obj)) x, UpdateObject k obj'] \<and>
         (case a of Inr _ \<Rightarrow> r = Inr () | Inl e' \<Rightarrow> \<exists>m. r = Inl (Wrap m e')) \<and>
         objKind obj' = objKind obj \<and> sends x obj obj'"
proof (cases got)
  case (Inl e)
  then show ?thesis
    using assms by (auto simp: Apply_def Let_def objGet_traced objCreate_traced split: if_splits prod.splits sum.splits)
next
  case (Inr x)
  have kind: "objKind x = objKind obj" using objGet_kind assms(2) Inr by metis
  show ?thesis
  proof (cases "foreign x")
    case True
    then show ?thesis
      using assms Inr prepareForUpdate_foreign [OF True, of obj] by (auto simp: Apply_def Let_def objGet_traced)
  next
    case False
    then obtain obj' where prep: "prepareForUpdate x obj = Inr obj'" "objKind obj' = objKind obj"
      using prepareForUpdate_Inr [OF kind False] by blast
    obtain a w2 where "run_state (objUpdate c obj') w1 = (a, w2)" by force
    with assms Apply_found [OF assms(2) [unfolded Inr] prep(1) this] show ?thesis
      using Inr False prep prepareForUpdate_sends [OF prep(1)]
      by (auto intro!: exI [of _ obj'] split: sum.splits)
  qed
qed

text \<open>Witness for C14: the Service found belongs to another manager.\<close>

theorem Apply_effects_witness:
  "\<exists>r. run_state (Apply (traced Infra (emptyClient\<lparr>services := constResource (Inr helmService)\<rparr>))
       (OService (AgentGatewayService sampleGatewayParams))) ((), []) =
     (r, (), [GotObject Infra (keyOf (svc_Meta (AgentGatewayService sampleGatewayParams))) (OService helmService)]) \<and>
     (\<exists>e. r = Inl e) \<and> foreign (OService helmService)"
proof -
  let ?c = "emptyClient\<lparr>services := constResource (Inr helmService)\<rparr> :: unit client"
  let ?obj = "OService (AgentGatewayService sampleGatewayParams)"
  have "foreign (OService helmService)"
    by (simp add: foreign_def helmService_def mapGet_def render_consts)
  moreover obtain r w' es' where run: "run_state (Apply (traced Infra ?c) ?obj) ((), []) = (r, w', es')"
    using prod_cases3 by blast
  moreover have got: "run_state (objGet ?c ?obj (keyOf (objMeta ?obj))) () = (Inr (OService helmService), ())"
    by (simp add: emptyClient_def constResource_def)
  ultimately show ?thesis using Apply_effects [OF run got] by simp
qed

text \<open>
  C15: applying the Service of an unchanged Gateway again asks for no change. Whatever cluster IPs,
  families, node ports and resource version the API server allocated to the stored Service, the
  update sent is the stored object itself, so no node port or address moves.
\<close>

theorem AgentGatewayService_reapply:
  "prepareForUpdate (OService (allocated a (AgentGatewayService p))) (OService (AgentGatewayService p)) =
     Inr (OService (allocated a (AgentGatewayService p)))"
proof -
  have "\<not> foreign (OService (allocated a (AgentGatewayService p)))"
    by (simp add: foreign_def allocated_def AgentGatewayService_def agentGatewayLabels_def mapGet_def Let_def)
  moreover have "m_ResourceVersion (svc_Meta (allocated a (AgentGatewayService p))) = al_ResourceVersion a"
    by (simp add: allocated_def)
  ultimately show ?thesis
    using preserve_allocated [OF AgentGatewayService_port_names, of a p]
    by (simp add: prepareForUpdate_def SetResourceVersion_def)
qed

text \<open>
  C31: Gateways whose names collide take over each other's objects. Where a dash-separated part moves
  from the namespace to the name, the Service of the second Gateway has the key of the first one's,
  the owner check passes (it looks at the managed-by label only), and the update sent replaces the
  annotations that say whose Service it is and the selector, whatever the stored Service allocates.
\<close>

theorem colliding_gateway_taken_over:
  assumes "gw_Namespace g = x @ ''-'' @ y" and "gw_Name g = z"
    and "gw_Namespace g' = x" and "gw_Name g' = y @ ''-'' @ z"
  shows "let first = AgentGatewayService (p\<lparr>gp_Gateway := g\<rparr>); second = AgentGatewayService (p\<lparr>gp_Gateway := g'\<rparr>) in
     keyOf (svc_Meta first) = keyOf (svc_Meta second) \<and>
     AgentGatewayTokenSecretName g = AgentGatewayTokenSecretName g' \<and>
     (\<exists>svc. prepareForUpdate (OService (allocated a first)) (OService second) = Inr (OService svc) \<and>
        m_Annotations (svc_Meta svc) = AgentGatewayAnnotations g' \<and> svc_Selector svc = AgentGatewayLabels (gp_Tenant p) g')"
proof -
  have names: "AgentGatewayObjectName g = AgentGatewayObjectName g'"
    "AgentGatewayTokenSecretName g = AgentGatewayTokenSecretName g'"
    using assms by (simp_all add: AgentGatewayObjectName_def AgentGatewayTokenSecretName_def safeDNSLabel_def)
  let ?first = "AgentGatewayService (p\<lparr>gp_Gateway := g\<rparr>)" and ?second = "AgentGatewayService (p\<lparr>gp_Gateway := g'\<rparr>)"
  have "\<not> foreign (OService (allocated a ?first))"
    by (simp add: foreign_def allocated_def AgentGatewayService_def agentGatewayLabels_def mapGet_def Let_def)
  then have "prepareForUpdate (OService (allocated a ?first)) (OService ?second) =
      Inr (OService (preserveServiceFields (allocated a ?first)
        (?second\<lparr>svc_Meta := (svc_Meta ?second)\<lparr>m_ResourceVersion := al_ResourceVersion a\<rparr>\<rparr>)))"
    by (simp add: prepareForUpdate_def SetResourceVersion_def allocated_def)
  then show ?thesis
    using names
    by (simp add: Let_def keyOf_def AgentGatewayService_def defaultGatewayParams_def preserveServiceFields_def
        AgentGatewayAnnotations_def AgentGatewayLabels_def)
qed

text \<open>Witness for C31: the Gateways \<open>team-a/web\<close> and \<open>team/a-web\<close>.\<close>

theorem colliding_gateway_taken_over_witness:
  "let g = sampleGateway\<lparr>gw_Meta := emptyMeta\<lparr>m_Namespace := ''team-a'', m_Name := ''web''\<rparr>\<rparr>;
       g' = sampleGateway\<lparr>gw_Meta := emptyMeta\<lparr>m_Namespace := ''team'', m_Name := ''a-web''\<rparr>\<rparr>
   in keyOf (gw_Meta g) \<noteq> keyOf (gw_Meta g') \<and>
      keyOf (svc_Meta (AgentGatewayService (sampleGatewayParams\<lparr>gp_Gateway := g\<rparr>))) =
        keyOf (svc_Meta (AgentGatewayService (sampleGatewayParams\<lparr>gp_Gateway := g'\<rparr>)))"
  using colliding_gateway_taken_over [of
      "sampleGateway\<lparr>gw_Meta := emptyMeta\<lparr>m_Namespace := ''team-a'', m_Name := ''web''\<rparr>\<rparr>" "''team''" "''a''" "''web''"
      "sampleGateway\<lparr>gw_Meta := emptyMeta\<lparr>m_Namespace := ''team'', m_Name := ''a-web''\<rparr>\<rparr>"]
  by (simp add: Let_def keyOf_def)

text \<open>
  \<open>EnsureNamespace\<close> reports success only for a namespace that exists: it was read, or the
  create call succeeded or failed because somebody else had created it; and it never updates or
  deletes a namespace.
\<close>

theorem EnsureNamespace_exists:
  assumes "run_state (EnsureNamespace (traced k c) name) (w, es) = (Inr (), w', es')"
  shows "(\<exists>ns. es' = es @ [GotObject k ('''', name) (ONamespace ns)]) \<or>
     es' = es @ [CreateObject k (ONamespace (managedNamespace name))] \<and>
     (\<exists>w1. run_state (Create (kubeNamespaces c) (managedNamespace name)) w1 = (Inr (), w') \<or>
        (\<exists>e. IsAlreadyExists e \<and> run_state (Create (kubeNamespaces c) (managedNamespace name)) w1 = (Inl e, w')))"
  using assms by (auto simp: EnsureNamespace_def tracedObjects_def split: prod.splits sum.splits if_splits)

text \<open>An instance.\<close>

theorem EnsureNamespace_exists_witness:
  "\<exists>w1 w'. run_state (Create (kubeNamespaces (emptyClient :: unit client)) (managedNamespace ''infra'')) w1 = (Inr (), w')"
proof -
  have "run_state (EnsureNamespace (traced Infra emptyClient) ''infra'') ((), []) =
      (Inr (), (), [CreateObject Infra (ONamespace (managedNamespace ''infra''))])"
    by (simp add: EnsureNamespace_def tracedObjects_def emptyClient_def constResource_def notFoundErr_def IsNotFound_def)
  from EnsureNamespace_exists [OF this] show ?thesis
    by (auto simp: emptyClient_def constResource_def)
qed

end
