(* ===== verification/Status_Properties.thy ===== *)
theory Status_Properties
  imports Status_Writer Sample_Objects
begin

text \<open>
  The properties of the status writers: what each stores, that stored statuses are found
  settled, and what a nil error means.
\<close>

section \<open>The steady state\<close>

lemma acceptedListenerConditions_reports:
  "reports (acceptedListenerConditions cs t g) CondAccepted (ConditionTrue, ''Accepted'', ''Accepted'') g"
  "reports (acceptedListenerConditions cs t g) CondResolvedRefs
     (ConditionTrue, ''ResolvedRefs'', ''Resolved listener references'') g"
  by (simp_all add: acceptedListenerConditions_def reports_pending)

lemma acceptedListenerConditions_fixed:
  assumes "reports cs CondAccepted (ConditionTrue, ''Accepted'', ''Accepted'') g"
    and "reports cs CondResolvedRefs (ConditionTrue, ''ResolvedRefs'', ''Resolved listener references'') g"
    and "isProgrammed cs g"
  shows "acceptedListenerConditions cs t g = cs"
  using assms by (simp add: acceptedListenerConditions_def reports_stable pendingProgrammed_eq)

lemma programmedListener_conditions:
  "acceptedListenerConditions (ls_Conditions (programmedListener t' g (acceptedListener ex t g l))) t'' g =
     ls_Conditions (programmedListener t' g (acceptedListener ex t g l))"
  by (rule acceptedListenerConditions_fixed)
    (simp_all add: programmedListener_def acceptedListener_conditions acceptedListenerConditions_reports)

lemma programmedListener_name [simp]: "ls_Name (programmedListener t g ls) = ls_Name ls"
  by (simp add: programmedListener_def)

lemma programmedListener_accepted_again:
  assumes "wf_existing ex" and "l \<in> set ls"
  shows "acceptedListener (existingListeners (map (\<lambda>l. programmedListener t' g (acceptedListener ex t g l)) ls)) t'' g l =
     programmedListener t' g (acceptedListener ex t g l)"
proof -
  let ?p = "\<lambda>l. programmedListener t' g (acceptedListener ex t g l)"
  let ?new = "existingListeners (map ?p ls)"
  have "l_Name l \<in> ls_Name ` set (map ?p ls)"
    using assms(2) by (simp add: image_image acceptedListener_name [OF assms(1)])
  then obtain s where s: "?new (l_Name l) = Some s"
    by (metis existingListeners_None not_None_eq)
  then obtain l' where l': "s = ?p l'" and n: "l_Name l' = l_Name l"
    using existingListeners_Some [OF s] acceptedListener_name [OF assms(1)] by auto
  have "ls_Conditions s = ls_Conditions (?p l)"
    by (simp add: l' n programmedListener_def acceptedListener_conditions)
  then have "ls_Conditions (acceptedListener ?new t'' g l) = ls_Conditions (?p l)"
    by (simp add: acceptedListener_conditions [of ?new] s programmedListener_conditions)
  then show ?thesis
    using s l' n acceptedListener_name [OF assms(1)] acceptedListener_name [OF wf_existingListeners]
    by (intro listenerStatus.equality) (simp_all, simp add: acceptedListener_def programmedListener_def Let_def)
qed

lemma acceptedStamp_programmed:
  "acceptedStamp t'' (programmedStamp as t' (acceptedStamp t g)) = programmedStamp as t' (acceptedStamp t g)"
proof -
  let ?P = "programmedStamp as t' (acceptedStamp t g)" and ?g = "gw_Generation g"
  let ?A = "(ConditionTrue, ''Accepted'', ''Accepted by appnet-gateway.controller'')"
  have gen: "gw_Meta ?P = gw_Meta g" "gw_Listeners ?P = gw_Listeners g"
    by (simp_all add: acceptedStamp_def programmedStamp_def Let_def)
  have acc: "reports (gs_Conditions (gw_Status ?P)) CondAccepted ?A ?g"
    and prog: "isProgrammed (gs_Conditions (gw_Status ?P)) ?g"
    by (simp_all add: acceptedStamp_def programmedStamp_def Let_def reports_pending)
  have ls: "map (acceptedListener (existingListeners (elems (gs_Listeners (gw_Status ?P)))) t'' ?g) (gw_Listeners g) =
      elems (gs_Listeners (gw_Status ?P))"
    using programmedListener_accepted_again [OF wf_existingListeners]
    by (simp add: acceptedStamp_def programmedStamp_def Let_def comp_def)
  show ?thesis
    unfolding acceptedStamp_def [of t'' ?P] Let_def gen reports_stable [OF acc] ls
      pendingProgrammed_stable [OF disjI1, OF prog]
    by (simp add: acceptedStamp_def programmedStamp_def Let_def)
qed

section \<open>A world that records the routes it is asked to store\<close>

definition sampleRoute :: route where
  "sampleRoute = \<lparr>r_Meta = emptyMeta\<lparr>m_Name := ''other'', m_Namespace := ''demo''\<rparr>,
     r_ParentRefs = [sampleParentRef\<lparr>p_Name := ''other-gw''\<rparr>], r_Hostnames = [], r_Rules = [],
     r_Parents = None\<rparr>"

definition recordingRoutes :: "(route, route list) resource" where
  "recordingRoutes = (constResource (Inr sampleRoute))
     \<lparr>StatusUpdate := (\<lambda>x. State_Monad.bind (State_Monad.update (\<lambda>w. w @ [x])) (\<lambda>_. ok ()))\<rparr>"

section \<open>Properties\<close>

text \<open>
  C24: what \<open>MarkAccepted\<close> stores. The Gateway is \<open>Accepted=True\<close> for its generation;
  \<open>Programmed\<close> is left alone when it is \<open>True\<close> for this generation and reset to
  \<open>Unknown\<close>/\<open>Pending\<close> otherwise; the addresses stay; the listener statuses mirror
  \<open>spec.listeners\<close> in order, each with the route kinds of its protocol and with
  \<open>Accepted=True\<close> and \<open>ResolvedRefs=True\<close> (before any reference has been looked at).
\<close>

theorem MarkAccepted_status:
  "let st = gw_Status fresh; st' = gw_Status (acceptedStamp now fresh); g = gw_Generation fresh in
   reports (gs_Conditions st') CondAccepted
     (ConditionTrue, ''Accepted'', ''Accepted by appnet-gateway.controller'') g \<and>
   (if isProgrammed (gs_Conditions st) g
    then conditionByType (gs_Conditions st') CondProgrammed = conditionByType (gs_Conditions st) CondProgrammed
    else reports (gs_Conditions st') CondProgrammed pendingVerdict g) \<and>
   gs_Addresses st' = gs_Addresses st \<and>
   list_all2 (\<lambda>l ls. ls_Name ls = l_Name l \<and> ls_SupportedKinds ls = supportedKindsForProtocol (l_Protocol l) \<and>
       reports (ls_Conditions ls) CondAccepted (ConditionTrue, ''Accepted'', ''Accepted'') g \<and>
       reports (ls_Conditions ls) CondResolvedRefs
         (ConditionTrue, ''ResolvedRefs'', ''Resolved listener references'') g)
     (gw_Listeners fresh) (elems (gs_Listeners st'))"
  by (auto simp: Let_def acceptedStamp_def reports_pending pendingProgrammed_eq conditionByType_upsert
      list_all2_map2 list.rel_refl_strong acceptedListener_name wf_existingListeners
      acceptedListener_conditions acceptedListenerConditions_reports
      intro!: list.rel_refl_strong) (simp_all add: acceptedListener_def Let_def)

text \<open>
  C25: what \<open>MarkProgrammed\<close> stores. \<open>Programmed=True\<close> for the current generation on the
  Gateway and on every listener status, the given addresses when there are any; every condition
  of another type is unchanged.
\<close>

theorem MarkProgrammed_status:
  "let st = gw_Status fresh; st' = gw_Status (programmedStamp addresses now fresh); g = gw_Generation fresh in
   isProgrammed (gs_Conditions st') g \<and>
   gs_Addresses st' = (if addresses = [] then gs_Addresses st else addresses) \<and>
   (\<forall>ty. ty = CondProgrammed \<or>
      conditionByType (gs_Conditions st') ty = conditionByType (gs_Conditions st) ty) \<and>
   list_all2 (\<lambda>old new. ls_Name new = ls_Name old \<and> isProgrammed (ls_Conditions new) g \<and>
       (\<forall>ty. ty = CondProgrammed \<or>
          conditionByType (ls_Conditions new) ty = conditionByType (ls_Conditions old) ty))
     (elems (gs_Listeners st)) (elems (gs_Listeners st'))"
  by (auto simp: Let_def programmedStamp_def conditionByType_upsert elems_def list_all2_map2
      programmedListener_def list.rel_refl_strong split: option.splits)

text \<open>
  C13: the steady state. Once a Gateway has been accepted and programmed, both writers leave its
  status as it is, at any later time: a reconcile of an unchanged Gateway computes no change.
\<close>

theorem reconcile_status_fixpoint:
  "let g' = programmedStamp addresses t' (acceptedStamp t g) in
   acceptedStamp t'' g' = g' \<and> programmedStamp addresses t'' g' = g'"
  by (simp add: Let_def acceptedStamp_programmed programmedStamp_again)

text \<open>
  A settled status is not written again. When the API server returns a Gateway as
  \<open>MarkAccepted\<close> left it, \<open>MarkAccepted\<close> reads it and the clock and returns nil; the world
  is the one after those two reads, so no update was issued.
\<close>

theorem MarkAccepted_settled:
  assumes "retry_law (RetryOnConflict L)"
    and "run_state (Get (gateways c) (keyOf (gw_Meta gw))) w = (Inr (acceptedStamp t g), w1)"
    and "run_state (Now L) w1 = (t', w2)"
  shows "run_state (MarkAccepted L c gw) w = (Inr (), w2)"
  unfolding MarkAccepted_def using assms by (rule acc.settled)

text \<open>An instance.\<close>

theorem MarkAccepted_settled_witness:
  "run_state (MarkAccepted sampleLib
     (emptyClient\<lparr>gateways := constResource (Inr (acceptedStamp 1 sampleGateway))\<rparr>) sampleGateway) () =
   (Inr (), ())"
  by (rule MarkAccepted_settled [where t = 1 and g = sampleGateway and t' = 100 and ?w1.0 = "()"])
    (simp_all add: sampleLib_def retry_law_attempts constResource_def emptyClient_def)

text \<open>
  C26: a nil error of \<open>MarkProgrammed\<close> means the status is stored. For some Gateway it read,
  either the update of that Gateway with \<open>Programmed=True\<close> and the addresses succeeded last, or
  the Gateway already had exactly that status.
\<close>

theorem MarkProgrammed_written:
  assumes "retry_law (RetryOnConflict L)"
    and "run_state (MarkProgrammed L c gw addresses) w = (Inr (), w')"
  shows "\<exists>x t w1 w2 w3. run_state (Get (gateways c) (keyOf (gw_Meta gw))) w1 = (Inr x, w2) \<and>
     run_state (Now L) w2 = (t, w3) \<and>
     (if programmedStamp addresses t x = x then w' = w3
      else run_state (StatusUpdate (gateways c) (programmedStamp addresses t x)) w3 = (Inr (), w'))"
  using prg.written [OF assms(1), of "gateways c" "keyOf (gw_Meta gw)" addresses w w'] assms(2)
  by (simp add: MarkProgrammed_def)

text \<open>Witness for C26.\<close>

theorem MarkProgrammed_written_witness:
  "\<exists>x t w1 w2 w3. run_state (Get (gateways (emptyClient\<lparr>gateways := constResource (Inr sampleGateway)\<rparr>
       :: unit client)) (keyOf (gw_Meta sampleGateway))) w1 = (Inr x, w2) \<and>
     run_state (Now sampleLib) w2 = (t, w3) \<and>
     (if programmedStamp [] t x = x then () = w3
      else run_state (StatusUpdate (gateways (emptyClient\<lparr>gateways := constResource (Inr sampleGateway)\<rparr>
        :: unit client)) (programmedStamp [] t x)) w3 = (Inr (), ()))"
proof (rule MarkProgrammed_written)
  show "retry_law (RetryOnConflict (sampleLib :: unit lib))"
    by (simp add: sampleLib_def retry_law_attempts)
  show "run_state (MarkProgrammed sampleLib (emptyClient\<lparr>gateways := constResource (Inr sampleGateway)\<rparr>)
      sampleGateway []) () = (Inr (), ())"
    by (simp add: MarkProgrammed_def stampStatus_def updateStatus_def constResource_def emptyClient_def
        sampleLib_def eval_nat_numeral)
qed

text \<open>
  A route that has no parent status yet and does not refer to the Gateway is still written.
  The merge returns an empty slice where the status had none, the two differ for
  \<open>reflect.DeepEqual\<close>, and the writer issues a status update with an empty list of parents.
\<close>

theorem unrelated_route_written:
  assumes "retry_law (RetryOnConflict L)"
    and "run_state (Get res (keyOf (r_Meta r))) w = (Inr r, w1)" and "r_Parents r = None"
    and "filter (\<lambda>ref. parentRefMatchesGateway ref (m_Namespace (r_Meta r)) gw) (r_ParentRefs r) = []"
    and "run_state (Now L) w1 = (now, w2)"
    and "run_state (backendRefsResolved c (m_Namespace (r_Meta r)) kind (backendRefs (r_Rules r))) w2 = (Inr v, w3)"
    and "run_state (StatusUpdate res (r\<lparr>r_Parents := Some []\<rparr>)) w3 = (Inr (), w4)"
  shows "run_state (markRoute L c gw kind backendRefs res r) w = (Inr (), w4)"
proof -
  have loop: "run_state (parentStatusLoop accept ns gw v now gen refs) w' = (Inr [], w')"
    if "filter (\<lambda>ref. parentRefMatchesGateway ref ns gw) refs = []" for accept ns gen refs w'
    using that by (induction refs) (auto split: if_splits)
  have "r\<lparr>r_Parents := Some []\<rparr> \<noteq> r"
    using assms(3) by (metis option.distinct(1) route.select_convs(5) route.surjective route.update_convs(5))
  then show ?thesis
    unfolding markRoute_def updateStatus_def
    by (intro retry_done [OF assms(1)])
      (simp add: assms(2,3,5-7) routeStamp_def routeParentStatuses_def loop [OF assms(4)] mergeRouteParents_def)
qed

text \<open>Witness for The recorded write.\<close>

theorem unrelated_route_written_witness:
  "run_state (markRoute sampleLib emptyClient sampleGateway routeKindHTTP httpBackendObjectRefs
     recordingRoutes sampleRoute) [] = (Inr (), [sampleRoute\<lparr>r_Parents := Some []\<rparr>])"
  by (rule unrelated_route_written [where now = 100 and v = resolvedVerdict and ?w1.0 = "[]"
        and ?w2.0 = "[]" and ?w3.0 = "[]"])
    (simp_all add: sampleLib_def retry_law_attempts recordingRoutes_def constResource_def sampleRoute_def
      parentRefMatchesGateway_def sampleParentRef_def sampleGateway_def sampleMeta_def
      httpBackendObjectRefs_def State_Monad.update_def)

end
