(* ===== verification/Polling.thy ===== *)
theory Polling
  imports Gateway_Reconciler
begin

text \<open>
  The two polling loops of the reconciler, \<open>waitForAgentGatewayAvailable\<close> and \<open>waitForAgentGatewayAddresses\<close>,
  have one contract: read an object once per tick until the reading answers, fails, or the context ends. The
  contract is the interface \<open>poll_loop\<close>; what follows from it is proved once and both loops are instances.
\<close>

section \<open>The contract\<close>

locale poll_loop =
  fixes read :: "('w, 'o) fio"
    and answer :: "'o \<Rightarrow> 'a option"
    and timeout :: 'a
    and wait :: "nat \<Rightarrow> ('w, 'a) fio"
  assumes wait_zero: "wait 0 = tryE read (\<lambda>e. if \<not> IsNotFound e then fail e else ok timeout)
       (\<lambda>x. case answer x of None \<Rightarrow> ok timeout | Some a \<Rightarrow> ok a)"
    and wait_Suc: "wait (Suc n) = tryE read (\<lambda>e. if \<not> IsNotFound e then fail e else wait n)
       (\<lambda>x. case answer x of None \<Rightarrow> wait n | Some a \<Rightarrow> ok a)"
begin

text \<open>A reading that does not end the loop: there is no object, or it has no answer yet.\<close>

definition unanswered :: "error + 'o \<Rightarrow> bool" where
  "unanswered r = (case r of Inl e \<Rightarrow> IsNotFound e | Inr x \<Rightarrow> answer x = None)"

lemma wait_unanswered:
  "run_state read w = (r, w1) \<Longrightarrow> unanswered r \<Longrightarrow> run_state (wait (Suc n)) w = run_state (wait n) w1"
  by (cases r) (auto simp: wait_Suc unanswered_def)

lemma wait_last: "run_state read w = (r, w1) \<Longrightarrow> unanswered r \<Longrightarrow> run_state (wait 0) w = (Inr timeout, w1)"
  by (cases r) (auto simp: wait_zero unanswered_def)

lemma wait_answer: "run_state read w = (Inr x, w1) \<Longrightarrow> answer x = Some a \<Longrightarrow> run_state (wait n) w = (Inr a, w1)"
  by (cases n) (auto simp: wait_zero wait_Suc)

lemma wait_error: "run_state read w = (Inl e, w1) \<Longrightarrow> \<not> IsNotFound e \<Longrightarrow> run_state (wait n) w = (Inl e, w1)"
  by (cases n) (auto simp: wait_zero wait_Suc)

text \<open>The worlds and the readings of a sequence of polls; the first \<open>k\<close> of them are unanswered.\<close>

lemma wait_skip:
  assumes "\<And>i. i < k \<Longrightarrow> run_state read (ws i) = (rs i, ws (Suc i))" and "\<And>i. i < k \<Longrightarrow> unanswered (rs i)" and "k \<le> n"
  shows "run_state (wait n) (ws 0) = run_state (wait (n - k)) (ws k)"
  using assms
proof (induction k)
  case (Suc k)
  then have "run_state (wait n) (ws 0) = run_state (wait (Suc (n - Suc k))) (ws k)" by (simp add: Suc_diff_Suc)
  also have "\<dots> = run_state (wait (n - Suc k)) (ws (Suc k))"
    using Suc.prems(1,2) by (intro wait_unanswered) auto
  finally show ?case .
qed simp

lemma live:
  assumes "\<And>i. i \<le> k \<Longrightarrow> run_state read (ws i) = (rs i, ws (Suc i))" and "\<And>i. i < k \<Longrightarrow> unanswered (rs i)"
    and "rs k = Inr x" and "answer x = Some a" and "k \<le> n"
  shows "run_state (wait n) (ws 0) = (Inr a, ws (Suc k))"
proof -
  have "run_state (wait n) (ws 0) = run_state (wait (n - k)) (ws k)"
    by (rule wait_skip [where rs = rs]) (use assms(1,2,5) in auto)
  also have "\<dots> = (Inr a, ws (Suc k))" using assms(1) [of k] assms(3,4) by (simp add: wait_answer)
  finally show ?thesis .
qed

lemma gives_up:
  assumes "\<And>i. i \<le> n \<Longrightarrow> run_state read (ws i) = (rs i, ws (Suc i))" and "\<And>i. i \<le> n \<Longrightarrow> unanswered (rs i)"
  shows "run_state (wait n) (ws 0) = (Inr timeout, ws (Suc n))"
proof -
  have "run_state (wait n) (ws 0) = run_state (wait (n - n)) (ws n)"
    by (rule wait_skip [where rs = rs]) (use assms in auto)
  then show ?thesis using assms(1) [of n] assms(2) [of n] by (simp add: wait_last)
qed

lemma reports_error:
  assumes "\<And>i. i \<le> k \<Longrightarrow> run_state read (ws i) = (rs i, ws (Suc i))" and "\<And>i. i < k \<Longrightarrow> unanswered (rs i)"
    and "rs k = Inl e" and "\<not> IsNotFound e" and "k \<le> n"
  shows "run_state (wait n) (ws 0) = (Inl e, ws (Suc k))"
proof -
  have "run_state (wait n) (ws 0) = run_state (wait (n - k)) (ws k)"
    by (rule wait_skip [where rs = rs]) (use assms(1,2,5) in auto)
  also have "\<dots> = (Inl e, ws (Suc k))" using assms(1) [of k] assms(3,4) by (simp add: wait_error)
  finally show ?thesis .
qed

end

section \<open>The loops of the reconciler\<close>

definition available :: "deployment \<Rightarrow> bool option" where
  "available dep = (if dep_AvailableReplicas dep \<ge> 1 then Some True else None)"

definition published :: "service \<Rightarrow> gatewayStatusAddress list option" where
  "published svc = (if serviceGatewayAddresses svc \<noteq> [] then Some (serviceGatewayAddresses svc) else None)"

lemma if_option_case: "(if b then f x else g) = (case (if b then Some x else None) of None \<Rightarrow> g | Some y \<Rightarrow> f y)"
  by simp

interpretation av: poll_loop "Get (deployments c) key" available False "waitForAgentGatewayAvailable c key" for c key
  by unfold_locales (simp_all add: pollAvailable_def available_def if_option_case [where f = ok and x = True])

interpretation ad: poll_loop "Get (services c) key" published "[]" "waitForAgentGatewayAddresses c key" for c key
  by unfold_locales (auto simp: pollAddresses_def published_def Let_def tryE_def intro!: arg_cong [where f = "State_Monad.bind _"] ext split: sum.splits)

end
