(* ===== verification/Reconciler_Properties.thy ===== *)
theory Reconciler_Properties
  imports Reconciler_Trace Apply_Properties Status_Properties Polling
begin

text \<open>
  The properties of the reconciler: what a pass may write where and when, what is mounted in
  Istiod, when a member token is renewed, and that the polling loops find a data plane that comes up.
\<close>

section \<open>Reading the guard\<close>

lemma Reconcile_event:
  assumes "retry_law (RetryOnConflict L)" and "clock_law L"
    and "run_state (Reconcile L (tracedDeps d) key ticks) (w, []) = (r, w', pre @ ev # post)"
  shows "reconcileGuard (d_InfraNamespace d) key pre ev"
  using Reconcile_guarded [OF assms] by (rule guardedD)

definition programmedNow :: "gateway \<Rightarrow> bool" where
  "programmedNow g \<longleftrightarrow> isProgrammed (gs_Conditions (gw_Status g)) (gw_Generation g)"

text \<open>The first report keeps a \<open>Programmed\<close> that holds, and never sets it.\<close>

lemma acceptedStamp_keeps_programmed:
  assumes "programmedNow (acceptedStamp t x)"
  shows "programmedNow x \<and> conditionByType (gs_Conditions (gw_Status (acceptedStamp t x))) CondProgrammed =
      conditionByType (gs_Conditions (gw_Status x)) CondProgrammed \<and>
    gs_Addresses (gw_Status (acceptedStamp t x)) = gs_Addresses (gw_Status x)"
  using assms by (auto simp: programmedNow_def acceptedStamp_def Let_def pendingProgrammed_eq conditionByType_upsert split: if_splits)

lemma stamps_keep [simp]:
  "gw_Meta (acceptedStamp t x) = gw_Meta x" "gw_Meta (programmedStamp a t x) = gw_Meta x"
  "gw_Meta (resolvedRefsStamp l v t x) = gw_Meta x"
  "gs_Conditions (gw_Status (resolvedRefsStamp l v t x)) = gs_Conditions (gw_Status x)"
  by (simp_all add: acceptedStamp_def programmedStamp_def resolvedRefsStamp_def Let_def)

section \<open>Istiod\<close>

lemma istiodCertNames_run:
  assumes "\<And>gw. gw \<in> set gws \<Longrightarrow> run_state (isOurs c gw) w = (Inr (ours gw), w)"
  shows "run_state (istiodCertNames c gws) w =
    (Inr (concat (map (\<lambda>gw. gatewayTLSCertNames gw @ gatewayBackendTLSCertNames gw) (filter ours gws))), w)"
  using assms by (induction gws) auto

lemma IstiodDeployment_secret_volume:
  assumes "n \<in> set (ip_TLSCertNames p)" and "n \<noteq> ''''"
  shows "\<lparr>v_Name = safeDNSLabel [''tls'', n], v_Source = secretSource n [] (Some False)\<rparr> \<in>
    set (ps_Volumes (pt_Spec (dep_Template (IstiodDeployment p))))"
  using assms
  by (simp add: IstiodDeployment_def Let_def istiodVolumes_def defaultIstiodParams_def tlsVolume_def sortedUniq_props
      image_iff) blast

section \<open>Polling\<close>

text \<open>A poll that sees no available Deployment: none exists, or it has no available replica.\<close>

definition notYet :: "error + deployment \<Rightarrow> bool" where
  "notYet r = (case r of Inl e \<Rightarrow> IsNotFound e | Inr dep \<Rightarrow> dep_AvailableReplicas dep < 1)"

lemma unanswered_notYet: "notYet r \<longleftrightarrow> av.unanswered r"
  by (auto simp: notYet_def av.unanswered_def available_def split: sum.splits)

section \<open>Sample clusters\<close>

text \<open>A tenant with one HTTPS Gateway whose certificate, Deployment and Service are in place.\<close>

definition tlsListener :: listener where
  "tlsListener = sampleListener\<lparr>l_Name := ''https'', l_Port := 443, l_Protocol := ''HTTPS'',
     l_TLS := Some \<lparr>lt_Mode = None, lt_CertificateRefs =
       [\<lparr>s_Group = None, s_Kind = None, s_Name = ''web'', s_Namespace = None\<rparr>]\<rparr>\<rparr>"

definition tlsGateway :: gateway where
  "tlsGateway = sampleGateway\<lparr>gw_Listeners := [tlsListener]\<rparr>"

definition ourClass :: gatewayClass where
  "ourClass = \<lparr>gc_Meta = emptyMeta\<lparr>m_Name := ''appnet''\<rparr>, gc_ControllerName = ControllerName, gc_Conditions = [], gc_SupportedFeatures = []\<rparr>"

definition webSecret :: secret where
  "webSecret = \<lparr>sec_Meta = emptyMeta, sec_Type = [], sec_Data = [''tls.crt'' \<mapsto> ''c'', ''tls.key'' \<mapsto> ''k''], sec_StringData = Map.empty\<rparr>"

definition readyDeployment :: deployment where
  "readyDeployment = (AgentGatewayDeployment sampleGatewayParams)\<lparr>dep_AvailableReplicas := 1\<rparr>"

definition readyService :: service where
  "readyService = (AgentGatewayService sampleGatewayParams)\<lparr>svc_Ingress := [\<lparr>lb_IP = ''10.0.0.1'', lb_Hostname = []\<rparr>]\<rparr>"

definition sampleMember :: "gateway \<Rightarrow> 'w client" where
  "sampleMember g = emptyClient\<lparr>gateways := constResource (Inr g), gatewayClasses := constResource (Inr ourClass),
     createToken := (\<lambda>_ _ _. ok \<lparr>tr_Token = ''t'', tr_ExpirationTimestamp = Some 0\<rparr>)\<rparr>"

definition sampleInfra :: "'w client" where
  "sampleInfra = emptyClient\<lparr>secrets := constResource (Inr webSecret), deployments := constResource (Inr readyDeployment),
     services := constResource (Inr readyService)\<rparr>"

definition sampleDeps :: "gateway \<Rightarrow> 'w deps" where
  "sampleDeps g = \<lparr>d_Tenant = ''alice'', d_InfraNamespace = ''tenant-alice'', d_Platform = ''kind'',
     d_MemberClient = sampleMember g, d_InfraClient = sampleInfra, d_IstiodImage = [], d_IstiodReplicas = 1,
     d_MemberKubeconfigName = [], d_MemberKubeconfigKey = []\<rparr>"

lemmas cluster_defs = tlsListener_def tlsGateway_def ourClass_def webSecret_def sampleMember_def sampleInfra_def sampleDeps_def

lemma run_logging_pure: "run_state (logging f (pureIO x)) s = (x, (fst s, snd s @ f x))"
  by simp

lemma sample_not_foreign: "\<not> foreign (ODeployment readyDeployment)" "\<not> foreign (OService readyService)" "\<not> foreign (OSecret webSecret)"
  by (simp_all add: foreign_def readyDeployment_def readyService_def webSecret_def AgentGatewayDeployment_def
      AgentGatewayService_def Let_def agentGatewayLabels_def mapGet_def emptyMeta_def)

lemma prepare_simps:
  "\<not> foreign (ODeployment a) \<Longrightarrow> prepareForUpdate (ODeployment a) (ODeployment b) =
     Inr (SetResourceVersion (m_ResourceVersion (dep_Meta a)) (ODeployment b))"
  "\<not> foreign (OService s) \<Longrightarrow> prepareForUpdate (OService s) (OService t) =
     Inr (OService (preserveServiceFields s (t\<lparr>svc_Meta := (svc_Meta t)\<lparr>m_ResourceVersion := m_ResourceVersion (svc_Meta s)\<rparr>\<rparr>)))"
  "\<not> foreign (OSecret u) \<Longrightarrow> prepareForUpdate (OSecret u) (OSecret v) =
     Inr (SetResourceVersion (m_ResourceVersion (sec_Meta u)) (OSecret v))"
  by (simp_all add: prepareForUpdate_def SetResourceVersion_def)

lemma sample_stamps: "acceptedStamp 100 tlsGateway \<noteq> tlsGateway" "programmedStamp a 100 tlsGateway \<noteq> tlsGateway"
proof -
  have "gs_Conditions (gw_Status tlsGateway) = []" by (simp add: tlsGateway_def sample_defs)
  moreover have "conditionByType (gs_Conditions (gw_Status (acceptedStamp 100 tlsGateway))) CondAccepted \<noteq> None"
    "conditionByType (gs_Conditions (gw_Status (programmedStamp a 100 tlsGateway))) CondProgrammed \<noteq> None"
    by (auto simp: acceptedStamp_def programmedStamp_def Let_def conditionByType_upsert pendingProgrammed_eq)
  ultimately show "acceptedStamp 100 tlsGateway \<noteq> tlsGateway" "programmedStamp a 100 tlsGateway \<noteq> tlsGateway"
    by auto
qed

lemma sample_addresses: "serviceGatewayAddresses readyService = [\<lparr>ga_Type = Some IPAddressType, ga_Value = ''10.0.0.1''\<rparr>]"
  by (simp add: serviceGatewayAddresses_def readyService_def)

lemma sample_validated:
  "run_state (validateGatewayTLSAssets (tracedDeps (sampleDeps tlsGateway)) tlsGateway) ((), es) =
     (Inr (), (), es @ [GotObject Infra (''tenant-alice'', ''web'') (OSecret webSecret)])"
  by (simp add: validateGatewayTLSAssets_def validateListener_def listenerCertificateRefs_def validateListenerRef_def
      secretObjectReferenceName_def gatewaySecretReferencePermitted_def requireInfraSecretKeys_def tlsKeys_def
      validateClientCertificate_def clientCertificateRef_def cluster_defs sample_defs gateway_api_consts
      tracedObjects_def mapGet_def Let_def)

lemma cluster_simps:
  "d_InfraNamespace (sampleDeps g) = ''tenant-alice''" "d_MemberClient (sampleDeps g) = sampleMember g"
  "d_InfraClient (sampleDeps g) = sampleInfra" "d_MemberKubeconfigName (sampleDeps g) = []"
  "gateways (sampleMember g) = constResource (Inr g)" "gatewayClasses (sampleMember g) = constResource (Inr ourClass)"
  "serviceAccounts (sampleMember g) = constResource (Inl notFoundErr)"
  "httpRoutes (sampleMember g) = constResource (Inl notFoundErr)"
  "createToken (sampleMember g) sa aud secs = ok \<lparr>tr_Token = ''t'', tr_ExpirationTimestamp = Some 0\<rparr>"
  "secrets sampleInfra = constResource (Inr webSecret)" "deployments sampleInfra = constResource (Inr readyDeployment)"
  "services sampleInfra = constResource (Inr readyService)" "serviceAccounts sampleInfra = constResource (Inl notFoundErr)"
  "Get (constResource r) k = pureIO r" "Create (constResource r) x = ok ()" "Update (constResource r) x = ok ()"
  "Delete (constResource r) x = ok ()" "StatusUpdate (constResource r) x = ok ()"
  "List (constResource (Inl e)) n = fail e"
  by (simp_all add: sampleDeps_def sampleMember_def sampleInfra_def emptyClient_def constResource_def)

lemma sample_accepted:
  "run_state (MarkAccepted sampleLib (traced Member (sampleMember tlsGateway)) tlsGateway) ((), es) =
     (Inr (), (), es @ [GotGateway (''demo'', ''demo-gw'') tlsGateway, WriteGatewayStatus (acceptedStamp 100 tlsGateway)])"
proof -
  have "keyOf (gw_Meta tlsGateway) = (''demo'', ''demo-gw'')" by (simp add: tlsGateway_def sample_defs keyOf_def)
  then show ?thesis
    using sample_stamps
    by (simp add: MarkAccepted_def stampStatus_def updateStatus_def sampleLib_def tracedStatus_def sampleMember_def
        constResource_def emptyClient_def eval_nat_numeral)
qed

definition sampleToken :: string where "sampleToken = FormatRFC3339 0"

definition provisionLog :: "event list" where
  "provisionLog = (let d = (sampleDeps tlsGateway :: unit deps); p = gatewayParamsOf d tlsGateway sampleToken;
       sk = (''tenant-alice'', AgentGatewayTokenSecretName tlsGateway); ok = (''tenant-alice'', AgentGatewayObjectName tlsGateway) in
     [CreateObject Infra (OServiceAccount (AgentGatewayServiceAccountObject (gatewayParamsOf d tlsGateway []))),
      CreateObject Member (OServiceAccount (memberServiceAccount d tlsGateway)),
      GotObject Infra sk (OSecret webSecret),
      RequestToken (memberServiceAccount d tlsGateway),
      GotObject Infra sk (OSecret webSecret),
      UpdateObject Infra (SetResourceVersion [] (OSecret (tokenSecret d tlsGateway ''t'' sampleToken))),
      GotObject Infra ok (ODeployment readyDeployment),
      UpdateObject Infra (SetResourceVersion [] (ODeployment (AgentGatewayDeployment p))),
      GotObject Infra ok (OService readyService),
      UpdateObject Infra (OService (preserveServiceFields readyService (AgentGatewayService p)))])"

lemma sample_keys:
  "keyOf (dep_Meta (AgentGatewayDeployment p)) = (gp_InfraNamespace p, AgentGatewayObjectName (gp_Gateway p))"
  "keyOf (svc_Meta (AgentGatewayService p)) = (gp_InfraNamespace p, AgentGatewayObjectName (gp_Gateway p))"
  "keyOf (sec_Meta (tokenSecret d gw t e)) = (d_InfraNamespace d, AgentGatewayTokenSecretName gw)"
  by (simp_all add: keyOf_def AgentGatewayDeployment_def AgentGatewayService_def tokenSecret_def defaultGatewayParams_def Let_def)

lemma sample_versions:
  "m_ResourceVersion (dep_Meta readyDeployment) = []" "m_ResourceVersion (svc_Meta readyService) = []"
  "m_ResourceVersion (sec_Meta webSecret) = []"
  "(svc_Meta (AgentGatewayService p))\<lparr>m_ResourceVersion := []\<rparr> = svc_Meta (AgentGatewayService p)"
  by (simp_all add: readyDeployment_def readyService_def webSecret_def AgentGatewayDeployment_def AgentGatewayService_def
      Let_def emptyMeta_def)

lemma sample_provision:
  "run_state (provision sampleLib (tracedDeps (sampleDeps tlsGateway)) tlsGateway) ((), es) = (Inr (), (), es @ provisionLog)"
proof -
  have "memberServiceAccount (tracedDeps d) gw = memberServiceAccount d gw"
    "tokenSecret (tracedDeps d) gw t e = tokenSecret d gw t e"
    "gatewayParamsOf (tracedDeps d) gw e = gatewayParamsOf d gw e" for d :: "unit deps" and gw t e
    by (simp_all add: memberServiceAccount_def tokenSecret_def gatewayParamsOf_def)
  moreover have "\<not> tokenSecretCurrent webSecret t" for t by (simp add: tokenSecretCurrent_def webSecret_def mapGet_def)
  moreover have "gp_InfraNamespace (gatewayParamsOf (sampleDeps tlsGateway :: unit deps) gw e) = ''tenant-alice''"
    "gp_Gateway (gatewayParamsOf (sampleDeps tlsGateway :: unit deps) gw e) = gw" for gw e
    by (simp_all add: gatewayParamsOf_def sampleDeps_def)
  ultimately show ?thesis
    using sample_not_foreign
    by (simp add: provision_def ensureAgentGatewayMemberToken_def requestMemberToken_def Apply_def Let_def tracedObjects_def
        cluster_simps IsNotFound_def notFoundErr_def sampleLib_def prepare_simps sample_keys sample_versions provisionLog_def sampleToken_def SetResourceVersion_def)
qed

definition publishLog :: "event list" where
  "publishLog = (let k = (''tenant-alice'', AgentGatewayObjectName tlsGateway) in
     [GotObject Infra k (ODeployment readyDeployment), GotObject Infra k (OService readyService),
      GotGateway (''demo'', ''demo-gw'') tlsGateway, GotGateway (''demo'', ''demo-gw'') tlsGateway,
      WriteGatewayStatus (programmedStamp (serviceGatewayAddresses readyService) 100 tlsGateway)])"

lemma sample_publish:
  "run_state (publish sampleLib (tracedDeps (sampleDeps tlsGateway)) (''demo'', ''demo-gw'') tlsGateway (0, 0)) ((), es) =
     (Inr (), (), es @ publishLog)"
proof -
  have "keyOf (gw_Meta tlsGateway) = (''demo'', ''demo-gw'')" by (simp add: tlsGateway_def sample_defs keyOf_def)
  moreover have "dep_AvailableReplicas readyDeployment = 1" by (simp add: readyDeployment_def)
  ultimately show ?thesis
    using sample_stamps
    by (simp add: publish_def Let_def pollAvailable_def pollAddresses_def tracedObjects_def tracedStatus_def cluster_simps
        sample_addresses MarkProgrammed_def stampStatus_def updateStatus_def sampleLib_def eval_nat_numeral publishLog_def
        MarkRoutesAccepted_def markHTTPRoutesAccepted_def)
qed

text \<open>The log of a pass over that Gateway, from the first read to the last status write.\<close>

definition sampleLog :: "event list" where
  "sampleLog = [GotGateway (''demo'', ''demo-gw'') tlsGateway, GotGateway (''demo'', ''demo-gw'') tlsGateway,
     WriteGatewayStatus (acceptedStamp 100 tlsGateway), GotObject Infra (''tenant-alice'', ''web'') (OSecret webSecret)] @
     provisionLog @ publishLog"

lemma sample_run:
  "run_state (Reconcile sampleLib (tracedDeps (sampleDeps tlsGateway)) (''demo'', ''demo-gw'') (0, 0)) ((), []) =
     (Inr (), (), sampleLog)"
proof -
  have "gc_ControllerName ourClass = ControllerName" by (simp add: ourClass_def)
  then show ?thesis
    by (simp add: Reconcile_def isOurs_def validated_def RefreshIstiod_def sample_accepted sample_validated sample_provision
        sample_publish tracedStatus_def cluster_simps sampleLog_def)
qed

text \<open>The Gateway is gone from the member cluster; its Deployment is left.\<close>

definition goneDeps :: "unit deps" where
  "goneDeps = (sampleDeps tlsGateway)\<lparr>d_MemberClient := emptyClient,
     d_InfraClient := emptyClient\<lparr>deployments := constResource (Inr readyDeployment)\<rparr>\<rparr>"

lemma goneDeps_simps:
  "d_InfraNamespace goneDeps = ''tenant-alice''" "d_MemberKubeconfigName goneDeps = []"
  "gateways (d_MemberClient goneDeps) = constResource (Inl notFoundErr)"
  "deployments (d_InfraClient goneDeps) = constResource (Inr readyDeployment)"
  "services (d_InfraClient goneDeps) = constResource (Inl notFoundErr)"
  "secrets (d_InfraClient goneDeps) = constResource (Inl notFoundErr)"
  by (simp_all add: goneDeps_def sampleDeps_def emptyClient_def)

lemma gone_own:
  "mapGet (m_Labels (dep_Meta readyDeployment)) ManagedByLabel = ManagedByValue"
  "mapGet (m_Annotations (dep_Meta readyDeployment)) GatewayNSAnnotation = ''demo''"
  "mapGet (m_Annotations (dep_Meta readyDeployment)) GatewayNameAnnotation = ''demo-gw''"
  by (simp_all add: readyDeployment_def AgentGatewayDeployment_def Let_def agentGatewayLabels_def agentGatewayAnnotations_def
      mapGet_def defaultGatewayParams_def sampleGatewayParams_def sampleGateway_def sampleMeta_def)

lemma sample_laws: "retry_law (RetryOnConflict sampleLib)" "clock_law sampleLib"
  by (simp_all add: sampleLib_def retry_law_attempts clock_law_def)

lemma sample_log_split:
  "sampleLog = take 4 sampleLog @ CreateObject Infra (OServiceAccount (AgentGatewayServiceAccountObject
     (gatewayParamsOf (sampleDeps tlsGateway :: unit deps) tlsGateway []))) # drop 5 sampleLog"
  "sampleLog = take 5 sampleLog @ CreateObject Member (OServiceAccount
     (memberServiceAccount (sampleDeps tlsGateway :: unit deps) tlsGateway)) # drop 6 sampleLog"
  "sampleLog = take 18 sampleLog @
     WriteGatewayStatus (programmedStamp (serviceGatewayAddresses readyService) 100 tlsGateway) # drop 19 sampleLog"
  by (simp_all add: sampleLog_def provisionLog_def publishLog_def Let_def)

lemmas sample_runs = sample_run [THEN trans, OF arg_cong [OF sample_log_split(1), where f = "\<lambda>es. (Inr (), (), es)"]]
  sample_run [THEN trans, OF arg_cong [OF sample_log_split(2), where f = "\<lambda>es. (Inr (), (), es)"]]
  sample_run [THEN trans, OF arg_cong [OF sample_log_split(3), where f = "\<lambda>es. (Inr (), (), es)"]]

text \<open>A stored token of the Gateway \<open>team-a/web\<close>, and a cluster that counts the polls of a Deployment.\<close>

definition storedToken :: secret where
  "storedToken = (tokenSecret (sampleDeps tlsGateway :: unit deps)
     (sampleGateway\<lparr>gw_Meta := emptyMeta\<lparr>m_Namespace := ''team-a'', m_Name := ''web''\<rparr>\<rparr>) ''t'' (FormatRFC3339 (86400 * nanos)))
     \<lparr>sec_Data := [''token'' \<mapsto> ''t'']\<rparr>"

definition countingClient :: "nat client" where
  "countingClient = emptyClient\<lparr>deployments := (constResource (Inl notFoundErr))
     \<lparr>Get := (\<lambda>_. State (\<lambda>n. (if n < 2 then Inl notFoundErr else Inr readyDeployment, Suc n)))\<rparr>\<rparr>"

section \<open>Properties\<close>



text \<open>
  C2: \<open>Programmed\<close> is only turned on for a data plane that was seen. Let a pass write a Gateway status in which
  \<open>Programmed\<close> is true for the current generation. The write is based on a read of the Gateway and carries that
  read's metadata, hence its resource version. Either the Gateway read was already programmed, and the write
  repeats its \<open>Programmed\<close> condition and its addresses; or before the write the pass had checked all certificates
  and had read the Deployment with an available replica and the Service with exactly the addresses written.
\<close>

theorem Reconcile_programmed_when_ready:
  assumes "retry_law (RetryOnConflict L)" and "clock_law L"
    and "run_state (Reconcile L (tracedDeps d) key ticks) (w, []) = (r, w', pre @ WriteGatewayStatus g # post)"
    and "programmedNow g"
  shows "\<exists>x. freshRead key pre x \<and> gw_Meta g = gw_Meta x \<and>
     (programmedNow x \<and>
        conditionByType (gs_Conditions (gw_Status g)) CondProgrammed = conditionByType (gs_Conditions (gw_Status x)) CondProgrammed \<and>
        gs_Addresses (gw_Status g) = gs_Addresses (gw_Status x) \<or>
      (\<exists>gw. cleared (d_InfraNamespace d) key gw pre \<and>
        dataPlaneReady (d_InfraNamespace d) gw (gs_Addresses (gw_Status g)) pre))"
proof -
  have "statusWrite (d_InfraNamespace d) key pre g" using Reconcile_event [OF assms(1-3)] by simp
  then obtain t x where x: "freshRead key pre x" and
    "g = acceptedStamp t x \<or> (\<exists>l v. g = resolvedRefsStamp l v t x) \<or>
     (\<exists>gw addresses. g = programmedStamp addresses t x \<and> cleared (d_InfraNamespace d) key gw pre \<and>
        dataPlaneReady (d_InfraNamespace d) gw addresses pre)"
    unfolding statusWrite_def by blast
  then show ?thesis
  proof (elim disjE exE conjE)
    assume "g = acceptedStamp t x"
    then show ?thesis using x assms(4) acceptedStamp_keeps_programmed by (intro exI [of _ x]) simp
  next
    fix l v
    assume "g = resolvedRefsStamp l v t x"
    then show ?thesis using x assms(4) by (intro exI [of _ x]) (simp add: programmedNow_def resolvedRefsStamp_def Let_def)
  next
    fix gw addresses
    assume "g = programmedStamp addresses t x" and "cleared (d_InfraNamespace d) key gw pre"
      and ready: "dataPlaneReady (d_InfraNamespace d) gw addresses pre"
    moreover from this have "gs_Addresses (gw_Status g) = addresses" by (simp add: programmedStamp_def Let_def dataPlaneReady_def)
    ultimately show ?thesis using x by (intro exI [of _ x]) auto
  qed
qed

text \<open>Witness for C2: the last write of the sample pass.\<close>

theorem Reconcile_programmed_when_ready_witness:
  "\<exists>gw. cleared ''tenant-alice'' (''demo'', ''demo-gw'') gw (take 18 sampleLog) \<and>
     dataPlaneReady ''tenant-alice'' gw [\<lparr>ga_Type = Some IPAddressType, ga_Value = ''10.0.0.1''\<rparr>] (take 18 sampleLog)"
proof -
  let ?g = "programmedStamp (serviceGatewayAddresses readyService) 100 tlsGateway"
  have addresses: "gs_Addresses (gw_Status ?g) = [\<lparr>ga_Type = Some IPAddressType, ga_Value = ''10.0.0.1''\<rparr>]"
    by (simp add: programmedStamp_def Let_def sample_addresses)
  have "programmedNow ?g" by (simp add: programmedNow_def programmedStamp_def Let_def)
  from Reconcile_programmed_when_ready [OF sample_laws sample_runs(3) this]
  obtain x where "freshRead (''demo'', ''demo-gw'') (take 18 sampleLog) x" and
    "programmedNow x \<or> (\<exists>gw. cleared ''tenant-alice'' (''demo'', ''demo-gw'') gw (take 18 sampleLog) \<and>
       dataPlaneReady ''tenant-alice'' gw (gs_Addresses (gw_Status ?g)) (take 18 sampleLog))"
    by (auto simp: cluster_simps)
  moreover have "\<not> programmedNow x" if "freshRead (''demo'', ''demo-gw'') (take 18 sampleLog) x" for x
    using that
    by (auto simp: freshRead_def sampleLog_def provisionLog_def publishLog_def Let_def tlsGateway_def sample_defs
        programmedNow_def isProgrammed_def)
  ultimately show ?thesis using addresses by auto
qed

text \<open>
  C10: what a pass does in the member cluster. Besides reads, and creations, updates and deletions in the
  infra cluster, every call of a pass is one of these: it creates or updates the agentgateway service account
  in the namespace of the Gateway it reconciles, the update at the version read; it requests a token for that
  account; all three only after the certificates were checked; it writes the status of the Gateway, where
  everything but the status is as it was read; or it writes the status of a route, after the data plane was
  seen ready. It deletes nothing there, writes no GatewayClass, and updates no Gateway or route but its status.
\<close>

theorem Reconcile_member_writes:
  assumes "retry_law (RetryOnConflict L)" and "clock_law L"
    and "run_state (Reconcile L (tracedDeps d) key ticks) (w, []) = (r, w', pre @ ev # post)"
  shows "case ev of
       GotObject k n x \<Rightarrow> True
     | GotGateway n x \<Rightarrow> True
     | CreateObject k obj \<Rightarrow> k = Member \<longrightarrow> memberAccount (d_InfraNamespace d) key pre obj
     | UpdateObject k obj \<Rightarrow> k = Member \<longrightarrow> memberAccount (d_InfraNamespace d) key pre obj \<and> readBefore Member pre obj
     | DeleteObject k obj \<Rightarrow> k \<noteq> Member
     | WriteGatewayStatus g \<Rightarrow> \<exists>x. freshRead key pre x \<and> g = x\<lparr>gw_Status := gw_Status g\<rparr>
     | WriteRouteStatus rt \<Rightarrow> \<exists>gw addresses. cleared (d_InfraNamespace d) key gw pre \<and> dataPlaneReady (d_InfraNamespace d) gw addresses pre
     | RequestToken sa \<Rightarrow> memberAccount (d_InfraNamespace d) key pre (OServiceAccount sa)
     | WriteClassStatus gc \<Rightarrow> False
     | WriteOther \<Rightarrow> False"
proof -
  have guard: "reconcileGuard (d_InfraNamespace d) key pre ev" using Reconcile_event [OF assms] .
  show ?thesis
  proof (cases ev)
    case (CreateObject k obj)
    then show ?thesis using guard by (cases k) auto
  next
    case (UpdateObject k obj)
    then show ?thesis using guard by (cases k) auto
  next
    case (DeleteObject k obj)
    then show ?thesis using guard by (cases k) auto
  next
    case (WriteGatewayStatus g)
    then have "statusWrite (d_InfraNamespace d) key pre g" using guard by simp
    then obtain x where "freshRead key pre x" and "g = x\<lparr>gw_Status := gw_Status g\<rparr>"
      unfolding statusWrite_def by (auto simp: acceptedStamp_def resolvedRefsStamp_def programmedStamp_def Let_def)
    then show ?thesis using WriteGatewayStatus by auto
  qed (use guard in auto)
qed

text \<open>Witness for C10.\<close>

theorem Reconcile_member_writes_witness:
  "memberAccount ''tenant-alice'' (''demo'', ''demo-gw'') (take 5 sampleLog)
     (OServiceAccount (memberServiceAccount (sampleDeps tlsGateway :: unit deps) tlsGateway))"
  using Reconcile_member_writes [OF sample_laws sample_runs(2)]
  by (simp add: cluster_simps)

text \<open>
  C9: a pass deletes only what is the Gateway's own. Every object it deletes is in the infra
  namespace, was read before, carries the managed-by label, and its source annotations, where it has
  them, name the Gateway being reconciled.
\<close>

theorem Reconcile_deletes_own:
  assumes "retry_law (RetryOnConflict L)" and "clock_law L"
    and "run_state (Reconcile L (tracedDeps d) key ticks) (w, []) = (r, w', pre @ DeleteObject k obj # post)"
  shows "k = Infra \<and> (\<exists>name. GotObject Infra (d_InfraNamespace d, name) obj \<in> set pre) \<and>
     mapGet (GetLabels obj) ManagedByLabel = ManagedByValue \<and>
     mapGet (GetAnnotations obj) GatewayNSAnnotation \<in> {'''', fst key} \<and>
     mapGet (GetAnnotations obj) GatewayNameAnnotation \<in> {'''', snd key}"
  using Reconcile_event [OF assms] by (cases k) (simp_all add: ownObject_def)

text \<open>Witness for C9: the Gateway is gone, its Deployment is deleted.\<close>

theorem Reconcile_deletes_own_witness:
  "mapGet (GetAnnotations (ODeployment readyDeployment)) GatewayNSAnnotation \<in> {'''', ''demo''}"
proof -
  let ?k = "(''tenant-alice'', AgentGatewayObjectName (stubGateway (''demo'', ''demo-gw'')))"
  have "run_state (Reconcile sampleLib (tracedDeps goneDeps) (''demo'', ''demo-gw'') (0, 0)) ((), []) =
      (Inr (), (), [GotObject Infra ?k (ODeployment readyDeployment)] @ DeleteObject Infra (ODeployment readyDeployment) # [])"
    using gone_own
    by (simp add: Reconcile_def cleanUp_def deleteAgentGateway_def deleteManagedGatewayObject_def RefreshIstiod_def
        objGet_traced objDelete_traced tracedStatus_def tracedObjects_def goneDeps_simps cluster_simps IsNotFound_def notFoundErr_def
        sample_keys stubParams_def)
  from Reconcile_deletes_own [OF sample_laws this] show ?thesis by simp
qed

text \<open>
  C30: what a refresh of Istiod mounts. When the classes of the listed Gateways can be read, the refresh
  applies one Deployment, and in it every certificate any listener or client certificate reference of
  any Gateway of the controller names is a volume that must exist for the pod to start, whether or not that
  Gateway was ever validated: neither the existence of the Secret nor a ReferenceGrant is looked at.
\<close>

theorem RefreshIstiod_mounts_every_reference:
  assumes "d_MemberKubeconfigName d \<noteq> ''''"
    and "run_state (List (gateways (d_MemberClient d)) None) w = (Inr gws, w1)"
    and "\<And>gw. gw \<in> set gws \<Longrightarrow> run_state (isOurs (d_MemberClient d) gw) w1 = (Inr (ours gw), w1)"
    and "run_state (backendTLSPolicyCACertNames (d_MemberClient d)) w1 = (cas, w2)"
  shows "\<exists>dep. run_state (RefreshIstiod d) w =
       run_state (bindE (Apply (d_InfraClient d) (ODeployment dep)) (Wrap ''apply istiod deployment'') ok) w2 \<and>
     (\<forall>gw \<in> set gws. ours gw \<longrightarrow> (\<forall>n \<in> gatewayCerts gw - {''''}.
        \<exists>vn. \<lparr>v_Name = vn, v_Source = secretSource n [] (Some False)\<rparr> \<in> set (ps_Volumes (pt_Spec (dep_Template dep)))))"
proof -
  let ?certs = "concat (map (\<lambda>gw. gatewayTLSCertNames gw @ gatewayBackendTLSCertNames gw) (filter ours gws)) @ cas"
  let ?dep = "IstiodDeployment (istiodParamsOf d ?certs)"
  have "run_state (RefreshIstiod d) w =
      run_state (bindE (Apply (d_InfraClient d) (ODeployment ?dep)) (Wrap ''apply istiod deployment'') ok) w2"
    using assms(1,2,4) istiodCertNames_run [of gws "d_MemberClient d" w1 ours, OF assms(3)]
    by (simp add: RefreshIstiod_def)
  moreover have "n \<in> set (ip_TLSCertNames (istiodParamsOf d ?certs))"
    if "gw \<in> set gws" "ours gw" "n \<in> gatewayCerts gw" for gw n
    using that by (auto simp: gatewayCerts_def istiodParamsOf_def)
  ultimately show ?thesis using IstiodDeployment_secret_volume by blast
qed

text \<open>Witness for C30: the Secret \<open>web\<close> of the sample Gateway is mounted although no read of it is made.\<close>

theorem RefreshIstiod_mounts_every_reference_witness:
  "\<exists>dep vn. run_state (RefreshIstiod ((sampleDeps tlsGateway)\<lparr>d_MemberKubeconfigName := ''member''\<rparr>)) () =
      run_state (bindE (Apply sampleInfra (ODeployment dep)) (Wrap ''apply istiod deployment'') ok) () \<and>
      \<lparr>v_Name = vn, v_Source = secretSource ''web'' [] (Some False)\<rparr> \<in> set (ps_Volumes (pt_Spec (dep_Template dep)))"
proof -
  let ?d = "(sampleDeps tlsGateway)\<lparr>d_MemberKubeconfigName := ''member''\<rparr> :: unit deps"
  have ours: "run_state (isOurs (sampleMember tlsGateway) gw) () = (Inr True, ())" for gw
    by (simp add: isOurs_def cluster_simps ourClass_def)
  have "run_state (List (gateways (sampleMember tlsGateway)) None) () = (Inr [tlsGateway], ())"
    by (simp add: sampleMember_def constResource_def)
  moreover have "run_state (backendTLSPolicyCACertNames (sampleMember tlsGateway)) () = ([], ())"
    by (simp add: backendTLSPolicyCACertNames_def sampleMember_def emptyClient_def constResource_def)
  moreover have "''web'' \<in> gatewayCerts tlsGateway"
    by (simp add: gatewayCerts_def gatewayTLSCertNames_refs tlsGateway_def tlsListener_def listenerCertificateRefs_def
        gateway_api_consts secretObjectReferenceName_def)
  ultimately show ?thesis
    using RefreshIstiod_mounts_every_reference [of ?d "()" "[tlsGateway]" "()" "\<lambda>_. True" "[]" "()"] ours
    by (auto simp: cluster_simps)
qed

text \<open>
  C27: when a member token is renewed. A token Secret as the reconciler writes it, with the token in its
  data once stored, is current exactly as long as the expiration, cut to whole seconds, is more than
  four hours away; the expiration survives the round trip through its annotation (years up to 9999).
\<close>

theorem tokenSecretCurrent_iff:
  assumes "0 \<le> t" and "t < 253402300800 * nanos" and "token \<noteq> ''''"
  shows "tokenSecretCurrent ((tokenSecret d gw token (FormatRFC3339 t))\<lparr>sec_Data := [''token'' \<mapsto> token]\<rparr>) now \<longleftrightarrow>
     now + 4 * 3600 * nanos < t div nanos * nanos"
proof -
  have "FormatRFC3339 t \<noteq> ''''" by (simp add: FormatRFC3339_def Let_def split: prod.splits)
  then show ?thesis
    using assms(3) ParseRFC3339_Format [OF assms(1,2)]
    by (simp add: tokenSecretCurrent_def tokenSecret_def mapGet_def agentGatewayTokenRefresh_def)
qed

text \<open>Witness for C27: a token that expires at 2024-02-29T12:34:56Z, five hours before.\<close>

theorem tokenSecretCurrent_iff_witness:
  "tokenSecretCurrent ((tokenSecret (sampleDeps tlsGateway :: unit deps) tlsGateway ''t'' (FormatRFC3339 (1709210096 * nanos)))
     \<lparr>sec_Data := [''token'' \<mapsto> ''t'']\<rparr>) (1709192096 * nanos)"
  using tokenSecretCurrent_iff [of "1709210096 * nanos" "''t''" "sampleDeps tlsGateway :: unit deps" tlsGateway "1709192096 * nanos"]
  by (simp add: nanos_def)

text \<open>
  C32: a Gateway whose names collide with another one's runs with that one's identity. When the token
  Secret stored for the first Gateway is current, a pass over the second reads that Secret, returns its
  expiration and requests no token of its own: the owner annotations of the Secret are not compared,
  and the two service accounts are in different namespaces of the member cluster.
\<close>

theorem colliding_gateway_reuses_token:
  assumes "gw_Namespace g = x @ ''-'' @ y" and "gw_Name g = z"
    and "gw_Namespace g' = x" and "gw_Name g' = y @ ''-'' @ z"
    and "stored = (tokenSecret d g token (FormatRFC3339 t))\<lparr>sec_Data := [''token'' \<mapsto> token]\<rparr>" and "token \<noteq> ''''"
    and "0 \<le> t" and "t < 253402300800 * nanos" and "now + 4 * 3600 * nanos < t div nanos * nanos"
    and "run_state (Apply (d_MemberClient d) (OServiceAccount (memberServiceAccount d g'))) w = (Inr (), w1)"
    and "run_state (Get (secrets (d_InfraClient d)) (keyOf (sec_Meta stored))) w1 = (Inr stored, w2)"
    and "run_state (Now L) w2 = (now, w3)"
  shows "run_state (ensureAgentGatewayMemberToken L d g') w = (Inr (FormatRFC3339 t), w3)"
proof -
  have "AgentGatewayTokenSecretName g = AgentGatewayTokenSecretName g'"
    using assms(1-4) by (simp add: AgentGatewayTokenSecretName_def safeDNSLabel_def)
  then have "keyOf (sec_Meta stored) = (d_InfraNamespace d, AgentGatewayTokenSecretName g')"
    by (simp add: assms(5) tokenSecret_def keyOf_def)
  moreover have "tokenSecretCurrent stored now"
  proof -
    have "FormatRFC3339 t \<noteq> ''''" by (simp add: FormatRFC3339_def Let_def split: prod.splits)
    then show ?thesis
      using assms(6,9) ParseRFC3339_Format [OF assms(7,8)]
      by (simp add: assms(5) tokenSecretCurrent_def tokenSecret_def mapGet_def agentGatewayTokenRefresh_def)
  qed
  ultimately show ?thesis
    using assms(10-12) by (simp add: ensureAgentGatewayMemberToken_def assms(5) tokenSecret_def mapGet_def)
qed

text \<open>Witness for C32: the token of \<open>team-a/web\<close> is used for \<open>team/a-web\<close>.\<close>

theorem colliding_gateway_reuses_token_witness:
  "run_state (ensureAgentGatewayMemberToken sampleLib
      ((sampleDeps tlsGateway)\<lparr>d_InfraClient := emptyClient\<lparr>secrets := constResource (Inr storedToken)\<rparr>\<rparr>)
      (sampleGateway\<lparr>gw_Meta := emptyMeta\<lparr>m_Namespace := ''team'', m_Name := ''a-web''\<rparr>\<rparr>)) () =
   (Inr (FormatRFC3339 (86400 * nanos)), ())"
  by (rule colliding_gateway_reuses_token [where x = "''team''" and y = "''a''" and z = "''web''" and token = "''t''"
        and g = "sampleGateway\<lparr>gw_Meta := emptyMeta\<lparr>m_Namespace := ''team-a'', m_Name := ''web''\<rparr>\<rparr>"
        and stored = storedToken and ?w1.0 = "()" and ?w2.0 = "()" and now = 100])
    (simp_all add: storedToken_def tokenSecret_def sampleDeps_def nanos_def Apply_def Let_def cluster_simps
      notFoundErr_def IsNotFound_def sampleLib_def AgentGatewayLabels_def)

text \<open>
  The wait for the Deployment is live. If the polls up to number \<open>k\<close> find no Deployment or none
  available, poll \<open>k\<close> finds an available replica, and the context lasts for \<open>k\<close> ticks, the loop returns
  true right after that poll.
\<close>

theorem waitForAgentGatewayAvailable_live:
  assumes "\<And>i. i \<le> k \<Longrightarrow> run_state (Get (deployments c) key) (ws i) = (rs i, ws (Suc i))"
    and "\<And>i. i < k \<Longrightarrow> notYet (rs i)" and "rs k = Inr dep" and "dep_AvailableReplicas dep \<ge> 1" and "k \<le> ticks"
  shows "run_state (waitForAgentGatewayAvailable c key ticks) (ws 0) = (Inr True, ws (Suc k))"
  using assms by (intro av.live [where rs = rs and x = dep]) (auto simp: unanswered_notYet available_def)

text \<open>Witness for A cluster that counts the polls and has the Deployment ready at the third.\<close>

theorem waitForAgentGatewayAvailable_live_witness:
  "run_state (waitForAgentGatewayAvailable countingClient (''tenant-alice'', ''gw'') 5) 0 = (Inr True, 3)"
proof -
  have "run_state (waitForAgentGatewayAvailable countingClient (''tenant-alice'', ''gw'') 5) (id 0) = (Inr True, id (Suc 2))"
    by (rule waitForAgentGatewayAvailable_live [where rs = "\<lambda>n. if n < 2 then Inl notFoundErr else Inr readyDeployment"
          and dep = readyDeployment])
      (simp_all add: countingClient_def notYet_def notFoundErr_def IsNotFound_def readyDeployment_def)
  then show ?thesis by simp
qed

end
