(* ===== verification/Event_Properties.thy ===== *)
theory Event_Properties
  imports Work_Queue Event_Handlers Reconciler_Properties
begin

text \<open>
  The properties of event processing: one worker per Gateway, no lost event, no needless pass, progress;
  the retry loop; and where events are lost or ignored.
\<close>

section \<open>Histories\<close>

text \<open>An event of the key came after the last start of a reconcile for it (the newest label is first).\<close>

fun pending :: "nname \<Rightarrow> label list \<Rightarrow> bool" where
  "pending k [] = False"
| "pending k (l # tr) = (l = Enqueue k \<or> l \<noteq> Start k \<and> pending k tr)"

fun obligations :: "status \<Rightarrow> nat" where
  "obligations Idle = 0"
| "obligations (Active ph d) = (if ph = Ready then 1 else 0) + (if d then 1 else 0)"

text \<open>What a step does to one key.\<close>

lemma specStep_key:
  assumes "specStep a l a'"
  shows "l = Enqueue k \<and> a' k = onEnqueue (a k) \<or>
     (\<exists>d. l = Start k \<and> a k = Active Ready d \<and> a' k = Active Reconciling d) \<or>
     (\<exists>d. l = Finish k \<and> a k = Active Reconciling d \<and> a' k = Active Finished d) \<or>
     (\<exists>d. l = Settle k \<and> a k = Active Finished d \<and> a' k = onSettle d) \<or>
     l \<noteq> Enqueue k \<and> l \<noteq> Start k \<and> a' k = a k"
  using assms by cases auto

lemma obligations_simps [simp]:
  "obligations (onEnqueue Idle) = 1" "obligations (onEnqueue (Active ph d)) = (if ph = Ready then 2 else 1)"
  "obligations (onSettle d) = (if d then 1 else 0)"
  by (cases d; simp)+

lemma obligations_onEnqueue: "0 < obligations (onEnqueue st) \<and> obligations (onEnqueue st) \<le> Suc (obligations st)"
  by (cases st) simp_all

lemma spec_pending: "specReach tr a \<Longrightarrow> pending k tr \<Longrightarrow> 0 < obligations (a k)"
proof (induction rule: specReach.induct)
  case (2 tr a l a')
  then show ?case using specStep_key [OF 2(2), of k] obligations_onEnqueue [of "a k"] by (auto split: if_splits)
qed simp

lemma spec_count: "specReach tr a \<Longrightarrow> count_list tr (Start k) + obligations (a k) \<le> count_list tr (Enqueue k)"
proof (induction rule: specReach.induct)
  case (2 tr a l a')
  then show ?case using specStep_key [OF 2(2), of k] obligations_onEnqueue [of "a k"] by (auto split: if_splits)
qed simp

text \<open>A key with an obligation has a worker that is ready, or one whose cell is dirty.\<close>

lemma pending_worker:
  assumes "reach tr p" and "pending k tr"
  obtains s g ph where "owns p k s g ph" and "ph = Ready \<or> dirty (heap p s)"
proof -
  obtain a where a: "specReach tr a" "refines p a" using reach_refines [OF assms(1)] by blast
  then have "0 < obligations (a k)" using spec_pending assms(2) by blast
  then obtain ph d where st: "a k = Active ph d" "ph = Ready \<or> d"
    by (cases "a k") (auto split: if_splits)
  then show ?thesis using refinesD [OF a(2), of k] that by (auto simp: keyRefines_def)
qed

lemma settle_step:
  assumes "workers p g = Some w" and "wk_phase w = Finished" and "dirty (heap p (wk_state w))"
  shows "\<exists>p'. step p (Settle (wk_key w)) p' \<and> workers p' g = Some (w\<lparr>wk_phase := Ready\<rparr>)"
  using step_settle [OF assms(1,2)] assms(3) by (intro exI [of _ "runSettle g w p"]) (simp add: runSettle_def)

lemma start_reach:
  assumes "reach tr p" and "workers p g = Some w" and "wk_phase w = Ready"
  shows "\<exists>p'. reach (Start (wk_key w) # tr) p'"
  using reach_step [OF assms(1) step_start [OF assms(2,3)]] by blast

lemma settle_reach:
  assumes "reach tr p" and "workers p g = Some w" and "wk_phase w = Finished" and "dirty (heap p (wk_state w))"
  shows "\<exists>p'. reach (Start (wk_key w) # Settle (wk_key w) # tr) p'"
proof -
  obtain p' where "step p (Settle (wk_key w)) p'" "workers p' g = Some (w\<lparr>wk_phase := Ready\<rparr>)"
    using settle_step [OF assms(2-4)] by blast
  then show ?thesis using start_reach [OF reach_step [OF assms(1)], of _ p' g "w\<lparr>wk_phase := Ready\<rparr>"] by simp
qed

lemma finish_reach:
  assumes "reach tr p" and "workers p g = Some w" and "wk_phase w = Reconciling" and "dirty (heap p (wk_state w))"
  shows "\<exists>p'. reach (Start (wk_key w) # Settle (wk_key w) # Finish (wk_key w) # tr) p'"
proof -
  let ?w = "w\<lparr>wk_phase := Finished\<rparr>" and ?p = "p\<lparr>workers := (workers p)(g \<mapsto> w\<lparr>wk_phase := Finished\<rparr>)\<rparr>"
  have "reach (Finish (wk_key w) # tr) ?p" using reach_step [OF assms(1) step_finish [OF assms(2,3)]] .
  then show ?thesis using settle_reach [of "Finish (wk_key w) # tr" ?p g ?w] assms(4) by simp
qed

text \<open>The steps of a worker that lead to its next reconcile, the last step first.\<close>

definition restarts :: "nname \<Rightarrow> label list set" where
  "restarts k = {[Start k], [Start k, Settle k], [Start k, Settle k, Finish k]}"

lemma pending_restarts:
  assumes "reach tr p" and "pending k tr"
  shows "\<exists>ls\<in>restarts k. \<exists>p'. reach (ls @ tr) p'"
proof -
  obtain s g ph where own: "owns p k s g ph" and ob: "ph = Ready \<or> dirty (heap p s)"
    using pending_worker [OF assms] .
  let ?w = "\<lparr>wk_key = k, wk_state = s, wk_phase = ph\<rparr>"
  have "workers p g = Some ?w" using own by (simp add: owns_def)
  then show ?thesis
    using ob start_reach [OF assms(1), of g ?w] settle_reach [OF assms(1), of g ?w] finish_reach [OF assms(1), of g ?w]
    by (cases ph) (auto simp: restarts_def)
qed

text \<open>Events that are handed over one after the other leave each of their keys pending.\<close>

lemma reach_enqueues: "reach tr p \<Longrightarrow> reach (rev (map Enqueue ks) @ tr) (fold enqueue ks p)"
proof (induction ks arbitrary: tr p)
  case (Cons k ks)
  then show ?case using Cons.IH [OF reach_step [OF Cons.prems step_enqueue]] by simp
qed simp

lemma pending_enqueues: "k \<in> set ks \<Longrightarrow> pending k (rev (map Enqueue ks) @ tr)"
proof (induction ks arbitrary: tr rule: rev_induct)
  case (snoc k' ks)
  then show ?case by auto
qed simp

section \<open>Retries\<close>

lemma attemptLoop_success:
  assumes "\<And>i. i < k \<Longrightarrow> (\<exists>e. run_state (m (n - 1 - i)) (ws i) = (Inl e, us i)) \<and> run_state parentDone (us i) = (False, ws (Suc i))"
    and "run_state (m (n - 1 - k)) (ws k) = (Inr (), w')" and "k < n"
  shows "run_state (attemptLoop m parentDone n) (ws 0) = ((), w')"
  using assms
proof (induction k arbitrary: n ws us)
  case 0
  then show ?case by (cases n) auto
next
  case (Suc k)
  then obtain n' where n: "n = Suc n'" by (cases n) auto
  from Suc.prems(1) [of 0] obtain e where "run_state (m n') (ws 0) = (Inl e, us 0)"
    "run_state parentDone (us 0) = (False, ws (Suc 0))" by (auto simp: n)
  then have "run_state (attemptLoop m parentDone n) (ws 0) = run_state (attemptLoop m parentDone n') (ws (Suc 0))"
    by (simp add: n)
  also have "\<dots> = ((), w')"
    using Suc.IH [of n' "\<lambda>i. ws (Suc i)" "\<lambda>i. us (Suc i)"] Suc.prems by (simp add: n)
  finally show ?case .
qed

section \<open>Sample histories\<close>

definition demoKey :: nname where "demoKey = (''demo'', ''demo-gw'')"

lemma sample_reach:
  "\<exists>p. reach [Enqueue demoKey, Start demoKey, Enqueue demoKey] p"
proof -
  let ?p1 = "enqueue demoKey newGatewayProcessor"
  let ?w = "\<lparr>wk_key = demoKey, wk_state = 0, wk_phase = Ready\<rparr>"
  have "reach [Enqueue demoKey] ?p1" using reach_step [OF reach_init step_enqueue] .
  moreover have "workers ?p1 0 = Some ?w" by (simp add: enqueue_def workState_def newGatewayProcessor_def)
  ultimately obtain p2 where "reach [Start demoKey, Enqueue demoKey] p2" using start_reach [of _ ?p1 0 ?w] by auto
  then show ?thesis using reach_step step_enqueue by blast
qed

definition relabelClient :: "bool client" where
  "relabelClient = emptyClient\<lparr>kubeNamespaces := (constResource (Inl notFoundErr))\<lparr>Get := (\<lambda>_. State (\<lambda>b.
     (Inr \<lparr>ns_Meta = if b then emptyMeta\<lparr>m_Labels := [''routes'' \<mapsto> ''yes'']\<rparr> else emptyMeta\<rparr>, b)))\<rparr>\<rparr>"

section \<open>Properties\<close>

text \<open>
  C7: the queue implements its contract. Every reachable processor, with its map, shared cells, lock
  sections and goroutines, is described by a machine that knows of each key only the phase of its one
  worker and a dirty bit, and every history of the code is a history of that machine.
\<close>

theorem gatewayProcessor_refines:
  assumes "reach tr p"
  shows "\<exists>a. specReach tr a \<and> (\<forall>k. keyRefines p k (a k))"
  using reach_refines [OF assms] refinesD by blast

text \<open>Witness for C7.\<close>

theorem gatewayProcessor_refines_witness:
  "\<exists>p a. reach [Enqueue demoKey, Start demoKey, Enqueue demoKey] p \<and>
     specReach [Enqueue demoKey, Start demoKey, Enqueue demoKey] a \<and> (\<forall>k. keyRefines p k (a k))"
  using sample_reach gatewayProcessor_refines by metis

text \<open>
  C16: one worker per Gateway. In every reachable state two goroutines for the same key are the same
  goroutine, so a Gateway is never reconciled twice at a time; and the map holds exactly the keys that
  have a goroutine, so it does not leak.
\<close>

theorem single_flight:
  assumes "reach tr p"
  shows "(\<forall>g g' w w'. workers p g = Some w \<and> workers p g' = Some w' \<and> wk_key w = wk_key w' \<longrightarrow> g = g') \<and>
     dom (states p) = {k. \<exists>g w. workers p g = Some w \<and> wk_key w = k}"
proof -
  obtain a where a: "refines p a" using reach_refines [OF assms] by blast
  have "g = g'" if "workers p g = Some w" "workers p g' = Some w'" "wk_key w = wk_key w'" for g g' w w'
    using refines_worker [OF a that(1)] that unfolding owns_def by metis
  moreover have "k \<in> dom (states p) \<longleftrightarrow> (\<exists>g w. workers p g = Some w \<and> wk_key w = k)" for k
  proof (cases "a k")
    case Idle
    then show ?thesis using refinesD [OF a, of k] by (auto simp: keyRefines_def dom_def)
  next
    case (Active ph d)
    then obtain s g where "owns p k s g ph" using refinesD [OF a, of k] by (auto simp: keyRefines_def)
    then have "states p k = Some s" and "workers p g = Some \<lparr>wk_key = k, wk_state = s, wk_phase = ph\<rparr>"
      by (simp_all add: owns_def)
    then show ?thesis by (metis domI worker.select_convs(1))
  qed
  ultimately show ?thesis by blast
qed

text \<open>Witness for C16.\<close>

theorem single_flight_witness:
  "\<exists>p. reach [Enqueue demoKey, Start demoKey, Enqueue demoKey] p \<and>
     dom (states p) = {k. \<exists>g w. workers p g = Some w \<and> wk_key w = k}"
proof -
  obtain p where "reach [Enqueue demoKey, Start demoKey, Enqueue demoKey] p" using sample_reach by blast
  with single_flight [OF this] show ?thesis by blast
qed

text \<open>
  C8: no event is lost. When an event of a key came after the last start of a reconcile for it, the
  key's worker is about to start one or its dirty bit is set; at most three steps of that worker
  alone (finish, look at the bit, start) lead to a reconcile that starts after the event.
\<close>

theorem no_lost_event:
  assumes "reach tr p" and "pending k tr"
  shows "\<exists>ls p'. reach (ls @ tr) p' \<and> set ls \<subseteq> {Start k, Finish k, Settle k} \<and> length ls \<le> 3 \<and> \<not> pending k (ls @ tr)"
proof -
  obtain ls p' where "reach (ls @ tr) p'" and "ls \<in> restarts k" using pending_restarts [OF assms] by blast
  then show ?thesis by (intro exI [of _ ls] exI [of _ p']) (auto simp: restarts_def)
qed

text \<open>Witness for C8: an event that arrives while the Gateway is being reconciled.\<close>

theorem no_lost_event_witness:
  "\<exists>ls p'. reach (ls @ [Enqueue demoKey, Start demoKey, Enqueue demoKey]) p' \<and>
     \<not> pending demoKey (ls @ [Enqueue demoKey, Start demoKey, Enqueue demoKey])"
proof -
  obtain p where "reach [Enqueue demoKey, Start demoKey, Enqueue demoKey] p" using sample_reach by blast
  from no_lost_event [OF this, of demoKey] show ?thesis by auto
qed

text \<open>
  No needless work. In every history a key is reconciled at most once per event, and events that
  arrive together while a reconcile runs share one.
\<close>

theorem starts_bounded:
  assumes "reach tr p"
  shows "count_list tr (Start k) \<le> count_list tr (Enqueue k)"
  using reach_refines [OF assms] spec_count [of tr _ k] by fastforce

text \<open>An instance.\<close>

theorem starts_bounded_witness:
  "\<exists>p. reach [Enqueue demoKey, Start demoKey, Enqueue demoKey] p \<and>
     count_list [Enqueue demoKey, Start demoKey, Enqueue demoKey] (Start demoKey) \<le>
     count_list [Enqueue demoKey, Start demoKey, Enqueue demoKey] (Enqueue demoKey)"
  using sample_reach starts_bounded by blast

text \<open>
  C38: the GatewayClass processor loses events. It has no dirty bit: in some history an event for a
  class arrives while the class is being reconciled, is dropped, and the processor ends idle without a
  reconcile that starts after the event.
\<close>

theorem classProcessor_loses_event:
  assumes "name \<noteq> ''''"
  shows "\<exists>p. classReach [ClassDone name, ClassEvent name, ClassStart name, ClassEvent name] p \<and>
     inflight p = {} \<and> classStarted p = Map.empty"
proof -
  let ?p0 = "\<lparr>inflight = {}, classStarted = Map.empty\<rparr> :: classProcessor"
  let ?p1 = "processClass name ?p0"
  let ?p2 = "?p1\<lparr>classStarted := (classStarted ?p1)(name \<mapsto> True)\<rparr>"
  let ?p3 = "processClass name ?p2"
  have "classReach [ClassEvent name] ?p1" using classReach.intros classStep.intros(1) by metis
  moreover have "classStarted ?p1 name = Some False" using assms by (simp add: processClass_def)
  ultimately have "classReach [ClassStart name, ClassEvent name] ?p2" using classReach.intros(2) classStep.intros(2) by metis
  then have "classReach [ClassEvent name, ClassStart name, ClassEvent name] ?p3" using classReach.intros(2) classStep.intros(1) by metis
  moreover have p3: "?p3 = ?p2" using assms by (simp add: processClass_def)
  moreover from p3 have started: "classStarted ?p3 name = Some True" by simp
  ultimately have "classReach [ClassDone name, ClassEvent name, ClassStart name, ClassEvent name]
      (?p3\<lparr>inflight := inflight ?p3 - {name}, classStarted := (classStarted ?p3)(name := None)\<rparr>)"
    by (elim classReach.intros(2) [OF _ classStep.intros(3) [OF started]])
  moreover have "inflight (?p3\<lparr>inflight := inflight ?p3 - {name}, classStarted := (classStarted ?p3)(name := None)\<rparr>) = {}"
    "classStarted (?p3\<lparr>inflight := inflight ?p3 - {name}, classStarted := (classStarted ?p3)(name := None)\<rparr>) = Map.empty"
    using assms by (simp_all add: processClass_def)
  ultimately show ?thesis by blast
qed

text \<open>Witness for C38.\<close>

theorem classProcessor_loses_event_witness:
  "\<exists>p. classReach [ClassDone ''appnet'', ClassEvent ''appnet'', ClassStart ''appnet'', ClassEvent ''appnet''] p \<and>
     inflight p = {} \<and> classStarted p = Map.empty"
  by (rule classProcessor_loses_event) simp

text \<open>
  A Gateway event is retried. When the first attempts fail, the context is not done between them,
  and attempt number \<open>k + 1\<close> of at most three succeeds, the worker stops right after it.
\<close>

theorem reconcileWithRetries_stops:
  assumes "\<And>i. i < k \<Longrightarrow> (\<exists>e. run_state (Reconcile L d key (ticks (2 - i))) (ws i) = (Inl e, us i)) \<and>
       run_state parentDone (us i) = (False, ws (Suc i))"
    and "run_state (Reconcile L d key (ticks (2 - k))) (ws k) = (Inr (), w')" and "k < 3"
  shows "run_state (reconcileWithRetries L d ticks parentDone key) (ws 0) = ((), w')"
  unfolding reconcileWithRetries_def
  by (rule attemptLoop_success [where us = us and k = k]) (use assms in auto)

text \<open>Witness for The first attempt succeeds.\<close>

theorem reconcileWithRetries_stops_witness:
  "run_state (reconcileWithRetries sampleLib (tracedDeps (sampleDeps tlsGateway)) (\<lambda>_. (0, 0)) (pureIO False)
     (''demo'', ''demo-gw'')) ((), []) = ((), (), sampleLog)"
  using reconcileWithRetries_stops [of 0 sampleLib "tracedDeps (sampleDeps tlsGateway)" "(''demo'', ''demo-gw'')"
      "\<lambda>_. (0, 0)" "\<lambda>_. ((), [])" "\<lambda>_. ((), [])" "pureIO False" "((), sampleLog)"] sample_run by simp

text \<open>
  C33: a change of namespace labels goes unnoticed. The refresh handler compares generation and deletion
  state only, and the API server keeps no generation for Namespaces (nor for Secrets, ConfigMaps and
  Services). So where a listener selects route namespaces by label and an update makes the labels match,
  the verdict on a route of that namespace turns from refused to allowed, but the update enqueues no Gateway.
\<close>

theorem namespace_relabel_unnoticed:
  assumes "l_AllowedRoutes l = Some \<lparr>ar_Kinds = [], ar_Namespaces =
       Some \<lparr>rn_From = Some NamespacesFromSelector, rn_Selector = Some sel\<rparr>\<rparr>"
    and "LabelSelectorAsSelector L sel = Inr matches"
    and "\<not> matches (m_Labels old)" and "matches (m_Labels new)"
    and "m_Generation old = m_Generation new" and "m_Deleting old = m_Deleting new"
    and "run_state (Get (kubeNamespaces c) ('''', ns)) w = (Inr \<lparr>ns_Meta = old\<rparr>, w)"
    and "run_state (Get (kubeNamespaces c) ('''', ns)) w' = (Inr \<lparr>ns_Meta = new\<rparr>, w')"
  shows "run_state (listenerAllowsRoute L c l gwNS ns kind) w = (Inr False, w) \<and>
     run_state (listenerAllowsRoute L c l gwNS ns kind) w' = (Inr True, w') \<and>
     run_state (newGatewayRefreshHandler c (UpdateEvent (KubeObject old) (KubeObject new))) w' = ([], w')"
  using assms by (simp add: listenerAllowsRoute_def listenerAllowsNamespace_def gateway_api_consts)

text \<open>Witness for C33: a cluster whose only state is whether the namespace has the label.\<close>

theorem namespace_relabel_unnoticed_witness:
  "run_state (newGatewayRefreshHandler relabelClient
     (UpdateEvent (KubeObject emptyMeta) (KubeObject (emptyMeta\<lparr>m_Labels := [''routes'' \<mapsto> ''yes'']\<rparr>)))) True = ([], True)"
  using namespace_relabel_unnoticed [of
      "sampleListener\<lparr>l_AllowedRoutes := Some \<lparr>ar_Kinds = [], ar_Namespaces = Some \<lparr>rn_From = Some NamespacesFromSelector,
         rn_Selector = Some \<lparr>sel_MatchLabels = [(''routes'', ''yes'')], sel_MatchExpressions = []\<rparr>\<rparr>\<rparr>\<rparr>"
      "\<lparr>sel_MatchLabels = [(''routes'', ''yes'')], sel_MatchExpressions = []\<rparr>"
      "sampleLib\<lparr>LabelSelectorAsSelector := (\<lambda>_. Inr (\<lambda>m. m ''routes'' = Some ''yes''))\<rparr>"
      "\<lambda>m. m ''routes'' = Some ''yes''" emptyMeta "emptyMeta\<lparr>m_Labels := [''routes'' \<mapsto> ''yes'']\<rparr>"
      relabelClient "''team''" False True]
  by (simp add: emptyMeta_def relabelClient_def)

end
