(* ===== verification/Reconciler_Progress.thy ===== *)
theory Reconciler_Progress
  imports Reconciler_Properties
begin

text \<open>
  What a nil error of \<open>Reconcile\<close> means: the converse of the guard. A pass over a Gateway of the controller
  that reports success has issued every write that provisions it and has seen the data plane ready; a pass over
  a Gateway that is gone has deleted what was its own.
\<close>

section \<open>Applied objects\<close>

text \<open>
  The object was created as given, or the update that \<open>prepareForUpdate\<close> makes of it and of the object found was sent.
\<close>

definition applied :: "cluster \<Rightarrow> clientObject \<Rightarrow> event list \<Rightarrow> bool" where
  "applied k obj es \<longleftrightarrow> CreateObject k obj \<in> set es \<or>
     (\<exists>x obj'. GotObject k (keyOf (objMeta obj)) x \<in> set es \<and> prepareForUpdate x obj = Inr obj' \<and> UpdateObject k obj' \<in> set es)"

lemma stable_applied [intro!, simp]: "stable (applied k obj)"
  unfolding applied_def by auto

lemma Apply_applied:
  assumes "run_state (Apply (traced k c) obj) (w, es) = (Inr (), w', es')"
  shows "applied k obj es'"
  using assms
  by (auto simp: Apply_def Let_def objGet_traced objCreate_traced objUpdate_traced applied_def
      split: if_splits prod.splits sum.splits)

text \<open>What a successful run leaves in the log is established by it.\<close>

lemma est_run:
  assumes "preserves (logged g F) m" and "\<And>w es x w' es'. run_state m (w, es) = (Inr x, w', es') \<Longrightarrow> K x es'"
  shows "establishes g F m K"
  unfolding establishes_def
proof (rule validI)
  fix s r s'
  assume "logged g F s" and run: "run_state m s = (r, s')"
  then have "logged g F s'" using validD [OF assms(1)] by blast
  moreover have "K x (snd s')" if "r = Inr x" for x
    using assms(2) [of "fst s" "snd s" x "fst s'" "snd s'"] run that by simp
  ultimately show "logged g (\<lambda>es. F es \<and> (\<forall>x. r = Inr x \<longrightarrow> K x es)) s'" by (simp add: logged_def)
qed

lemma est_Apply:
  assumes "preserves (logged g F) (Apply (traced k c) obj)"
  shows "establishes g F (Apply (traced k c) obj) (\<lambda>_. applied k obj)"
  using assms by (rule est_run) (auto intro: Apply_applied)

section \<open>Provisioning\<close>

lemma tracedDeps_params [simp]:
  "gatewayParamsOf (tracedDeps d) gw e = gatewayParamsOf d gw e"
  "memberServiceAccount (tracedDeps d) gw = memberServiceAccount d gw"
  "tokenSecret (tracedDeps d) gw token e = tokenSecret d gw token e"
  by (simp_all add: gatewayParamsOf_def memberServiceAccount_def tokenSecret_def)

text \<open>A token with this expiration is there: a stored Secret was found current, or a new token was requested and its Secret applied.\<close>

definition tokenProvided :: "'w deps \<Rightarrow> gateway \<Rightarrow> string \<Rightarrow> event list \<Rightarrow> bool" where
  "tokenProvided d gw expires es \<longleftrightarrow>
     (\<exists>s now. GotObject Infra (d_InfraNamespace d, AgentGatewayTokenSecretName gw) (OSecret s) \<in> set es \<and>
        tokenSecretCurrent s now \<and> expires = mapGet (m_Annotations (sec_Meta s)) MemberTokenExpirationAnnotation) \<or>
     RequestToken (memberServiceAccount d gw) \<in> set es \<and>
     (\<exists>token. token \<noteq> '''' \<and> applied Infra (OSecret (tokenSecret d gw token expires)) es)"

lemma stable_tokenProvided [intro!, simp]: "stable (tokenProvided d gw expires)"
  unfolding tokenProvided_def by auto

lemma est_requestMemberToken:
  assumes "stable F" and "ns = d_InfraNamespace d" and "\<And>es. F es \<Longrightarrow> cleared ns key gw es"
  shows "establishes (reconcileGuard ns key) F (requestMemberToken (tracedDeps d) gw) (\<lambda>expires. tokenProvided d gw expires)"
proof -
  let ?G = "reconcileGuard ns key" and ?sa = "memberServiceAccount d gw"
  have account: "memberAccount ns key es (OServiceAccount ?sa)" if "F es" for es
    using assms(3) [OF that] by (auto simp: memberAccount_def memberServiceAccount_def keyOf_def)
  have token: "establishes ?G F (createToken (traced Member c) ?sa aud secs) (\<lambda>_ es. RequestToken ?sa \<in> set es)" for c aud secs
    unfolding traced_simps establishes_def
    using account assms(1) by (auto simp: valid_def logged_def stable_def split: prod.splits)
  let ?F = "\<lambda>es. F es \<and> RequestToken ?sa \<in> set es"
  have secret: "establishes ?G ?F (Apply (traced Infra c) (OSecret (tokenSecret d gw token expires)))
      (\<lambda>_. applied Infra (OSecret (tokenSecret d gw token expires)))" for c token expires
  proof (rule est_Apply, rule valid_Apply_infra)
    show "infraObject ns key es (OSecret (tokenSecret d gw token expires))" if "?F es" for es
      using assms(2) assms(3) that
      by (auto simp: infraObject_def tokenSecret_def AgentGatewayLabels_def agentGatewayLabels_def mapGet_def)
  qed (use assms(1) in auto)
  show ?thesis
    unfolding requestMemberToken_def tracedDeps_simps tracedDeps_params Let_def
    by (rule est_bindE [OF token])
      (auto intro!: est_fail est_ok est_bindE [OF secret] simp: tokenProvided_def split: option.splits)
qed

lemma est_ensureAgentGatewayMemberToken:
  assumes "clock_law L" and "stable F" and "ns = d_InfraNamespace d" and "\<And>es. F es \<Longrightarrow> cleared ns key gw es"
  shows "establishes (reconcileGuard ns key) F (ensureAgentGatewayMemberToken L (tracedDeps d) gw)
    (\<lambda>expires es. applied Member (OServiceAccount (memberServiceAccount d gw)) es \<and> tokenProvided d gw expires es)"
proof -
  let ?G = "reconcileGuard ns key" and ?obj = "OServiceAccount (memberServiceAccount d gw)"
  let ?F = "\<lambda>es. F es \<and> applied Member ?obj es"
  have account: "establishes ?G F (Apply (traced Member c) ?obj) (\<lambda>_. applied Member ?obj)" for c
  proof (rule est_Apply, rule valid_Apply_member [OF assms(2)])
    show "memberAccount ns key es ?obj" if "F es" for es
      using assms(4) [OF that] by (auto simp: memberAccount_def memberServiceAccount_def keyOf_def)
  qed
  have st: "stable ?F" using assms(2) by auto
  have request: "establishes ?G F' (requestMemberToken (tracedDeps d) gw)
      (\<lambda>expires es. applied Member ?obj es \<and> tokenProvided d gw expires es)"
    if "stable F'" and "\<And>es. F' es \<Longrightarrow> ?F es" for F'
    by (rule est_post [OF est_requestMemberToken [OF that(1) assms(3)]]) (use that(2) assms(4) in auto)
  show ?thesis
    unfolding ensureAgentGatewayMemberToken_def tracedDeps_simps tracedDeps_params traced_simps(10) assms(3) [symmetric]
  proof (rule est_bindE [OF account], rule est_tryE [OF est_get [OF st]])
    fix s
    let ?F' = "\<lambda>es. ?F es \<and> GotObject Infra (ns, AgentGatewayTokenSecretName gw) (OSecret s) \<in> set es"
    have st': "stable ?F'" using assms(2) by auto
    show "establishes ?G ?F' (State_Monad.bind (Now L) (\<lambda>now.
          if tokenSecretCurrent s now then ok (mapGet (m_Annotations (sec_Meta s)) MemberTokenExpirationAnnotation)
          else requestMemberToken (tracedDeps d) gw))
        (\<lambda>expires es. applied Member ?obj es \<and> tokenProvided d gw expires es)"
    proof (rule est_bind [OF rg.now [OF assms(1) st']])
      fix now
      show "establishes ?G ?F' (if tokenSecretCurrent s now then ok (mapGet (m_Annotations (sec_Meta s)) MemberTokenExpirationAnnotation)
            else requestMemberToken (tracedDeps d) gw)
          (\<lambda>expires es. applied Member ?obj es \<and> tokenProvided d gw expires es)"
      proof (cases "tokenSecretCurrent s now")
        case True
        then have "tokenProvided d gw (mapGet (m_Annotations (sec_Meta s)) MemberTokenExpirationAnnotation) es" if "?F' es" for es
          using that assms(3) unfolding tokenProvided_def by blast
        with True show ?thesis by (auto intro!: est_ok)
      next
        case False
        then show ?thesis using request [OF st'] by simp
      qed
    qed
  qed (auto intro!: est_fail request st)
qed

text \<open>The writes that provision a Gateway.\<close>

definition provisioned :: "'w deps \<Rightarrow> gateway \<Rightarrow> event list \<Rightarrow> bool" where
  "provisioned d gw es \<longleftrightarrow>
     applied Infra (OServiceAccount (AgentGatewayServiceAccountObject (gatewayParamsOf d gw ''''))) es \<and>
     applied Member (OServiceAccount (memberServiceAccount d gw)) es \<and>
     (\<exists>expires. tokenProvided d gw expires es \<and>
        applied Infra (ODeployment (AgentGatewayDeployment (gatewayParamsOf d gw expires))) es \<and>
        applied Infra (OService (AgentGatewayService (gatewayParamsOf d gw expires))) es)"

lemma stable_provisioned [intro!, simp]: "stable (provisioned d gw)"
  unfolding provisioned_def by auto

lemma est_provision:
  assumes "clock_law L" and "stable F" and "ns = d_InfraNamespace d" and "\<And>es. F es \<Longrightarrow> cleared ns key gw es"
  shows "establishes (reconcileGuard ns key) F (provision L (tracedDeps d) gw) (\<lambda>_. provisioned d gw)"
proof -
  let ?G = "reconcileGuard ns key" and ?p = "\<lambda>e. gatewayParamsOf d gw e"
  let ?sa = "OServiceAccount (AgentGatewayServiceAccountObject (?p ''''))"
    and ?dep = "\<lambda>e. ODeployment (AgentGatewayDeployment (?p e))" and ?svc = "\<lambda>e. OService (AgentGatewayService (?p e))"
  have "infraObject ns key es ?sa" "infraObject ns key es (?dep e)" "infraObject ns key es (?svc e)"
    if "cleared ns key gw es" for es e
    using assms(3) that
    by (auto simp: infraObject_def AgentGatewayServiceAccountObject_def AgentGatewayDeployment_def AgentGatewayService_def
        Let_def gatewayParamsOf_def defaultGatewayParams_def agentGatewayLabels_def mapGet_def)
  then have applies: "establishes ?G F' (Apply (traced Infra c) ?sa) (\<lambda>_. applied Infra ?sa)"
    "establishes ?G F' (Apply (traced Infra c) (?dep e)) (\<lambda>_. applied Infra (?dep e))"
    "establishes ?G F' (Apply (traced Infra c) (?svc e)) (\<lambda>_. applied Infra (?svc e))"
    if "stable F'" "\<And>es. F' es \<Longrightarrow> cleared ns key gw es" for F' c e
    using that by (intro est_Apply valid_Apply_infra; simp)+
  let ?F1 = "\<lambda>es. F es \<and> applied Infra ?sa es"
  let ?F2 = "\<lambda>e es. ?F1 es \<and> applied Member (OServiceAccount (memberServiceAccount d gw)) es \<and> tokenProvided d gw e es"
  let ?F3 = "\<lambda>e es. ?F2 e es \<and> applied Infra (?dep e) es"
  have stable: "stable ?F1" "stable (?F2 e)" "stable (?F3 e)" for e using assms(2) by auto
  show ?thesis
    unfolding provision_def tracedDeps_simps tracedDeps_params
  proof (rule est_bindE [OF applies(1) [OF assms(2,4)]], assumption, rule est_bindE [OF est_ensureAgentGatewayMemberToken])
    fix e
    show "establishes ?G (?F2 e)
        (bindE (Apply (traced Infra (d_InfraClient d)) (?dep e)) (Wrap ''apply agentgateway deployment'') (\<lambda>_.
         bindE (Apply (traced Infra (d_InfraClient d)) (?svc e)) (Wrap ''apply agentgateway service'') ok)) (\<lambda>_. provisioned d gw)"
    proof (rule est_bindE [OF applies(2) [OF stable(2)]])
      show "establishes ?G (?F3 e) (bindE (Apply (traced Infra (d_InfraClient d)) (?svc e)) (Wrap ''apply agentgateway service'') ok)
          (\<lambda>_. provisioned d gw)"
        by (rule est_bindE [OF applies(3) [OF stable(3)]]) (use assms(4) in \<open>auto intro!: est_ok simp: provisioned_def\<close>)
    qed (use assms(4) in auto)
  qed (use assms stable in auto)
qed

section \<open>Publishing\<close>

lemma est_reportReady:
  assumes "retry_law (RetryOnConflict L)" and "clock_law L" and "stable F"
    and "\<And>es. F es \<Longrightarrow> cleared ns key gw es \<and> dataPlaneReady ns gw a es"
  shows "establishes (reconcileGuard ns key) F (reportReady L (traced Member c) key a)
    (\<lambda>_ es. \<exists>addresses. dataPlaneReady ns gw addresses es)"
proof (rule est_post [OF est_preserves [OF valid_reportReady [OF assms]]])
  fix es
  assume "F es"
  then show "\<exists>addresses. dataPlaneReady ns gw addresses es" using assms(4) by blast
qed

lemma est_publishAddresses:
  assumes "retry_law (RetryOnConflict L)" and "clock_law L" and "stable F"
    and "\<And>es. F es \<Longrightarrow> cleared ns key gw es \<and> availableSeen (ns, AgentGatewayObjectName gw) es"
  shows "establishes (reconcileGuard ns key) F
    (bindE (waitForAgentGatewayAddresses (traced Infra c) (ns, AgentGatewayObjectName gw) n) f (\<lambda>a.
       if a = [] then fail e else reportReady L (traced Member c') key a))
    (\<lambda>_ es. \<exists>addresses. dataPlaneReady ns gw addresses es)"
proof (rule est_bindE [OF est_waitForAgentGatewayAddresses [OF assms(3)]])
  fix a
  let ?F = "\<lambda>es. F es \<and> (a \<noteq> [] \<longrightarrow> addressesSeen (ns, AgentGatewayObjectName gw) a es)"
  show "establishes (reconcileGuard ns key) ?F (if a = [] then fail e else reportReady L (traced Member c') key a)
      (\<lambda>_ es. \<exists>addresses. dataPlaneReady ns gw addresses es)"
  proof (cases "a = []")
    case False
    have "stable ?F" using assms(3) by auto
    moreover have "cleared ns key gw es \<and> dataPlaneReady ns gw a es" if "?F es" for es
      using that False assms(4) by (auto simp: dataPlaneReady_iff)
    ultimately show ?thesis using False by (simp only: if_False) (rule est_reportReady [OF assms(1,2)])
  qed (simp add: est_fail)
qed

lemma est_publish:
  assumes "retry_law (RetryOnConflict L)" and "clock_law L" and "stable F" and "ns = d_InfraNamespace d"
    and "\<And>es. F es \<Longrightarrow> cleared ns key gw es"
  shows "establishes (reconcileGuard ns key) F (publish L (tracedDeps d) key gw ticks)
    (\<lambda>_ es. \<exists>addresses. dataPlaneReady ns gw addresses es)"
  unfolding publish_def Let_def tracedDeps_simps assms(4) [symmetric]
proof (rule est_bindE [OF est_waitForAgentGatewayAvailable [OF assms(3)]])
  let ?k = "(ns, AgentGatewayObjectName gw)"
  fix ready
  have "stable (\<lambda>es. F es \<and> availableSeen ?k es)" using assms(3) by auto
  note addresses = est_publishAddresses [OF assms(1,2) this]
  show "establishes (reconcileGuard ns key) (\<lambda>es. F es \<and> (ready \<longrightarrow> availableSeen ?k es))
     (if \<not> ready then fail (Errorf (''agentgateway deployment '' @ keyString ?k @ '' not ready''))
      else bindE (waitForAgentGatewayAddresses (traced Infra (d_InfraClient d)) ?k (snd ticks)) (Wrap ''wait for agentgateway service address'') (\<lambda>a.
      if a = [] then fail (Errorf (''agentgateway service '' @ keyString ?k @ '' has no loadbalancer address''))
      else reportReady L (traced Member (d_MemberClient d)) key a))
     (\<lambda>_ es. \<exists>addresses. dataPlaneReady ns gw addresses es)"
    using assms(5) by (cases ready) (simp_all only: simp_thms if_True if_False est_fail addresses)
qed

section \<open>Reconcile\<close>

definition reconciled :: "'w deps \<Rightarrow> nname \<Rightarrow> gateway \<Rightarrow> event list \<Rightarrow> bool" where
  "reconciled d key gw es \<longleftrightarrow> cleared (d_InfraNamespace d) key gw es \<and> provisioned d gw es \<and>
     (\<exists>addresses. dataPlaneReady (d_InfraNamespace d) gw addresses es)"

lemma est_handled:
  assumes "retry_law (RetryOnConflict L)" and "clock_law L" and "stable F" and "\<And>es. F es \<Longrightarrow> GotGateway key gw \<in> set es"
  shows "establishes (reconcileGuard (d_InfraNamespace d) key) F (bindE (MarkAccepted L (traced Member c) gw) f (\<lambda>_.
      bindE (validated L (tracedDeps d) gw) id (\<lambda>_. bindE (provision L (tracedDeps d) gw) id (\<lambda>_.
      State_Monad.bind (RefreshIstiod (tracedDeps d)) (\<lambda>_. publish L (tracedDeps d) key gw ticks)))))
      (\<lambda>_. reconciled d key gw)"
proof -
  let ?ns = "d_InfraNamespace d" and ?G = "reconcileGuard (d_InfraNamespace d) key"
  let ?F = "\<lambda>es. (F es \<and> True) \<and> (\<forall>n \<in> gatewayCerts gw. certChecked ?ns es n)"
  let ?F' = "\<lambda>es. ?F es \<and> provisioned d gw es"
  have st: "stable ?F" "stable ?F'" using assms(3) by auto
  have cl: "?F es \<Longrightarrow> cleared ?ns key gw es" for es using assms(4) by (auto simp: cleared_def)
  have "establishes ?G ?F' (publish L (tracedDeps d) key gw ticks) (\<lambda>_. reconciled d key gw)"
    by (rule est_post [OF est_publish [OF assms(1,2) st(2) refl]]) (use cl in \<open>auto simp: reconciled_def\<close>)
  then have "establishes ?G ?F' (State_Monad.bind (RefreshIstiod (tracedDeps d)) (\<lambda>_. publish L (tracedDeps d) key gw ticks))
      (\<lambda>_. reconciled d key gw)"
    by (intro est_bind [OF valid_RefreshIstiod [OF st(2) refl]])
  then have "establishes ?G ?F (bindE (provision L (tracedDeps d) gw) id (\<lambda>_.
      State_Monad.bind (RefreshIstiod (tracedDeps d)) (\<lambda>_. publish L (tracedDeps d) key gw ticks))) (\<lambda>_. reconciled d key gw)"
    by (intro est_bindE [OF est_provision [OF assms(2) st(1) refl cl]])
  then show ?thesis
    by (intro est_bindE [OF est_preserves [OF valid_MarkAccepted [OF assms]]] est_bindE [OF est_validated [OF assms(1,2)]])
      (use assms(3,4) in auto)
qed

lemma isOurs_traced:
  "run_state (isOurs c gw) w = (r, w') \<Longrightarrow> run_state (isOurs (traced k c) gw) (w, es) = (r, w', es)"
  by (auto simp: isOurs_def tracedStatus_def split: prod.splits sum.splits)

lemma getGateway_traced:
  "run_state (Get (gateways c) key) w = (r, w') \<Longrightarrow>
   run_state (Get (gateways (traced k c)) key) (w, es) = (r, w', es @ (case r of Inl e \<Rightarrow> [] | Inr x \<Rightarrow> [GotGateway key x]))"
  by (simp add: tracedStatus_def)

section \<open>Deletion\<close>

text \<open>The object found under a name is the Gateway's own, as far as the code tells.\<close>

definition ownedBy :: "nname \<Rightarrow> clientObject \<Rightarrow> bool" where
  "ownedBy key x \<longleftrightarrow> mapGet (GetLabels x) ManagedByLabel = ManagedByValue \<and>
     mapGet (GetAnnotations x) GatewayNSAnnotation \<in> {'''', fst key} \<and>
     mapGet (GetAnnotations x) GatewayNameAnnotation \<in> {'''', snd key}"

text \<open>The object was not found, or was found and, where it is the Gateway's own, its deletion was issued.\<close>

definition cleaned :: "'w client \<Rightarrow> clientObject \<Rightarrow> nname \<Rightarrow> event list \<Rightarrow> bool" where
  "cleaned c obj key es \<longleftrightarrow>
     (\<exists>w e w'. run_state (objGet c obj (keyOf (objMeta obj))) w = (Inl e, w') \<and> IsNotFound e) \<or>
     (\<exists>x. GotObject Infra (keyOf (objMeta obj)) x \<in> set es \<and> objKind x = objKind obj \<and>
        (ownedBy key x \<longrightarrow> DeleteObject Infra x \<in> set es))"

lemma stable_cleaned [intro!, simp]: "stable (cleaned c obj key)"
  unfolding cleaned_def by auto

lemma deleteManagedGatewayObject_cleaned:
  assumes "run_state (deleteManagedGatewayObject (traced Infra c) obj key) (w, es) = (Inr (), w', es')"
  shows "cleaned c obj key es'"
proof -
  obtain r w1 where get: "run_state (objGet c obj (keyOf (objMeta obj))) w = (r, w1)" by force
  show ?thesis
  proof (cases r)
    case (Inl e)
    with assms get have "IsNotFound e"
      by (auto simp: deleteManagedGatewayObject_def objGet_traced split: if_splits)
    with get Inl show ?thesis unfolding cleaned_def by blast
  next
    case (Inr x)
    have "objKind x = objKind obj" using objGet_kind get Inr by metis
    with assms get Inr show ?thesis
      by (auto simp: deleteManagedGatewayObject_def objGet_traced objDelete_traced Let_def cleaned_def ownedBy_def
          split: if_splits prod.splits)
  qed
qed

definition cleanedUp :: "'w deps \<Rightarrow> nname \<Rightarrow> event list \<Rightarrow> bool" where
  "cleanedUp d key es \<longleftrightarrow>
     cleaned (d_InfraClient d) (ODeployment (AgentGatewayDeployment (stubParams d key))) key es \<and>
     cleaned (d_InfraClient d) (OService (AgentGatewayService (stubParams d key))) key es \<and>
     cleaned (d_InfraClient d) (OSecret (stubTokenSecret d key)) key es"

lemma stable_cleanedUp [intro!, simp]: "stable (cleanedUp d key)"
  unfolding cleanedUp_def by auto

lemma tracedDeps_stubs [simp]:
  "stubParams (tracedDeps d) key = stubParams d key" "stubTokenSecret (tracedDeps d) key = stubTokenSecret d key"
  by (simp_all add: stubParams_def stubTokenSecret_def)

lemma est_delete:
  assumes "stable F" and "GetNamespace obj = ns"
  shows "establishes (reconcileGuard ns key) F (deleteManagedGatewayObject (traced Infra c) obj key) (\<lambda>_. cleaned c obj key)"
  using valid_deleteManagedGatewayObject [OF assms] by (rule est_run) (auto intro: deleteManagedGatewayObject_cleaned)

lemma est_cleanUp:
  assumes "stable F" and "ns = d_InfraNamespace d"
  shows "establishes (reconcileGuard ns key) F (cleanUp (tracedDeps d) key) (\<lambda>_. cleanedUp d key)"
proof -
  let ?G = "reconcileGuard ns key"
  let ?dep = "ODeployment (AgentGatewayDeployment (stubParams d key))" and ?svc = "OService (AgentGatewayService (stubParams d key))"
    and ?sec = "OSecret (stubTokenSecret d key)"
  have ns: "GetNamespace ?dep = ns" "GetNamespace ?svc = ns" "GetNamespace ?sec = ns"
    by (simp_all add: AgentGatewayDeployment_def AgentGatewayService_def Let_def stubParams_def defaultGatewayParams_def
        stubTokenSecret_def assms(2))
  let ?c = "d_InfraClient d"
  let ?F1 = "\<lambda>es. F es \<and> cleaned ?c ?dep key es" and ?F2 = "\<lambda>es. (F es \<and> cleaned ?c ?dep key es) \<and> cleaned ?c ?svc key es"
  have st: "stable ?F1" "stable ?F2" using assms(1) by auto
  have "establishes ?G ?F2 (bindE (deleteManagedGatewayObject (traced Infra ?c) ?sec key) f ok) (\<lambda>_. cleanedUp d key)" for f
    by (rule est_bindE [OF est_delete [OF st(2) ns(3)]]) (auto intro!: est_ok simp: cleanedUp_def)
  then have "establishes ?G F (deleteAgentGateway (tracedDeps d) key) (\<lambda>_. cleanedUp d key)"
    unfolding deleteAgentGateway_def tracedDeps_simps tracedDeps_stubs
    by (intro est_bindE [OF est_delete [OF assms(1) ns(1)]] est_bindE [OF est_delete [OF st(1) ns(2)]])
  moreover have "stable (\<lambda>es. F es \<and> cleanedUp d key es)" using assms(1) by auto
  ultimately show ?thesis
    unfolding cleanUp_def
    by (intro est_bindE est_post [OF est_preserves [OF valid_RefreshIstiod [OF _ assms(2)]]]) auto
qed

lemma estD:
  assumes "establishes g F m K" and "run_state m (w, es) = (Inr x, w', es')" and "guarded g es" and "F es"
  shows "K x es'"
  using validD [OF assms(1) [unfolded establishes_def] _ assms(2)] assms(3,4) by (simp add: logged_def)

lemma handled_run:
  assumes "run_state (Get (gateways (d_MemberClient d)) key) w = (Inr gw, w1)"
    and "run_state (isOurs (d_MemberClient d) gw) w1 = (Inr True, w2)"
  shows "run_state (Reconcile L (tracedDeps d) key ticks) (w, []) =
    run_state (bindE (MarkAccepted L (traced Member (d_MemberClient d)) gw) (Wrap ''write accepted status'') (\<lambda>_.
      bindE (validated L (tracedDeps d) gw) id (\<lambda>_. bindE (provision L (tracedDeps d) gw) id (\<lambda>_.
      State_Monad.bind (RefreshIstiod (tracedDeps d)) (\<lambda>_. publish L (tracedDeps d) key gw ticks))))) (w2, [GotGateway key gw])"
  unfolding Reconcile_def tracedDeps_simps run_tryE getGateway_traced [OF assms(1)] prod.case sum.case
  by (subst run_bindE) (simp only: isOurs_traced [OF assms(2)] prod.case sum.case simp_thms if_False append_Nil)

section \<open>Polling\<close>

text \<open>A poll that sees no address: there is no Service, or it has none yet.\<close>

definition noAddresses :: "error + service \<Rightarrow> bool" where
  "noAddresses r = (case r of Inl e \<Rightarrow> IsNotFound e | Inr svc \<Rightarrow> serviceGatewayAddresses svc = [])"

lemma unanswered_noAddresses: "noAddresses r \<longleftrightarrow> ad.unanswered r"
  by (auto simp: noAddresses_def ad.unanswered_def published_def split: sum.splits)

section \<open>Properties\<close>

text \<open>
  C3: a nil error means the work is done. Let a pass return nil. If the Gateway was read and its class is
  the controller's, then its certificates were checked, the two service accounts, the Deployment and the
  Service rendered for it were created or updated, a token was found current or requested and stored, the
  Deployment carries that token's expiration, and the Deployment was seen available and the Service with
  addresses. In every other case each of the Deployment, the Service and the token Secret of that name was
  not found, or was found and, where it is the Gateway's own, its deletion was issued.
\<close>

theorem Reconcile_nil_done:
  assumes "retry_law (RetryOnConflict L)" and "clock_law L"
    and "run_state (Reconcile L (tracedDeps d) key ticks) (w, []) = (Inr (), w', es)"
    and "run_state (Get (gateways (d_MemberClient d)) key) w = (r, w1)"
  shows "case r of
     Inl e \<Rightarrow> cleanedUp d key es
   | Inr gw \<Rightarrow> (case fst (run_state (isOurs (d_MemberClient d) gw) w1) of
        Inl e \<Rightarrow> False
      | Inr ours \<Rightarrow> if ours then reconciled d key gw es else cleanedUp d key es)"
proof (cases r)
  case (Inl e)
  with assms(3) getGateway_traced [OF assms(4)]
  have "run_state (cleanUp (tracedDeps d) key) (w1, []) = (Inr (), w', es)"
    by (auto simp: Reconcile_def split: if_splits)
  from estD [OF est_cleanUp [OF stable_const [of True] refl] this] Inl show ?thesis by simp
next
  case gw: (Inr gw)
  note got = getGateway_traced [OF assms(4) [unfolded gw]]
  obtain h w2 where ours: "run_state (isOurs (d_MemberClient d) gw) w1 = (h, w2)" by force
  consider (failed) e where "h = Inl e" | (ours) "h = Inr True" | (other) "h = Inr False"
    by (cases h) (auto intro: that)
  then show ?thesis
  proof cases
    case failed
    then show ?thesis
      using assms(3) got isOurs_traced [OF ours] by (simp add: Reconcile_def)
  next
    case other
    then have "run_state (cleanUp (tracedDeps d) key) (w2, [GotGateway key gw]) = (Inr (), w', es)"
      using assms(3) got isOurs_traced [OF ours] by (simp add: Reconcile_def)
    from estD [OF est_cleanUp [OF stable_const [of True] refl] this] gw ours other show ?thesis by (simp add: guarded_def)
  next
    case ours
    have st: "stable (\<lambda>es. GotGateway key gw \<in> set es)" by simp
    have "reconciled d key gw es"
      by (rule estD [OF est_handled [OF assms(1,2) st] assms(3) [unfolded handled_run [OF assms(4) [unfolded gw] \<open>run_state _ w1 = _\<close> [unfolded ours]]]])
        (simp_all add: guarded_def)
    then show ?thesis using gw ours \<open>run_state _ w1 = _\<close> by simp
  qed
qed

text \<open>Witness for C3: the pass over the sample Gateway.\<close>

theorem Reconcile_nil_done_witness:
  "reconciled (sampleDeps tlsGateway :: unit deps) (''demo'', ''demo-gw'') tlsGateway sampleLog"
proof -
  have "run_state (Get (gateways (d_MemberClient (sampleDeps tlsGateway))) (''demo'', ''demo-gw'')) () = (Inr tlsGateway, ())"
    and "run_state (isOurs (d_MemberClient (sampleDeps tlsGateway)) tlsGateway) () = (Inr True, ())"
    by (simp_all add: isOurs_def cluster_simps ourClass_def)
  with Reconcile_nil_done [OF sample_laws sample_run this(1)] show ?thesis by simp
qed

text \<open>
  C17: the end of a pass is live, and deaf to the member cluster. When the Deployment is available at poll \<open>k\<close> and
  not before, the Service has addresses at poll \<open>m\<close> of the wait that follows and not before, and the context
  lasts that long, the rest of the pass reads the Gateway again, hands exactly those addresses to
  \<open>MarkProgrammed\<close>, updates the routes and returns nil. It returns nil whatever the member cluster answers:
  when the last read or a status writer fails, \<open>Programmed\<close> stays as it was, and since the pass reports no error
  the worker does not try again before the next event.
\<close>

theorem publish_live:
  assumes "\<And>i. i \<le> k \<Longrightarrow> run_state (Get (deployments (d_InfraClient d)) (d_InfraNamespace d, AgentGatewayObjectName gw)) (ws i) = (rs i, ws (Suc i))"
    and "\<And>i. i < k \<Longrightarrow> notYet (rs i)" and "rs k = Inr dep" and "dep_AvailableReplicas dep \<ge> 1" and "k \<le> fst ticks"
    and "vs 0 = ws (Suc k)"
    and "\<And>i. i \<le> m \<Longrightarrow> run_state (Get (services (d_InfraClient d)) (d_InfraNamespace d, AgentGatewayObjectName gw)) (vs i) = (qs i, vs (Suc i))"
    and "\<And>i. i < m \<Longrightarrow> noAddresses (qs i)" and "qs m = Inr svc" and "serviceGatewayAddresses svc \<noteq> []" and "m \<le> snd ticks"
  shows "run_state (publish L d key gw ticks) (ws 0) =
     (Inr (), case run_state (Get (gateways (d_MemberClient d)) key) (vs (Suc m)) of
        (Inl e, w) \<Rightarrow> w
      | (Inr fresh, w) \<Rightarrow> snd (run_state (MarkRoutesAccepted L (d_MemberClient d) fresh)
          (snd (run_state (MarkProgrammed L (d_MemberClient d) fresh (serviceGatewayAddresses svc)) w))))"
proof -
  let ?k = "(d_InfraNamespace d, AgentGatewayObjectName gw)"
  have "run_state (waitForAgentGatewayAvailable (d_InfraClient d) ?k (fst ticks)) (ws 0) = (Inr True, ws (Suc k))"
    using assms(1-5) by (intro av.live [where rs = rs and x = dep]) (auto simp: unanswered_notYet available_def)
  moreover have "run_state (waitForAgentGatewayAddresses (d_InfraClient d) ?k (snd ticks)) (vs 0) = (Inr (serviceGatewayAddresses svc), vs (Suc m))"
    using assms(7-11) by (intro ad.live [where rs = qs and x = svc]) (auto simp: unanswered_noAddresses published_def)
  ultimately show ?thesis
    using assms(6,10) by (simp add: publish_def Let_def split: prod.splits sum.splits)
qed

text \<open>Witness for C17: everything is ready, and the member cluster has lost the Gateway.\<close>

theorem publish_live_witness:
  "run_state (publish sampleLib ((sampleDeps tlsGateway)\<lparr>d_MemberClient := emptyClient\<rparr>) (''demo'', ''demo-gw'') tlsGateway (0, 0)) () = (Inr (), ())"
proof -
  let ?d = "(sampleDeps tlsGateway)\<lparr>d_MemberClient := emptyClient\<rparr> :: unit deps"
  have "dep_AvailableReplicas readyDeployment = 1" by (simp add: readyDeployment_def)
  then show ?thesis
    using publish_live [of 0 ?d tlsGateway "\<lambda>_. ()" "\<lambda>_. Inr readyDeployment" readyDeployment "(0, 0)" "\<lambda>_. ()" 0
        "\<lambda>_. Inr readyService" readyService sampleLib "(''demo'', ''demo-gw'')"]
    by (simp add: cluster_simps sample_addresses)
qed

end
