(* ===== verification/Member_Cluster.thy ===== *)
theory Member_Cluster
  imports Event_Handlers Sample_Objects
begin

text \<open>
  The member cluster cache, \<open>controller/internal/membercluster/reconciler.go\<close>: \<open>Start\<close> builds the
  cache and the client of the member cluster, registers the informer handlers and starts the
  goroutines. controller-runtime and client-go are parameters (\<open>runtimeLib\<close>); what is modelled is which
  informers the code asks for, which handler it puts on which, in which order, and where it gives up.
\<close>

section \<open>Kinds, handlers, goroutines\<close>

datatype resourceKind = KConfigMap | KNamespace | KSecret | KService | KBackendTLSPolicy | KGRPCRoute
  | KGateway | KGatewayClass | KHTTPRoute | KListenerSet | KReferenceGrant | KTLSRoute

text \<open>The verb \<open>%T\<close> on the objects of the two loops.\<close>

primrec typeName :: "resourceKind \<Rightarrow> string" where
  "typeName KConfigMap = ''*v1.ConfigMap''"
| "typeName KNamespace = ''*v1.Namespace''"
| "typeName KSecret = ''*v1.Secret''"
| "typeName KService = ''*v1.Service''"
| "typeName KBackendTLSPolicy = ''*v1.BackendTLSPolicy''"
| "typeName KGRPCRoute = ''*v1.GRPCRoute''"
| "typeName KGateway = ''*v1.Gateway''"
| "typeName KGatewayClass = ''*v1.GatewayClass''"
| "typeName KHTTPRoute = ''*v1.HTTPRoute''"
| "typeName KListenerSet = ''*v1.ListenerSet''"
| "typeName KReferenceGrant = ''*v1.ReferenceGrant''"
| "typeName KTLSRoute = ''*v1.TLSRoute''"

definition informerKinds :: "resourceKind list" where
  "informerKinds = [KConfigMap, KNamespace, KSecret, KService, KBackendTLSPolicy, KGRPCRoute, KGateway,
     KGatewayClass, KHTTPRoute, KListenerSet, KReferenceGrant, KTLSRoute]"

definition refreshKinds :: "resourceKind list" where
  "refreshKinds = [KConfigMap, KNamespace, KSecret, KService, KBackendTLSPolicy, KGRPCRoute,
     KGatewayClass, KHTTPRoute, KListenerSet, KReferenceGrant, KTLSRoute]"

text \<open>
  The three handlers, with what their closures hold. The gateway handler and the refresh handler feed
  the same processor, the one built with \<open>deps\<close>.
\<close>

datatype 'v handler =
    GatewayHandler "'v deps"
  | GatewayClassHandler "'v client"
  | RefreshHandler "'v client" "'v deps"

datatype work = GatewayWork nname | ClassWork string

text \<open>What a handler hands to its processor when an event arrives.\<close>

primrec onEvent :: "'v handler \<Rightarrow> informerEvent \<Rightarrow> ('v, work list) io" where
  "onEvent (GatewayHandler d) ev = pureIO (map GatewayWork (newGatewayHandler ev))"
| "onEvent (GatewayClassHandler c) ev = pureIO (map ClassWork (newGatewayClassHandler ev))"
| "onEvent (RefreshHandler c d) ev =
     State_Monad.bind (newGatewayRefreshHandler c ev) (\<lambda>ks. pureIO (map GatewayWork ks))"

datatype ('c, 'v) goroutine = PeriodicRefresh "'v client" "'v deps" | RunCache 'c | IstiodResync "'v deps"

section \<open>Start\<close>

record 'v cacheConfig =
  cc_TenantName :: string
  cc_InfraNamespace :: string
  cc_Platform :: string
  cc_Kubeconfig :: string
  cc_InfraClient :: "'v client"
  cc_IstiodImage :: string
  cc_IstiodReplicas :: int
  cc_MemberKubeconfigName :: string
  cc_MemberKubeconfigKey :: string

record ('c, 'v) memberClient =
  mc_Cache :: 'c
  mc_Client :: "'v client"

text \<open>
  The libraries: REST configurations \<open>'r\<close>, caches \<open>'c\<close>, informers \<open>'i\<close>. Start runs over the world \<open>'w\<close>,
  the clients it passes on over \<open>'v\<close> (the same world in the program).
\<close>

record ('r, 'c, 'i, 'v, 'w) runtimeLib =
  RESTConfigFromKubeConfig :: "string \<Rightarrow> error + 'r"
  NewCache :: "'r \<Rightarrow> ('w, 'c) fio"
  GetInformer :: "'c \<Rightarrow> resourceKind \<Rightarrow> ('w, 'i) fio"
  NewClient :: "'r \<Rightarrow> 'c \<Rightarrow> ('w, 'v client) fio"
  AddEventHandler :: "'i \<Rightarrow> 'v handler \<Rightarrow> ('w, unit) fio"
  Spawn :: "('c, 'v) goroutine \<Rightarrow> ('w, unit) io"

definition memberDeps :: "'v cacheConfig \<Rightarrow> 'v client \<Rightarrow> 'v deps" where
  "memberDeps cfg cli =
     \<lparr>d_Tenant = cc_TenantName cfg, d_InfraNamespace = cc_InfraNamespace cfg, d_Platform = cc_Platform cfg,
      d_MemberClient = cli, d_InfraClient = cc_InfraClient cfg, d_IstiodImage = cc_IstiodImage cfg,
      d_IstiodReplicas = cc_IstiodReplicas cfg, d_MemberKubeconfigName = cc_MemberKubeconfigName cfg,
      d_MemberKubeconfigKey = cc_MemberKubeconfigKey cfg\<rparr>"

definition openInformer :: "('r, 'c, 'i, 'v, 'w) runtimeLib \<Rightarrow> 'c \<Rightarrow> resourceKind \<Rightarrow> ('w, unit) fio" where
  "openInformer R c obj = bindE (GetInformer R c obj) (Wrap (''get informer '' @ typeName obj)) (\<lambda>_. ok ())"

definition addRefresh ::
  "('r, 'c, 'i, 'v, 'w) runtimeLib \<Rightarrow> 'c \<Rightarrow> 'v handler \<Rightarrow> resourceKind \<Rightarrow> ('w, unit) fio" where
  "addRefresh R c refreshHandler obj =
     bindE (GetInformer R c obj) (Wrap (''get informer '' @ typeName obj)) (\<lambda>informer.
     bindE (AddEventHandler R informer refreshHandler) (Wrap (''add refresh handler '' @ typeName obj)) ok)"

definition register ::
  "('r, 'c, 'i, 'v, 'w) runtimeLib \<Rightarrow> 'v cacheConfig \<Rightarrow> 'c \<Rightarrow> 'v client \<Rightarrow> ('w, unit) fio" where
  "register R cfg c cli =
     (let deps = memberDeps cfg cli in
      bindE (GetInformer R c KGateway) id (\<lambda>gwInformer.
      bindE (AddEventHandler R gwInformer (GatewayHandler deps)) (Wrap ''add gateway handler'') (\<lambda>_.
      bindE (GetInformer R c KGatewayClass) id (\<lambda>gcInformer.
      bindE (AddEventHandler R gcInformer (GatewayClassHandler cli)) (Wrap ''add gatewayclass handler'') (\<lambda>_.
      forE (addRefresh R c (RefreshHandler cli deps)) refreshKinds)))))"

definition Start ::
  "('r, 'c, 'i, 'v, 'w) runtimeLib \<Rightarrow> 'v cacheConfig \<Rightarrow> ('w, ('c, 'v) memberClient) fio" where
  "Start R cfg =
     (case RESTConfigFromKubeConfig R (cc_Kubeconfig cfg) of
        Inl e \<Rightarrow> fail (Wrap ''parse kubeconfig'' e)
      | Inr restCfg \<Rightarrow>
          bindE (NewCache R restCfg) (Wrap ''new cache'') (\<lambda>c.
          bindE (forE (openInformer R c) informerKinds) id (\<lambda>_.
          bindE (NewClient R restCfg c) (Wrap ''new client'') (\<lambda>cli.
          bindE (register R cfg c cli) id (\<lambda>_.
          State_Monad.bind (Spawn R (PeriodicRefresh cli (memberDeps cfg cli))) (\<lambda>_.
          State_Monad.bind (Spawn R (RunCache c)) (\<lambda>_.
          ok \<lparr>mc_Cache = c, mc_Client = cli\<rparr>)))))))"

section \<open>What Start registers\<close>

text \<open>
  The runtime with a log of what was obtained, registered and started. Informers carry the kind they
  were asked for.
\<close>

datatype ('c, 'v) startEvent =
    GotInformer resourceKind
  | Registered resourceKind "'v handler"
  | Spawned "('c, 'v) goroutine"

definition noting :: "('a \<Rightarrow> 'e list) \<Rightarrow> ('a \<Rightarrow> 'b) \<Rightarrow> ('w, 'a) io \<Rightarrow> ('w \<times> 'e list, 'b) io" where
  "noting f g m = State (\<lambda>(w, es). case run_state m w of (x, w') \<Rightarrow> (g x, (w', es @ f x)))"

lemma run_noting [simp]:
  "run_state (noting f g m) s = (case run_state m (fst s) of (x, w') \<Rightarrow> (g x, (w', snd s @ f x)))"
  by (cases s) (simp add: noting_def split: prod.splits)

definition onSuccess :: "'e \<Rightarrow> error + 'a \<Rightarrow> 'e list" where
  "onSuccess e r = (case r of Inl _ \<Rightarrow> [] | Inr _ \<Rightarrow> [e])"

definition notingLib ::
  "('r, 'c, 'i, 'v, 'w) runtimeLib \<Rightarrow> ('r, 'c, resourceKind \<times> 'i, 'v, 'w \<times> ('c, 'v) startEvent list) runtimeLib" where
  "notingLib R = \<lparr>
     RESTConfigFromKubeConfig = RESTConfigFromKubeConfig R,
     NewCache = (\<lambda>r. noting (\<lambda>_. []) id (NewCache R r)),
     GetInformer = (\<lambda>c k. noting (onSuccess (GotInformer k)) (map_sum id (Pair k)) (GetInformer R c k)),
     NewClient = (\<lambda>r c. noting (\<lambda>_. []) id (NewClient R r c)),
     AddEventHandler = (\<lambda>(k, i) h. noting (onSuccess (Registered k h)) id (AddEventHandler R i h)),
     Spawn = (\<lambda>g. noting (\<lambda>_. [Spawned g]) id (Spawn R g))\<rparr>"

lemma notingLib_simps [simp]:
  "RESTConfigFromKubeConfig (notingLib R) = RESTConfigFromKubeConfig R"
  "NewCache (notingLib R) = (\<lambda>r. noting (\<lambda>_. []) id (NewCache R r))"
  "GetInformer (notingLib R) = (\<lambda>c k. noting (onSuccess (GotInformer k)) (map_sum id (Pair k)) (GetInformer R c k))"
  "NewClient (notingLib R) = (\<lambda>r c. noting (\<lambda>_. []) id (NewClient R r c))"
  "AddEventHandler (notingLib R) = (\<lambda>(k, i) h. noting (onSuccess (Registered k h)) id (AddEventHandler R i h))"
  "Spawn (notingLib R) = (\<lambda>g. noting (\<lambda>_. [Spawned g]) id (Spawn R g))"
  by (simp_all add: notingLib_def)

lemma onSuccess_simps [simp]: "onSuccess e (Inl x) = []" "onSuccess e (Inr y) = [e]"
  by (simp_all add: onSuccess_def)

definition handlersOf :: "('c, 'v) startEvent list \<Rightarrow> resourceKind \<Rightarrow> 'v handler list" where
  "handlersOf es k = List.map_filter (\<lambda>e. case e of Registered k' h \<Rightarrow> if k' = k then Some h else None | _ \<Rightarrow> None) es"

lemma handlersOf_simps [simp]:
  "handlersOf [] k = []"
  "handlersOf (GotInformer k' # es) k = handlersOf es k"
  "handlersOf (Registered k' h # es) k = (if k' = k then h # handlersOf es k else handlersOf es k)"
  "handlersOf (Spawned g # es) k = handlersOf es k"
  "handlersOf (es @ es') k = handlersOf es k @ handlersOf es' k"
  by (simp_all add: handlersOf_def List.map_filter_simps map_filter_def)

text \<open>
  \<open>grows m Q\<close>: \<open>m\<close> only appends to the log, and \<open>Q\<close> relates its result to what it appends.
  \<open>registers m es\<close>: it starts no goroutine, and when it succeeds it appends \<open>es\<close>.
\<close>

definition grows :: "('w \<times> 'e list, 'a) io \<Rightarrow> ('a \<Rightarrow> 'e list \<Rightarrow> bool) \<Rightarrow> bool" where
  "grows m Q \<longleftrightarrow> (\<forall>w log. case run_state m (w, log) of (r, w', log') \<Rightarrow> \<exists>new. log' = log @ new \<and> Q r new)"

definition quiet :: "('c, 'v) startEvent list \<Rightarrow> bool" where
  "quiet es \<longleftrightarrow> (\<forall>g. Spawned g \<notin> set es)"

definition registers :: "('w \<times> ('c, 'v) startEvent list, 'a) fio \<Rightarrow> ('c, 'v) startEvent list \<Rightarrow> bool" where
  "registers m es \<longleftrightarrow> grows m (\<lambda>r new. quiet new \<and> (\<forall>x. r = Inr x \<longrightarrow> new = es))"

lemma quiet_append [simp]: "quiet (es @ es') \<longleftrightarrow> quiet es \<and> quiet es'"
  by (auto simp: quiet_def)

lemma quiet_simps [simp]: "quiet []" "quiet (GotInformer k # es) = quiet es" "quiet (Registered k h # es) = quiet es"
  by (auto simp: quiet_def)

lemma growsD: "grows m Q \<Longrightarrow> run_state m (w, log) = (r, w', log') \<Longrightarrow> \<exists>new. log' = log @ new \<and> Q r new"
  by (auto simp: grows_def split: prod.splits)

lemma growsI:
  "(\<And>w log r w' log'. run_state m (w, log) = (r, w', log') \<Longrightarrow> \<exists>new. log' = log @ new \<and> Q r new) \<Longrightarrow> grows m Q"
  by (auto simp: grows_def split: prod.splits)

lemma grows_post:
  assumes "grows m Q" and "\<And>r new. Q r new \<Longrightarrow> Q' r new"
  shows "grows m Q'"
  using growsD [OF assms(1)] assms(2) by (intro growsI) blast

lemma grows_noting: "(\<And>r. Q (g r) (f r)) \<Longrightarrow> grows (noting f g m) Q"
  by (auto simp: grows_def split: prod.splits)

lemma grows_ok: "Q (Inr x) [] \<Longrightarrow> grows (ok x) Q"
  by (simp add: grows_def)

lemma grows_fail: "Q (Inl e) [] \<Longrightarrow> grows (fail e) Q"
  by (simp add: grows_def)

lemma grows_bind:
  assumes "grows m Q1" and "\<And>x new. Q1 x new \<Longrightarrow> grows (k x) (\<lambda>r new'. Q r (new @ new'))"
  shows "grows (State_Monad.bind m k) Q"
  unfolding grows_def
proof (intro allI, clarsimp split: prod.splits)
  fix w log r1 w1 log1 r w' log'
  assume m: "run_state m (w, log) = (r1, w1, log1)" and k: "run_state (k r1) (w1, log1) = (r, w', log')"
  from growsD [OF assms(1) m] obtain new where new: "log1 = log @ new" "Q1 r1 new" by blast
  from growsD [OF assms(2) [OF new(2)] k] new(1) show "\<exists>new. log' = log @ new \<and> Q r new" by auto
qed

lemma grows_bindE:
  assumes "grows m Q1" and "\<And>e new. Q1 (Inl e) new \<Longrightarrow> Q (Inl (f e)) new"
    and "\<And>x new. Q1 (Inr x) new \<Longrightarrow> grows (k x) (\<lambda>r new'. Q r (new @ new'))"
  shows "grows (bindE m f k) Q"
  unfolding bindE_def using assms(1)
proof (rule grows_bind)
  fix x new
  assume "Q1 x new"
  with assms(2,3) show "grows (case x of Inl e \<Rightarrow> fail (f e) | Inr x \<Rightarrow> k x) (\<lambda>r new'. Q r (new @ new'))"
    by (cases x) (auto intro: grows_fail)
qed

lemma registers_ok: "registers (ok x) []"
  by (simp add: registers_def grows_ok)

lemma registers_seq:
  assumes "registers m es" and "\<And>x. registers (k x) es'"
  shows "registers (bindE m f k) (es @ es')"
  unfolding registers_def
  by (rule grows_bindE [OF assms(1) [unfolded registers_def]])
    (auto intro!: grows_post [OF assms(2) [unfolded registers_def]])

lemma registers_informer: "registers (GetInformer (notingLib R) c k) [GotInformer k]"
  by (auto simp: registers_def onSuccess_def intro!: grows_noting split: sum.splits)

text \<open>An informer asked for, then a handler put on it.\<close>

lemma registers_watch:
  assumes "\<And>x. registers (k x) es"
  shows "registers (bindE (GetInformer (notingLib R) c kind) f (\<lambda>i.
     bindE (AddEventHandler (notingLib R) i h) f' k)) ([GotInformer kind, Registered kind h] @ es)"
proof -
  have get: "grows (GetInformer (notingLib R) c kind)
      (\<lambda>r new. case r of Inl _ \<Rightarrow> new = [] | Inr i \<Rightarrow> fst i = kind \<and> new = [GotInformer kind])"
    unfolding notingLib_simps
  proof (rule grows_noting)
    fix r
    show "case map_sum id (Pair kind) r of Inl _ \<Rightarrow> onSuccess (GotInformer kind) r = []
        | Inr i \<Rightarrow> fst i = kind \<and> onSuccess (GotInformer kind) r = [GotInformer kind]"
      by (cases r) simp_all
  qed
  have add: "registers (AddEventHandler (notingLib R) i h) [Registered (fst i) h]" for i
    by (auto simp: registers_def onSuccess_def intro!: grows_noting split: sum.splits prod.splits)
  have "registers (bindE (AddEventHandler (notingLib R) i h) f' k) ([Registered (fst i) h] @ es)" for i
    by (rule registers_seq [OF add assms])
  then show ?thesis
    unfolding registers_def
    by (intro grows_bindE [OF get]) (auto elim!: grows_post [rotated])
qed

lemma registers_forE: "(\<And>x. registers (f x) (g x)) \<Longrightarrow> registers (forE f xs) (concat (map g xs))"
  by (induction xs) (auto intro!: registers_ok registers_seq)

definition registrations :: "'v cacheConfig \<Rightarrow> 'v client \<Rightarrow> ('c, 'v) startEvent list" where
  "registrations cfg cli =
     [GotInformer KGateway, Registered KGateway (GatewayHandler (memberDeps cfg cli)),
      GotInformer KGatewayClass, Registered KGatewayClass (GatewayClassHandler cli)] @
     concat (map (\<lambda>k. [GotInformer k, Registered k (RefreshHandler cli (memberDeps cfg cli))]) refreshKinds)"

lemma registers_openInformer: "registers (openInformer (notingLib R) c k) [GotInformer k]"
  unfolding openInformer_def using registers_seq [OF registers_informer registers_ok] by simp

lemma registers_addRefresh: "registers (addRefresh (notingLib R) c h k) [GotInformer k, Registered k h]"
  unfolding addRefresh_def using registers_watch [where k = ok and es = "[]", OF registers_ok] by simp

lemma registers_register: "registers (register (notingLib R) cfg c cli) (registrations cfg cli)"
  unfolding register_def registrations_def Let_def
  using registers_watch [OF registers_watch [OF registers_forE [OF registers_addRefresh]]] by simp

lemma handlersOf_registrations:
  "handlersOf (registrations cfg cli :: ('c, 'v) startEvent list) k =
     (if k = KGateway then [GatewayHandler (memberDeps cfg cli)]
      else (if k = KGatewayClass then [GatewayClassHandler cli] else []) @ [RefreshHandler cli (memberDeps cfg cli)])"
  by (cases k) (simp_all add: registrations_def refreshKinds_def)

lemma handlersOf_informers: "handlersOf (map GotInformer ks) k = []"
  by (induction ks) simp_all

text \<open>The handlers of a kind, run on one event in the order they were added.\<close>

primrec dispatch :: "'v handler list \<Rightarrow> informerEvent \<Rightarrow> ('v, work list) io" where
  "dispatch [] ev = pureIO []"
| "dispatch (h # hs) ev = State_Monad.bind (onEvent h ev) (\<lambda>ws. State_Monad.bind (dispatch hs ev) (\<lambda>ws'. pureIO (ws @ ws')))"

text \<open>An event that adds the object, or changes its generation.\<close>

definition specChange :: "informerEvent \<Rightarrow> objectMeta \<Rightarrow> bool" where
  "specChange ev new \<longleftrightarrow> ev = AddEvent (KubeObject new) \<or>
     (\<exists>old. ev = UpdateEvent (KubeObject old) (KubeObject new) \<and> m_Generation old \<noteq> m_Generation new)"

lemma grows_Start:
  "grows (Start (notingLib R) cfg) (\<lambda>r log. case r of
     Inl e \<Rightarrow> quiet log
   | Inr m \<Rightarrow> log = concat (map (\<lambda>k. [GotInformer k]) informerKinds) @ registrations cfg (mc_Client m) @
       [Spawned (PeriodicRefresh (mc_Client m) (memberDeps cfg (mc_Client m))), Spawned (RunCache (mc_Cache m))])"
proof (cases "RESTConfigFromKubeConfig R (cc_Kubeconfig cfg)")
  case (Inl e)
  then show ?thesis by (simp add: Start_def grows_fail)
next
  case (Inr restCfg)
  have silent: "grows (noting (\<lambda>_. []) id m) (\<lambda>_ new. new = [])" for m
    by (rule grows_noting) simp
  have spawn: "grows (Spawn (notingLib R) g) (\<lambda>_ new. new = [Spawned g])" for g
    by (auto intro: grows_noting)
  have NewCache: "grows (NewCache (notingLib R) restCfg) (\<lambda>_ new. new = [])" using silent by simp
  have NewClient: "grows (NewClient (notingLib R) restCfg c) (\<lambda>_ new. new = [])" for c using silent by simp
  show ?thesis
    unfolding Start_def notingLib_simps(1) Inr sum.case
    by (rule grows_bindE [OF NewCache], simp,
        rule grows_bindE [OF registers_forE [OF registers_openInformer, unfolded registers_def]], simp,
        rule grows_bindE [OF NewClient], simp,
        rule grows_bindE [OF registers_register [unfolded registers_def]], simp,
        rule grows_bind [OF spawn], rule grows_bind [OF spawn], rule grows_ok, simp)
qed

lemma handlers_change:
  assumes "specChange ev new"
  shows "newGatewayHandler ev = [keyOf new]"
    and "newGatewayClassHandler ev = [m_Name new]"
    and "newGatewayRefreshHandler c ev = enqueueAllGateways c"
  using assms by (auto simp: specChange_def keyOf_def)

lemma run_enqueueAllGateways:
  "run_state (List (gateways c) None) v = (Inr gws, v') \<Longrightarrow>
   run_state (enqueueAllGateways c) v = (map (\<lambda>gw. keyOf (gw_Meta gw)) gws, v')"
  by (simp add: enqueueAllGateways_def)

section \<open>Properties\<close>

text \<open>A runtime in which every call succeeds, and a configuration.\<close>

definition sampleRuntime :: "(unit, unit, unit, 'v, 'w) runtimeLib" where
  "sampleRuntime = \<lparr>RESTConfigFromKubeConfig = (\<lambda>_. Inr ()), NewCache = (\<lambda>_. ok ()), GetInformer = (\<lambda>_ _. ok ()),
     NewClient = (\<lambda>_ _. ok emptyClient), AddEventHandler = (\<lambda>_ _. ok ()), Spawn = (\<lambda>_. pureIO ())\<rparr>"

definition sampleCacheConfig :: "unit cacheConfig" where
  "sampleCacheConfig = \<lparr>cc_TenantName = ''alice'', cc_InfraNamespace = ''tenant-alice'', cc_Platform = '''',
     cc_Kubeconfig = ''kubeconfig'', cc_InfraClient = emptyClient, cc_IstiodImage = '''', cc_IstiodReplicas = 1,
     cc_MemberKubeconfigName = ''member'', cc_MemberKubeconfigKey = ''kubeconfig''\<rparr>"

text \<open>The log of a start that succeeds, and the handlers it leaves on each kind.\<close>

lemma Start_log:
  assumes "run_state (Start (notingLib R) cfg) (w, []) = (Inr m, w', log)"
  shows "log = (concat (map (\<lambda>k. [GotInformer k]) informerKinds) @ registrations cfg (mc_Client m)) @
    [Spawned (PeriodicRefresh (mc_Client m) (memberDeps cfg (mc_Client m))), Spawned (RunCache (mc_Cache m))]"
  using growsD [OF grows_Start assms] by auto

lemma Start_handlers:
  assumes "run_state (Start (notingLib R) cfg) (w, []) = (Inr m, w', log)"
  shows "handlersOf log k =
    (if k = KGateway then [GatewayHandler (memberDeps cfg (mc_Client m))]
     else (if k = KGatewayClass then [GatewayClassHandler (mc_Client m)] else []) @
       [RefreshHandler (mc_Client m) (memberDeps cfg (mc_Client m))])"
  by (simp add: Start_log [OF assms] handlersOf_registrations handlersOf_informers)

text \<open>
  C18: what the member cluster cache watches, whatever the libraries answer. When \<open>Start\<close> fails, no
  goroutine was started. When it succeeds, the last two things it did were to start the periodic refresh
  and the cache, after all handlers were in place; and for every kind, an event that adds an object or
  changes its generation makes the handlers registered for that kind enqueue exactly: the object's own key
  for a Gateway; for any other kind every Gateway the member cluster lists, and the class itself for a
  GatewayClass.
\<close>

theorem Start_watches:
  assumes "run_state (Start (notingLib R) cfg) (w, []) = (r, w', log)"
  shows "case r of
     Inl e \<Rightarrow> \<forall>g. Spawned g \<notin> set log
   | Inr m \<Rightarrow> let cli = mc_Client m in
      (\<exists>regs. log = regs @ [Spawned (PeriodicRefresh cli (memberDeps cfg cli)), Spawned (RunCache (mc_Cache m))] \<and>
         (\<forall>g. Spawned g \<notin> set regs)) \<and>
      (\<forall>ev new v. specChange ev new \<longrightarrow>
         run_state (dispatch (handlersOf log KGateway) ev) v = ([GatewayWork (keyOf new)], v)) \<and>
      (\<forall>k ev new v gws v'. k \<noteq> KGateway \<and> specChange ev new \<and> run_state (List (gateways cli) None) v = (Inr gws, v') \<longrightarrow>
         run_state (dispatch (handlersOf log k) ev) v =
           ((if k = KGatewayClass then [ClassWork (m_Name new)] else []) @
            map (\<lambda>gw. GatewayWork (keyOf (gw_Meta gw))) gws, v'))"
proof (cases r)
  case (Inl e)
  then show ?thesis using growsD [OF grows_Start assms] by (simp add: quiet_def)
next
  case (Inr m)
  note run = assms [unfolded Inr]
  have "quiet (concat (map (\<lambda>k. [GotInformer k]) informerKinds) @ registrations cfg (mc_Client m))"
    by (simp add: informerKinds_def registrations_def refreshKinds_def)
  with Start_log [OF run] have "\<exists>regs. log = regs @ [Spawned (PeriodicRefresh (mc_Client m) (memberDeps cfg (mc_Client m))),
      Spawned (RunCache (mc_Cache m))] \<and> (\<forall>g. Spawned g \<notin> set regs)"
    unfolding quiet_def by blast
  then show ?thesis
    using Inr by (auto simp: Let_def Start_handlers [OF run] handlers_change run_enqueueAllGateways)
qed

text \<open>Witness for C18: a Gateway added to a member cluster where every library call succeeds.\<close>

theorem Start_watches_witness:
  "\<exists>m log. run_state (Start (notingLib sampleRuntime) sampleCacheConfig) ((), []) = (Inr m, (), log) \<and>
     run_state (dispatch (handlersOf log KGateway) (AddEvent (KubeObject emptyMeta))) () = ([GatewayWork (keyOf emptyMeta)], ())"
proof -
  have "\<exists>m log. run_state (Start (notingLib sampleRuntime) sampleCacheConfig) ((), []) = (Inr m, (), log)"
    by (simp add: Start_def sampleRuntime_def openInformer_def register_def addRefresh_def informerKinds_def
        refreshKinds_def Let_def)
  then obtain m log where run: "run_state (Start (notingLib sampleRuntime) sampleCacheConfig) ((), []) = (Inr m, (), log)"
    by blast
  have "specChange (AddEvent (KubeObject emptyMeta)) emptyMeta" by (simp add: specChange_def)
  with Start_watches [OF run] run show ?thesis by (auto simp: Let_def)
qed

end
