(* ===== verification/Controller_Main.thy ===== *)
theory Controller_Main
  imports Member_Cluster Reconciler_Trace
begin

text \<open>
  The controller command, \<open>controller/cmd/controller/main.go\<close>: flags and their validation, the manager
  set-up, and the bootstrap that loads the kubeconfig, starts the member cluster cache, applies Istiod once
  and leaves a resync loop behind. The manager of controller-runtime is a parameter (\<open>managerLib\<close>); so is
  the parser of kubeconfigs. Logging and the options of the logger are left out.
\<close>

section \<open>Configuration\<close>

record config =
  cfg_metricsAddr :: string
  cfg_probeAddr :: string
  cfg_enableLeaderElect :: bool
  cfg_tenantName :: string
  cfg_infraNamespace :: string
  cfg_kubeconfigSecretName :: string
  cfg_kubeconfigSecretKey :: string
  cfg_istiodImage :: string
  cfg_istiodReplicas :: int
  cfg_istiodResyncPeriod :: int
  cfg_platform :: string

definition leaderElectionID :: string where "leaderElectionID = ''appnet-gateway.controller''"
definition defaultMetricsAddress :: string where "defaultMetricsAddress = '':8080''"
definition defaultProbeAddress :: string where "defaultProbeAddress = '':8081''"

text \<open>What the command line sets, after \<open>flag.Parse\<close>: a flag that is not given keeps its default.\<close>

record commandLine =
  stringFlag :: "string \<rightharpoonup> string"
  boolFlag :: "string \<rightharpoonup> bool"
  intFlag :: "string \<rightharpoonup> int"
  durationFlag :: "string \<rightharpoonup> int"

definition flagOr :: "(string \<rightharpoonup> 'a) \<Rightarrow> string \<Rightarrow> 'a \<Rightarrow> 'a" where
  "flagOr m name dflt = (case m name of None \<Rightarrow> dflt | Some v \<Rightarrow> v)"

text \<open>The conversion \<open>int32(n)\<close>, which wraps.\<close>

definition int32 :: "int \<Rightarrow> int" where
  "int32 n = (n + 2 ^ 31) mod 2 ^ 32 - 2 ^ 31"

definition parseFlags :: "(string \<Rightarrow> string) \<Rightarrow> commandLine \<Rightarrow> config" where
  "parseFlags Getenv args = \<lparr>
     cfg_metricsAddr = flagOr (stringFlag args) ''metrics-bind-address'' defaultMetricsAddress,
     cfg_probeAddr = flagOr (stringFlag args) ''health-probe-bind-address'' defaultProbeAddress,
     cfg_enableLeaderElect = flagOr (boolFlag args) ''leader-elect'' True,
     cfg_tenantName = flagOr (stringFlag args) ''tenant-name'' (Getenv ''TENANT_NAME''),
     cfg_infraNamespace = flagOr (stringFlag args) ''infra-namespace'' (Getenv ''INFRA_NAMESPACE''),
     cfg_kubeconfigSecretName = flagOr (stringFlag args) ''member-kubeconfig-secret'' (Getenv ''MEMBER_KUBECONFIG_SECRET''),
     cfg_kubeconfigSecretKey = flagOr (stringFlag args) ''member-kubeconfig-key'' ''kubeconfig'',
     cfg_istiodImage = flagOr (stringFlag args) ''istiod-image'' (Getenv ''ISTIOD_IMAGE''),
     cfg_istiodReplicas = int32 (flagOr (intFlag args) ''istiod-replicas'' 1),
     cfg_istiodResyncPeriod = flagOr (durationFlag args) ''istiod-resync-period'' (60 * nanos),
     cfg_platform = flagOr (stringFlag args) ''platform'' (Getenv ''APPNET_PLATFORM'')\<rparr>"

definition validate :: "config \<Rightarrow> error option" where
  "validate c =
     (if cfg_tenantName c = '''' then Some (Errorf ''--tenant-name (or $TENANT_NAME) is required'')
      else if cfg_infraNamespace c = '''' then Some (Errorf ''--infra-namespace (or $INFRA_NAMESPACE) is required'')
      else if cfg_kubeconfigSecretName c = '''' then
        Some (Errorf ''--member-kubeconfig-secret (or $MEMBER_KUBECONFIG_SECRET) is required'')
      else None)"

section \<open>Bootstrap\<close>

definition initialIstiodParams :: "config \<Rightarrow> istiodParams" where
  "initialIstiodParams c =
     \<lparr>ip_Tenant = cfg_tenantName c, ip_Namespace = cfg_infraNamespace c, ip_Platform = cfg_platform c,
      ip_Image = cfg_istiodImage c, ip_Replicas = cfg_istiodReplicas c,
      ip_MemberKubeconfigName = cfg_kubeconfigSecretName c, ip_MemberKubeconfigKey = cfg_kubeconfigSecretKey c,
      ip_TLSCertNames = []\<rparr>"

definition cacheConfigOf :: "config \<Rightarrow> string \<Rightarrow> 'v client \<Rightarrow> 'v cacheConfig" where
  "cacheConfigOf c kubeconfig infraClient =
     \<lparr>cc_TenantName = cfg_tenantName c, cc_InfraNamespace = cfg_infraNamespace c, cc_Platform = cfg_platform c,
      cc_Kubeconfig = kubeconfig, cc_InfraClient = infraClient, cc_IstiodImage = cfg_istiodImage c,
      cc_IstiodReplicas = cfg_istiodReplicas c, cc_MemberKubeconfigName = cfg_kubeconfigSecretName c,
      cc_MemberKubeconfigKey = cfg_kubeconfigSecretKey c\<rparr>"

definition bootstrapDeps :: "config \<Rightarrow> 'v client \<Rightarrow> 'v client \<Rightarrow> 'v deps" where
  "bootstrapDeps c infraClient memberClient =
     \<lparr>d_Tenant = cfg_tenantName c, d_InfraNamespace = cfg_infraNamespace c, d_Platform = cfg_platform c,
      d_MemberClient = memberClient, d_InfraClient = infraClient, d_IstiodImage = cfg_istiodImage c,
      d_IstiodReplicas = cfg_istiodReplicas c, d_MemberKubeconfigName = cfg_kubeconfigSecretName c,
      d_MemberKubeconfigKey = cfg_kubeconfigSecretKey c\<rparr>"

definition loadKubeconfig ::
  "(string \<Rightarrow> error + 'r) \<Rightarrow> 'w client \<Rightarrow> config \<Rightarrow> ('w, string) fio" where
  "loadKubeconfig parse infraClient c =
     (let name = cfg_infraNamespace c @ ''/'' @ cfg_kubeconfigSecretName c in
      bindE (Get (secrets infraClient) (cfg_infraNamespace c, cfg_kubeconfigSecretName c)) (Wrap (''get secret '' @ name)) (\<lambda>secret.
      let missing = fail (Errorf (''secret '' @ name @ '' missing key '' @ quote (cfg_kubeconfigSecretKey c))) in
      case sec_Data secret (cfg_kubeconfigSecretKey c) of
        None \<Rightarrow> missing
      | Some data \<Rightarrow>
          if data = '''' then missing
          else (case parse data of Inl e \<Rightarrow> fail (Wrap ''kubeconfig parse'' e) | Inr _ \<Rightarrow> ok data)))"

text \<open>
  \<open>bootstrapRunnable.Start\<close>, up to the point where it waits for the context to end and returns nil.
  Errors of the two apply calls are logged only.
\<close>

definition bootstrapStart ::
  "('r, 'c, 'i, 'w, 'w) runtimeLib \<Rightarrow> config \<Rightarrow> 'w client \<Rightarrow> ('w, unit) fio" where
  "bootstrapStart R c infraClient =
     bindE (loadKubeconfig (RESTConfigFromKubeConfig R) infraClient c) (Wrap ''load member kubeconfig'') (\<lambda>kubeconfig.
     bindE (Start R (cacheConfigOf c kubeconfig infraClient)) (Wrap ''start member cluster cache'') (\<lambda>mc.
     State_Monad.bind (Apply infraClient (ODeployment (IstiodDeployment (initialIstiodParams c)))) (\<lambda>_.
     State_Monad.bind (Apply infraClient (OService (IstiodService (initialIstiodParams c)))) (\<lambda>_.
     State_Monad.bind (Spawn R (IstiodResync (bootstrapDeps c infraClient (mc_Client mc)))) (\<lambda>_. ok ())))))"

text \<open>The resync loop, for the ticks before the context ends.\<close>

primrec istiodResyncLoop :: "'w deps \<Rightarrow> nat \<Rightarrow> ('w, unit) io" where
  "istiodResyncLoop d 0 = pureIO ()"
| "istiodResyncLoop d (Suc ticks) = State_Monad.bind (RefreshIstiod d) (\<lambda>_. istiodResyncLoop d ticks)"

definition NeedLeaderElection :: bool where "NeedLeaderElection = True"

section \<open>The command\<close>

record managerOptions =
  mo_MetricsBindAddress :: string
  mo_HealthProbeBindAddress :: string
  mo_LeaderElection :: bool
  mo_LeaderElectionID :: string
  mo_LeaderElectionNamespace :: string
  mo_DefaultNamespaces :: "string list"

text \<open>A runnable as the manager sees it: what it runs, and whether it has to be the leader.\<close>

record ('k, 'm, 'w) managerLib =
  GetConfig :: "('w, 'k) fio"
  NewManager :: "'k \<Rightarrow> managerOptions \<Rightarrow> ('w, 'm) fio"
  GetClient :: "'m \<Rightarrow> 'w client"
  AddRunnable :: "'m \<Rightarrow> bool \<Rightarrow> ('w, unit) fio \<Rightarrow> ('w, unit) fio"
  AddHealthzCheck :: "'m \<Rightarrow> string \<Rightarrow> ('w, unit) fio"
  AddReadyzCheck :: "'m \<Rightarrow> string \<Rightarrow> ('w, unit) fio"
  StartManager :: "'m \<Rightarrow> ('w, unit) fio"

definition managerOptionsOf :: "config \<Rightarrow> managerOptions" where
  "managerOptionsOf c =
     \<lparr>mo_MetricsBindAddress = cfg_metricsAddr c, mo_HealthProbeBindAddress = cfg_probeAddr c,
      mo_LeaderElection = cfg_enableLeaderElect c, mo_LeaderElectionID = leaderElectionID,
      mo_LeaderElectionNamespace = cfg_infraNamespace c, mo_DefaultNamespaces = [cfg_infraNamespace c]\<rparr>"

text \<open>\<open>main\<close>; the result is the exit code of the process.\<close>

definition controllerMain ::
  "('k, 'm, 'w) managerLib \<Rightarrow> ('r, 'c, 'i, 'w, 'w) runtimeLib \<Rightarrow> (string \<Rightarrow> string) \<Rightarrow> commandLine \<Rightarrow> ('w, int) io" where
  "controllerMain M R Getenv args =
     (let cfg = parseFlags Getenv args; exit1 = (\<lambda>_. pureIO 1) in
      case validate cfg of
        Some e \<Rightarrow> pureIO 1
      | None \<Rightarrow>
          tryE (GetConfig M) exit1 (\<lambda>kc.
          tryE (NewManager M kc (managerOptionsOf cfg)) exit1 (\<lambda>mgr.
          tryE (AddRunnable M mgr NeedLeaderElection (bootstrapStart R cfg (GetClient M mgr))) exit1 (\<lambda>_.
          tryE (AddHealthzCheck M mgr ''healthz'') exit1 (\<lambda>_.
          tryE (AddReadyzCheck M mgr ''readyz'') exit1 (\<lambda>_.
          tryE (StartManager M mgr) exit1 (\<lambda>_. pureIO 0)))))))"

section \<open>Facts\<close>

lemma int32_range: "- (2 ^ 31) \<le> int32 n" "int32 n < 2 ^ 31"
  by (simp_all add: int32_def)

lemma int32_id: "- (2 ^ 31) \<le> n \<Longrightarrow> n < 2 ^ 31 \<Longrightarrow> int32 n = n"
  by (simp add: int32_def)

lemma bootstrapDeps_memberDeps: "memberDeps (cacheConfigOf c kubeconfig infra) cli = bootstrapDeps c infra cli"
  by (simp add: memberDeps_def cacheConfigOf_def bootstrapDeps_def)

lemma initial_params: "initialIstiodParams c = istiodParamsOf (bootstrapDeps c infra cli) []"
  by (simp add: initialIstiodParams_def istiodParamsOf_def bootstrapDeps_def)

lemma istiodResyncLoop_add:
  "run_state (istiodResyncLoop d (m + n)) w = run_state (State_Monad.bind (istiodResyncLoop d m) (\<lambda>_. istiodResyncLoop d n)) w"
  by (induction m arbitrary: w) (simp_all split: prod.splits)

end
