(* ===== verification/Controller_Properties.thy ===== *)
theory Controller_Properties
  imports Controller_Main Reconciler_Properties
begin

text \<open>
  Properties of the controller command: what the bootstrap and the resync loop may write, what a
  tick of the resync loop sends, what the first apply does to a running Istiod, and which configurations start.
\<close>

section \<open>The guard of the tenant's Istiod\<close>

definition istiodObject :: "string set \<Rightarrow> string \<Rightarrow> clientObject \<Rightarrow> bool" where
  "istiodObject kinds ns obj \<longleftrightarrow> objKind obj \<in> kinds \<and> keyOf (objMeta obj) = (ns, ''istiod'') \<and>
     mapGet (GetLabels obj) ManagedByLabel = ManagedByValue"

text \<open>\<open>allow\<close> is a fact that has to hold of the history before a write.\<close>

fun istiodGuard :: "string set \<Rightarrow> string \<Rightarrow> (event list \<Rightarrow> bool) \<Rightarrow> guard" where
  "istiodGuard kinds ns allow es (GotObject k n x) = True"
| "istiodGuard kinds ns allow es (GotGateway n x) = True"
| "istiodGuard kinds ns allow es (CreateObject Infra obj) = (istiodObject kinds ns obj \<and> allow es)"
| "istiodGuard kinds ns allow es (UpdateObject Infra obj) = (istiodObject kinds ns obj \<and> readBefore Infra es obj \<and> allow es)"
| "istiodGuard kinds ns allow es ev = False"

interpretation ig: read_guard "istiodGuard kinds ns allow" for kinds ns allow
  by unfold_locales auto

lemma valid_Apply_istiod:
  assumes "stable F" and "istiodObject kinds ns obj" and "\<And>es. F es \<Longrightarrow> allow es"
  shows "preserves (logged (istiodGuard kinds ns allow) F) (Apply (traced Infra c) obj)"
proof (rule valid_Apply [OF assms(1)])
  fix es x obj'
  assume F: "F es" and got: "GotObject Infra (keyOf (objMeta obj)) x \<in> set es" and prep: "prepareForUpdate x obj = Inr obj'"
  note meta = prepareForUpdate_meta [OF prep]
  then have "istiodObject kinds ns obj'" using assms(2) by (simp add: istiodObject_def keyOf_def)
  moreover have "readBefore Infra es obj'" using meta got by (auto simp: readBefore_def keyOf_def)
  ultimately show "istiodGuard kinds ns allow es (UpdateObject Infra obj')" using assms(3) [OF F] by simp
qed (use assms in auto)

lemma istiod_objects:
  "istiodObject {''Deployment''} (ip_Namespace p) (ODeployment (IstiodDeployment p))"
  "''Deployment'' \<in> kinds \<Longrightarrow> istiodObject kinds (ip_Namespace p) (ODeployment (IstiodDeployment p))"
  "''Service'' \<in> kinds \<Longrightarrow> istiodObject kinds (ip_Namespace p) (OService (IstiodService p))"
  by (simp_all add: istiodObject_def IstiodDeployment_def IstiodService_def defaultIstiodParams_def Let_def
      istiodLabels_def mapGet_def keyOf_def emptyService_def)

lemma valid_RefreshIstiod_istiod:
  assumes "stable F" and "\<And>es. F es \<Longrightarrow> allow es"
  shows "preserves (logged (istiodGuard {''Deployment''} (d_InfraNamespace d) allow) F) (RefreshIstiod (tracedDeps d))"
proof -
  have "istiodObject {''Deployment''} (d_InfraNamespace d) (ODeployment (IstiodDeployment (istiodParamsOf (tracedDeps d) certs)))" for certs
    using istiod_objects(1) [of "istiodParamsOf (tracedDeps d) certs"] by (simp add: istiodParamsOf_def)
  then show ?thesis
    unfolding RefreshIstiod_def tracedDeps_simps traced_simps
    by (intro valid_intros ig.list_status ig.istiodCertNames ig.backendTLSPolicyCACertNames
        valid_Apply_istiod assms)
qed

lemma valid_istiodResyncLoop:
  "stable F \<Longrightarrow> (\<And>es. F es \<Longrightarrow> allow es) \<Longrightarrow>
   preserves (logged (istiodGuard {''Deployment''} (d_InfraNamespace d) allow) F) (istiodResyncLoop (tracedDeps d) n)"
  by (induction n) (auto intro!: valid_intros valid_RefreshIstiod_istiod)

section \<open>A runtime that does not write\<close>

text \<open>
  What the bootstrap relies on: building caches, clients and informers, adding handlers and starting a
  goroutine are no writes to the infra cluster.
\<close>

definition logKept :: "('w \<times> event list, 'a) io \<Rightarrow> bool" where
  "logKept m \<longleftrightarrow> (\<forall>s. snd (snd (run_state m s)) = snd s)"

definition silentLib :: "('r, 'c, 'i, 'v, 'w \<times> event list) runtimeLib \<Rightarrow> bool" where
  "silentLib R \<longleftrightarrow> (\<forall>r. logKept (NewCache R r)) \<and> (\<forall>c k. logKept (GetInformer R c k)) \<and>
     (\<forall>r c. logKept (NewClient R r c)) \<and> (\<forall>i h. logKept (AddEventHandler R i h)) \<and> (\<forall>g. logKept (Spawn R g))"

lemma logKept_preserves: "logKept m \<Longrightarrow> preserves (\<lambda>s. P (snd s)) m"
  by (auto simp: logKept_def valid_def split: prod.splits) (metis snd_conv)

lemma logKept_logged: "logKept m \<Longrightarrow> preserves (logged g F) m"
  unfolding logged_def by (rule logKept_preserves)

lemma logKept_iff: "logKept m \<longleftrightarrow> (\<forall>es. preserves (\<lambda>s. snd s = es) m)"
  by (auto simp: logKept_def valid_def case_prod_unfold)

lemma logKept_Start:
  assumes "silentLib R"
  shows "logKept (Start R cfg)"
proof -
  have kept: "preserves (\<lambda>s. snd s = es) (NewCache R r)" "preserves (\<lambda>s. snd s = es) (GetInformer R c k)"
    "preserves (\<lambda>s. snd s = es) (NewClient R r c)" "preserves (\<lambda>s. snd s = es) (AddEventHandler R i h)"
    "preserves (\<lambda>s. snd s = es) (Spawn R g)" for es r c k i h g
    using assms by (simp_all add: silentLib_def logKept_iff)
  show ?thesis
    unfolding logKept_iff Start_def register_def openInformer_def addRefresh_def Let_def
    by (auto intro!: valid_intros kept split: sum.splits)
qed

section \<open>Bootstrap\<close>

text \<open>The kubeconfig was read from its Secret, is not empty and parses.\<close>

definition kubeconfigSeen :: "(string \<Rightarrow> error + 'r) \<Rightarrow> config \<Rightarrow> event list \<Rightarrow> bool" where
  "kubeconfigSeen parse c es \<longleftrightarrow> (\<exists>s data. GotObject Infra (cfg_infraNamespace c, cfg_kubeconfigSecretName c) (OSecret s) \<in> set es \<and>
     sec_Data s (cfg_kubeconfigSecretKey c) = Some data \<and> data \<noteq> '''' \<and> (\<exists>r. parse data = Inr r))"

definition isRead :: "event \<Rightarrow> bool" where
  "isRead ev \<longleftrightarrow> (\<exists>k n x. ev = GotObject k n x) \<or> (\<exists>n x. ev = GotGateway n x)"

lemma stable_kubeconfigSeen [intro!, simp]: "stable (kubeconfigSeen parse c)"
  unfolding kubeconfigSeen_def by auto

lemma establishes_loadKubeconfig:
  "establishes (istiodGuard kinds ns allow) (\<lambda>_. True) (loadKubeconfig parse (traced Infra infra) c) (\<lambda>_. kubeconfigSeen parse c)"
  unfolding establishes_def loadKubeconfig_def Let_def traced_simps
  by (rule valid_bindE [OF ig.reads_object])
    (auto simp: logged_def kubeconfigSeen_def intro!: valid_intros split: option.splits sum.splits, blast)

lemma istiodGuard_write:
  assumes "istiodGuard kinds ns allow pre ev" and "\<not> isRead ev"
  obtains obj where "istiodObject kinds ns obj" "ev = CreateObject Infra obj \<or> ev = UpdateObject Infra obj \<and> readBefore Infra pre obj"
    "allow pre"
  using assms by (cases "(kinds, ns, allow, pre, ev)" rule: istiodGuard.cases) (auto simp: isRead_def)

lemma guarded_isRead: "guarded (istiodGuard {} ns allow) es \<Longrightarrow> ev \<in> set es \<Longrightarrow> isRead ev"
proof -
  assume "guarded (istiodGuard {} ns allow) es" and "ev \<in> set es"
  then obtain pre post where "es = pre @ ev # post" by (meson split_list)
  with \<open>guarded (istiodGuard {} ns allow) es\<close> have "istiodGuard {} ns allow pre ev" by (auto dest: guardedD)
  then show "isRead ev" by (cases "({} :: string set, ns, allow, pre, ev)" rule: istiodGuard.cases)
      (auto simp: isRead_def istiodObject_def)
qed

lemma bootstrap_guarded:
  assumes "silentLib R"
  shows "preserves (logged (istiodGuard {''Deployment'', ''Service''} (cfg_infraNamespace c)
    (kubeconfigSeen (RESTConfigFromKubeConfig R) c)) (\<lambda>_. True)) (bootstrapStart R c (traced Infra infra))"
proof -
  let ?seen = "kubeconfigSeen (RESTConfigFromKubeConfig R) c"
  let ?G = "istiodGuard {''Deployment'', ''Service''} (cfg_infraNamespace c) ?seen"
  have start: "preserves (logged ?G ?seen) (Start R cfg)" for cfg
    by (rule logKept_logged [OF logKept_Start [OF assms]])
  have spawn: "preserves (logged ?G ?seen) (Spawn R g)" for g
    using assms by (simp add: silentLib_def logKept_logged)
  have ns: "ip_Namespace (initialIstiodParams c) = cfg_infraNamespace c" by (simp add: initialIstiodParams_def)
  have "preserves (logged ?G ?seen) (Apply (traced Infra infra) (ODeployment (IstiodDeployment (initialIstiodParams c))))"
    "preserves (logged ?G ?seen) (Apply (traced Infra infra) (OService (IstiodService (initialIstiodParams c))))"
    using istiod_objects(2,3) [of "{''Deployment'', ''Service''}" "initialIstiodParams c"]
    by (auto intro!: valid_Apply_istiod simp: ns)
  then have rest: "preserves (logged ?G ?seen) (bindE (Start R cfg) f (\<lambda>mc.
     State_Monad.bind (Apply (traced Infra infra) (ODeployment (IstiodDeployment (initialIstiodParams c)))) (\<lambda>_.
     State_Monad.bind (Apply (traced Infra infra) (OService (IstiodService (initialIstiodParams c)))) (\<lambda>_.
     State_Monad.bind (Spawn R (g mc)) (\<lambda>_. ok ())))))" for cfg f g
    by (intro valid_intros start spawn)
  show ?thesis
    unfolding bootstrapStart_def
  proof (rule valid_bindE [OF establishes_loadKubeconfig [unfolded establishes_def]], simp add: logged_def,
      rule valid_pre [OF valid_post [OF rest]])
  qed (auto simp: logged_def)
qed

lemma bootstrap_error_reads:
  assumes "silentLib R"
  shows "valid (\<lambda>s. snd s = []) (bootstrapStart R c (traced Infra infra))
    (\<lambda>r s. \<forall>e. r = Inl e \<longrightarrow> (\<forall>ev \<in> set (snd s). isRead ev))"
proof -
  let ?P = "\<lambda>s. guarded (istiodGuard {} [] (\<lambda>_. False)) (snd s)"
  have load: "preserves ?P (loadKubeconfig (RESTConfigFromKubeConfig R) (traced Infra infra) c)"
    by (rule valid_pre [OF valid_post [OF establishes_loadKubeconfig [unfolded establishes_def]]]) (auto simp: logged_def)
  have start: "preserves ?P (Start R cfg)" for cfg
    using logKept_preserves [OF logKept_Start [OF assms]] .
  have "valid ?P (bindE (loadKubeconfig (RESTConfigFromKubeConfig R) (traced Infra infra) c) f (\<lambda>kubeconfig.
      bindE (Start R (cfg kubeconfig)) f' (\<lambda>mc. State_Monad.bind m1 (\<lambda>_. State_Monad.bind m2 (\<lambda>_.
        State_Monad.bind (g mc) (\<lambda>_. ok ())))))) (\<lambda>r s. \<forall>e. r = Inl e \<longrightarrow> ?P s)" for f cfg f' m1 m2 g
    by (rule valid_bindE [OF load], simp, rule valid_bindE [OF start], simp)
      (auto simp: valid_def split: prod.splits)
  then have "valid ?P (bootstrapStart R c (traced Infra infra)) (\<lambda>r s. \<forall>e. r = Inl e \<longrightarrow> ?P s)"
    unfolding bootstrapStart_def .
  then show ?thesis
    by (rule valid_pre [OF valid_post]) (auto dest: guarded_isRead)
qed

section \<open>One tick of the resync\<close>

text \<open>The certificates of the Gateways of the controller, then the CA names.\<close>

definition certUnion :: "gateway list \<Rightarrow> (gateway \<Rightarrow> bool) \<Rightarrow> string list \<Rightarrow> string list" where
  "certUnion gws ours cas =
     concat (map (\<lambda>gw. gatewayTLSCertNames gw @ gatewayBackendTLSCertNames gw) (filter ours gws)) @ cas"

text \<open>
  A Deployment was accepted by the API server in its place: there was none and the create went through, or somebody
  else created it in between; or it was there, is not another manager's, and the update at the version found went
  through.
\<close>

definition acceptedDeployment :: "'w client \<Rightarrow> deployment \<Rightarrow> 'w \<Rightarrow> 'w \<Rightarrow> bool" where
  "acceptedDeployment c dep w w' \<longleftrightarrow>
     (case run_state (Get (deployments c) (keyOf (dep_Meta dep))) w of
        (Inl e, w1) \<Rightarrow> IsNotFound e \<and>
          (case run_state (Create (deployments c) dep) w1 of (a, w2) \<Rightarrow> w2 = w' \<and> (a = Inr () \<or> (\<exists>e. a = Inl e \<and> IsAlreadyExists e)))
      | (Inr old, w1) \<Rightarrow> \<not> foreign (ODeployment old) \<and>
          run_state (Update (deployments c) (dep\<lparr>dep_Meta := (dep_Meta dep)\<lparr>m_ResourceVersion := m_ResourceVersion (dep_Meta old)\<rparr>\<rparr>)) w1 =
            (Inr (), w'))"

lemma Apply_accepted:
  assumes "run_state (Apply c (ODeployment dep)) w = (Inr (), w')"
  shows "acceptedDeployment c dep w w'"
  using assms prepareForUpdate_foreign [of _ "ODeployment dep"]
  by (auto simp: Apply_def Let_def acceptedDeployment_def prepareForUpdate_def SetResourceVersion_def
      split: prod.splits sum.splits if_splits)

lemma RefreshIstiod_run:
  assumes "d_MemberKubeconfigName d \<noteq> ''''"
    and "run_state (List (gateways (d_MemberClient d)) None) w = (Inr gws, w1)"
    and "\<And>gw. gw \<in> set gws \<Longrightarrow> run_state (isOurs (d_MemberClient d) gw) w1 = (Inr (ours gw), w1)"
    and "run_state (backendTLSPolicyCACertNames (d_MemberClient d)) w1 = (cas, w2)"
  shows "run_state (RefreshIstiod d) w = run_state (bindE (Apply (d_InfraClient d)
     (ODeployment (IstiodDeployment (istiodParamsOf d (certUnion gws ours cas))))) (Wrap ''apply istiod deployment'') ok) w2"
  using assms(1,2,4) istiodCertNames_run [of gws "d_MemberClient d" w1 ours, OF assms(3)]
  by (simp add: RefreshIstiod_def certUnion_def)

lemma IstiodDeployment_key [simp]:
  "keyOf (dep_Meta (IstiodDeployment (istiodParamsOf d certs))) = (d_InfraNamespace d, ''istiod'')"
  by (simp add: IstiodDeployment_def istiodParamsOf_def defaultIstiodParams_def Let_def keyOf_def)

section \<open>A cluster in memory\<close>

text \<open>For the witnesses: an infra cluster whose only state is the stored Deployments.\<close>

type_synonym memory = "nname \<rightharpoonup> deployment"

definition memoryDeployments :: "(deployment, memory) resource" where
  "memoryDeployments = \<lparr>
     Get = (\<lambda>k. State (\<lambda>w. (case w k of None \<Rightarrow> Inl notFoundErr | Some d \<Rightarrow> Inr d, w))),
     List = (\<lambda>_. ok []),
     Create = (\<lambda>d. State (\<lambda>w. (Inr (), w(keyOf (dep_Meta d) \<mapsto> d)))),
     Update = (\<lambda>d. State (\<lambda>w. (Inr (), w(keyOf (dep_Meta d) \<mapsto> d)))),
     Delete = (\<lambda>d. State (\<lambda>w. (Inr (), w(keyOf (dep_Meta d) := None)))), StatusUpdate = (\<lambda>d. ok ())\<rparr>"

section \<open>Properties\<close>

definition sampleConfig :: config where
  "sampleConfig = \<lparr>cfg_metricsAddr = '':8080'', cfg_probeAddr = '':8081'', cfg_enableLeaderElect = True,
     cfg_tenantName = ''alice'', cfg_infraNamespace = ''tenant-alice'', cfg_kubeconfigSecretName = ''member'',
     cfg_kubeconfigSecretKey = ''kubeconfig'', cfg_istiodImage = '''', cfg_istiodReplicas = 1,
     cfg_istiodResyncPeriod = 60 * nanos, cfg_platform = ''''\<rparr>"

definition memoryDeps :: "memory deps" where
  "memoryDeps = bootstrapDeps sampleConfig (emptyClient\<lparr>deployments := memoryDeployments\<rparr>)
     (emptyClient\<lparr>gateways := constResource (Inr tlsGateway), gatewayClasses := constResource (Inr ourClass)\<rparr>)"

lemma memory_accepted:
  assumes "acceptedDeployment (c\<lparr>deployments := memoryDeployments\<rparr>) dep w w'"
  shows "\<exists>dep'. w' (keyOf (dep_Meta dep)) = Some dep' \<and> dep_Replicas dep' = dep_Replicas dep"
  using assms
  by (cases "w (keyOf (dep_Meta dep))") (auto simp: acceptedDeployment_def memoryDeployments_def keyOf_def)

lemma memoryDeps_simps:
  "d_InfraNamespace memoryDeps = ''tenant-alice''" "d_MemberKubeconfigName memoryDeps \<noteq> ''''"
  "d_InfraClient memoryDeps = emptyClient\<lparr>deployments := memoryDeployments\<rparr>" "d_IstiodReplicas memoryDeps = 1"
  by (simp_all add: memoryDeps_def bootstrapDeps_def sampleConfig_def)

text \<open>
  C19: every tick of the resync loop applies Istiod again. After any number of ticks, with any answers and errors,
  the loop refreshes once more. When that refresh reports no error, its last call is a write of the Deployment
  rendered from the configuration and the certificates of all Gateways of the controller as listed in this tick, under the name \<open>istiod\<close> in the tenant namespace: a create
  when there was none, which went through or was told that the object exists by now; otherwise an update at the
  version found, which went through. But for the version, nothing of the object found is in what is sent, so edits
  by hand are overwritten; an object whose label names another manager is never written, and no nil is returned for it.
\<close>

theorem istiodResyncLoop_reapplies:
  assumes "d_MemberKubeconfigName d \<noteq> ''''"
    and "run_state (istiodResyncLoop d n) w = ((), w0)"
    and "run_state (List (gateways (d_MemberClient d)) None) w0 = (Inr gws, w1)"
    and "\<And>gw. gw \<in> set gws \<Longrightarrow> run_state (isOurs (d_MemberClient d) gw) w1 = (Inr (ours gw), w1)"
    and "run_state (backendTLSPolicyCACertNames (d_MemberClient d)) w1 = (cas, w2)"
    and "run_state (RefreshIstiod d) w0 = (Inr (), w')"
  shows "let dep = IstiodDeployment (istiodParamsOf d (certUnion gws ours cas)) in
     run_state (istiodResyncLoop d (Suc n)) w = ((), w') \<and>
     acceptedDeployment (d_InfraClient d) dep w2 w' \<and> keyOf (dep_Meta dep) = (d_InfraNamespace d, ''istiod'')"
proof -
  have "run_state (istiodResyncLoop d (n + 1)) w = ((), w')"
    unfolding istiodResyncLoop_add using assms(2,6) by simp
  moreover have "run_state (Apply (d_InfraClient d)
      (ODeployment (IstiodDeployment (istiodParamsOf d (certUnion gws ours cas))))) w2 = (Inr (), w')"
    using assms(6) RefreshIstiod_run [OF assms(1,3,4,5)] by (auto split: prod.splits sum.splits)
  ultimately show ?thesis using Apply_accepted by (simp add: Let_def del: istiodResyncLoop.simps)
qed

text \<open>Witness for C19: an Istiod scaled to seven replicas by hand.\<close>

theorem istiodResyncLoop_reapplies_witness:
  "\<exists>w' dep. run_state (istiodResyncLoop memoryDeps (Suc 0))
       [(''tenant-alice'', ''istiod'') \<mapsto> (IstiodDeployment (initialIstiodParams sampleConfig))\<lparr>dep_Replicas := 7\<rparr>] = ((), w') \<and>
     w' (''tenant-alice'', ''istiod'') = Some dep \<and> dep_Replicas dep = 1"
proof -
  let ?old = "(IstiodDeployment (initialIstiodParams sampleConfig))\<lparr>dep_Replicas := 7\<rparr>"
  let ?w = "[(''tenant-alice'', ''istiod'') \<mapsto> ?old] :: memory"
  let ?dep = "IstiodDeployment (istiodParamsOf memoryDeps (certUnion [tlsGateway] (\<lambda>_. True) []))"
  have "\<not> foreign (ODeployment ?old)"
    by (simp add: foreign_def IstiodDeployment_def initialIstiodParams_def defaultIstiodParams_def Let_def sampleConfig_def
        istiodLabels_def mapGet_def)
  then have apply_ok: "\<exists>w'. run_state (Apply (d_InfraClient memoryDeps) (ODeployment ?dep)) ?w = (Inr (), w')"
    by (simp add: Apply_def Let_def prepareForUpdate_def SetResourceVersion_def memoryDeps_simps memoryDeployments_def)
  have list: "run_state (List (gateways (d_MemberClient memoryDeps)) None) ?w = (Inr [tlsGateway], ?w)"
    and ours: "run_state (isOurs (d_MemberClient memoryDeps) gw) ?w = (Inr True, ?w)"
    and cas: "run_state (backendTLSPolicyCACertNames (d_MemberClient memoryDeps)) ?w = ([], ?w)" for gw
    by (simp_all add: memoryDeps_def bootstrapDeps_def isOurs_def backendTLSPolicyCACertNames_def constResource_def
        emptyClient_def ourClass_def)
  have loop: "run_state (istiodResyncLoop memoryDeps 0) ?w = ((), ?w)" by simp
  obtain w' where refresh: "run_state (RefreshIstiod memoryDeps) ?w = (Inr (), w')"
    using apply_ok RefreshIstiod_run [OF memoryDeps_simps(2) list, of "\<lambda>_. True", OF ours cas] by auto
  from istiodResyncLoop_reapplies [OF memoryDeps_simps(2) loop list, of "\<lambda>_. True", OF ours cas refresh]
  have "run_state (istiodResyncLoop memoryDeps (Suc 0)) ?w = ((), w')" and "acceptedDeployment (d_InfraClient memoryDeps) ?dep ?w w'"
    by (simp_all add: Let_def)
  moreover from memory_accepted [OF this(2) [unfolded memoryDeps_simps(3)]]
  obtain dep where "w' (''tenant-alice'', ''istiod'') = Some dep" and "dep_Replicas dep = dep_Replicas ?dep"
    by (auto simp: memoryDeps_simps)
  moreover have "dep_Replicas ?dep = 1"
    by (simp add: IstiodDeployment_def istiodParamsOf_def memoryDeps_simps defaultIstiodParams_def Let_def)
  ultimately show ?thesis by auto
qed

definition kubeconfigSecret :: secret where
  "kubeconfigSecret = \<lparr>sec_Meta = emptyMeta, sec_Type = ''Opaque'', sec_Data = [''kubeconfig'' \<mapsto> ''config''], sec_StringData = Map.empty\<rparr>"

lemma silent_sampleRuntime: "silentLib sampleRuntime"
  by (simp add: silentLib_def sampleRuntime_def logKept_def)

text \<open>A setting that is a flag with a variable of the environment as default.\<close>

definition setting :: "(string \<Rightarrow> string) \<Rightarrow> commandLine \<Rightarrow> string \<Rightarrow> string \<Rightarrow> string" where
  "setting Getenv args flag var = flagOr (stringFlag args) flag (Getenv var)"

text \<open>
  C20: the bootstrap writes only once it holds a kubeconfig, and then only the tenant's Istiod. Whatever the
  infra API server answers, and for any runtime that does not itself write: a bootstrap that returns an
  error has made no write at all; every write it makes is the Istiod Deployment or Service in its own infra
  namespace, with the managed-by label, an update only of an object read before and not owned by another
  manager; and before it, the kubeconfig Secret was read with a non-empty key that parses.
\<close>

theorem bootstrapStart_writes:
  assumes "silentLib R"
    and "run_state (bootstrapStart R cfg (traced Infra infra)) (w, []) = (r, w', pre @ ev # post)"
    and "\<not> isRead ev"
  shows "r = Inr () \<and> kubeconfigSeen (RESTConfigFromKubeConfig R) cfg pre \<and>
     (\<exists>obj. istiodObject {''Deployment'', ''Service''} (cfg_infraNamespace cfg) obj \<and>
        (ev = CreateObject Infra obj \<or> ev = UpdateObject Infra obj \<and> readBefore Infra pre obj))"
proof -
  let ?G = "istiodGuard {''Deployment'', ''Service''} (cfg_infraNamespace cfg) (kubeconfigSeen (RESTConfigFromKubeConfig R) cfg)"
  have "guarded ?G (pre @ ev # post)"
    using validD [OF bootstrap_guarded [OF assms(1)] _ assms(2)] by (simp add: logged_def)
  then have "?G pre ev" by (rule guardedD)
  then obtain obj where "istiodObject {''Deployment'', ''Service''} (cfg_infraNamespace cfg) obj"
    "ev = CreateObject Infra obj \<or> ev = UpdateObject Infra obj \<and> readBefore Infra pre obj"
    "kubeconfigSeen (RESTConfigFromKubeConfig R) cfg pre"
    using assms(3) by (rule istiodGuard_write)
  moreover have "r = Inr ()"
    using validD [OF bootstrap_error_reads [OF assms(1)] _ assms(2)] assms(3) by (cases r) auto
  ultimately show ?thesis by blast
qed

text \<open>Witness for C20: an empty infra namespace apart from the kubeconfig Secret.\<close>

theorem bootstrapStart_writes_witness:
  "kubeconfigSeen (\<lambda>_. Inr () :: error + unit) sampleConfig
     [GotObject Infra (''tenant-alice'', ''member'') (OSecret kubeconfigSecret)] \<and>
   istiodObject {''Deployment'', ''Service''} ''tenant-alice'' (ODeployment (IstiodDeployment (initialIstiodParams sampleConfig)))"
proof -
  let ?infra = "emptyClient\<lparr>secrets := constResource (Inr kubeconfigSecret)\<rparr> :: unit client"
  let ?R = "sampleRuntime :: (unit, unit, unit, unit \<times> event list, unit \<times> event list) runtimeLib"
  have "run_state (bootstrapStart ?R sampleConfig (traced Infra ?infra)) ((), []) = (Inr (), (),
      [GotObject Infra (''tenant-alice'', ''member'') (OSecret kubeconfigSecret)] @
      CreateObject Infra (ODeployment (IstiodDeployment (initialIstiodParams sampleConfig))) #
      [CreateObject Infra (OService (IstiodService (initialIstiodParams sampleConfig)))])"
    by (simp add: bootstrapStart_def loadKubeconfig_def Let_def sampleConfig_def kubeconfigSecret_def sampleRuntime_def
        Start_def openInformer_def register_def addRefresh_def informerKinds_def refreshKinds_def Apply_def
        tracedObjects_def sample_defs IsNotFound_def)
  from bootstrapStart_writes [OF silent_sampleRuntime this]
  show ?thesis by (simp add: isRead_def sampleConfig_def sampleRuntime_def)
qed

text \<open>
  C34: the resync loop never touches the Istiod Service. Whatever the API servers answer and however often
  the ticker fires, every write of the loop is the Istiod Deployment in the infra namespace; the Service
  is applied by the bootstrap alone, whose failure to do so is only logged, so a Service that is missing
  then, or deleted later, is not created before the controller restarts.
\<close>

theorem istiodResyncLoop_writes:
  assumes "run_state (istiodResyncLoop (tracedDeps d) n) (w, []) = (r, w', pre @ ev # post)" and "\<not> isRead ev"
  shows "\<exists>obj. istiodObject {''Deployment''} (d_InfraNamespace d) obj \<and>
     (ev = CreateObject Infra obj \<or> ev = UpdateObject Infra obj \<and> readBefore Infra pre obj)"
proof -
  let ?G = "istiodGuard {''Deployment''} (d_InfraNamespace d) (\<lambda>_. True)"
  have "preserves (logged ?G (\<lambda>_. True)) (istiodResyncLoop (tracedDeps d) n)"
    by (rule valid_istiodResyncLoop) auto
  from validD [OF this _ assms(1)] have "guarded ?G (pre @ ev # post)" by (simp add: logged_def)
  then have "?G pre ev" by (rule guardedD)
  then show ?thesis
    using assms(2) by (rule istiodGuard_write) auto
qed

text \<open>Witness for C34: the first tick creates the Deployment.\<close>

theorem istiodResyncLoop_writes_witness:
  "istiodObject {''Deployment''} ''tenant-alice'' (ODeployment (IstiodDeployment (initialIstiodParams sampleConfig)))"
proof -
  let ?d = "bootstrapDeps sampleConfig emptyClient (emptyClient\<lparr>gateways := (constResource (Inl notFoundErr))\<lparr>List := \<lambda>_. ok []\<rparr>\<rparr>) :: unit deps"
  have "istiodParamsOf (tracedDeps ?d) [] = initialIstiodParams sampleConfig"
    by (simp add: istiodParamsOf_def bootstrapDeps_def initialIstiodParams_def)
  then have "run_state (istiodResyncLoop (tracedDeps ?d) 1) ((), []) = ((), (),
      [] @ CreateObject Infra (ODeployment (IstiodDeployment (initialIstiodParams sampleConfig))) # [])"
    by (simp add: RefreshIstiod_def backendTLSPolicyCACertNames_def Apply_def Let_def tracedObjects_def tracedStatus_def
        bootstrapDeps_def sampleConfig_def emptyClient_def constResource_def notFoundErr_def IsNotFound_def)
  from istiodResyncLoop_writes [OF this]
  show ?thesis by (simp add: isRead_def bootstrapDeps_def sampleConfig_def)
qed



text \<open>
  C36: which configurations start. The exit code is 0 or 1. When the tenant, the infra namespace or the
  kubeconfig Secret is given neither as a flag nor in the environment, it is 1 and no call is made. When it
  is 0, a manager was built whose cache and leader lease are confined to the infra namespace that was given,
  which is not empty (an empty name would mean all namespaces).
\<close>

theorem controllerMain_config:
  assumes "run_state (controllerMain M R Getenv args) w = (code, w')"
  shows "code \<in> {0, 1} \<and>
     (setting Getenv args ''tenant-name'' ''TENANT_NAME'' = '''' \<or>
      setting Getenv args ''infra-namespace'' ''INFRA_NAMESPACE'' = '''' \<or>
      setting Getenv args ''member-kubeconfig-secret'' ''MEMBER_KUBECONFIG_SECRET'' = '''' \<longrightarrow> code = 1 \<and> w' = w) \<and>
     (code = 0 \<longrightarrow> (\<exists>kc w1 mgr w2 opts. run_state (GetConfig M) w = (Inr kc, w1) \<and>
        run_state (NewManager M kc opts) w1 = (Inr mgr, w2) \<and>
        mo_LeaderElectionNamespace opts = setting Getenv args ''infra-namespace'' ''INFRA_NAMESPACE'' \<and>
        mo_DefaultNamespaces opts = [mo_LeaderElectionNamespace opts] \<and> mo_LeaderElectionNamespace opts \<noteq> ''''))"
proof -
  let ?cfg = "parseFlags Getenv args"
  have required: "cfg_tenantName ?cfg = setting Getenv args ''tenant-name'' ''TENANT_NAME''"
    "cfg_infraNamespace ?cfg = setting Getenv args ''infra-namespace'' ''INFRA_NAMESPACE''"
    "cfg_kubeconfigSecretName ?cfg = setting Getenv args ''member-kubeconfig-secret'' ''MEMBER_KUBECONFIG_SECRET''"
    by (simp_all add: parseFlags_def setting_def)
  show ?thesis
  proof (cases "validate ?cfg")
    case (Some e)
    then show ?thesis using assms by (simp add: controllerMain_def)
  next
    case None
    then have nonempty: "cfg_tenantName ?cfg \<noteq> ''''" "cfg_infraNamespace ?cfg \<noteq> ''''" "cfg_kubeconfigSecretName ?cfg \<noteq> ''''"
      by (auto simp: validate_def split: if_splits)
    have "code \<in> {0, 1}" and "code = 0 \<Longrightarrow> \<exists>kc w1 mgr w2. run_state (GetConfig M) w = (Inr kc, w1) \<and>
        run_state (NewManager M kc (managerOptionsOf ?cfg)) w1 = (Inr mgr, w2)"
      using assms None by (auto simp: controllerMain_def Let_def split: prod.splits sum.splits)
    moreover have "mo_LeaderElectionNamespace (managerOptionsOf ?cfg) = cfg_infraNamespace ?cfg"
      "mo_DefaultNamespaces (managerOptionsOf ?cfg) = [cfg_infraNamespace ?cfg]"
      by (simp_all add: managerOptionsOf_def)
    ultimately show ?thesis using nonempty unfolding required by metis
  qed
qed

text \<open>Witness for C36: no flags and an empty environment.\<close>

theorem controllerMain_config_witness:
  "run_state (controllerMain \<lparr>GetConfig = ok (), NewManager = (\<lambda>_ _. ok ()), GetClient = (\<lambda>_. emptyClient),
      AddRunnable = (\<lambda>_ _ _. ok ()), AddHealthzCheck = (\<lambda>_ _. ok ()), AddReadyzCheck = (\<lambda>_ _. ok ()), StartManager = (\<lambda>_. ok ())\<rparr>
      sampleRuntime (\<lambda>_. '''') \<lparr>stringFlag = Map.empty, boolFlag = Map.empty, intFlag = Map.empty, durationFlag = Map.empty\<rparr>) () = (1, ())"
  (is "run_state ?m () = _")
proof -
  obtain code and u :: unit where run: "run_state ?m () = (code, u)" by (cases "run_state ?m ()") blast
  from controllerMain_config [OF this] show ?thesis unfolding run by (simp add: setting_def flagOr_def)
qed

end
