(* ===== verification/Xds_Echo.thy ===== *)
theory Xds_Echo
  imports Gateway_Prelude Go_Strings "HOL-Library.Stream"
begin

text \<open>
  The bring-up server, \<open>controller/cmd/xds-echo/main.go\<close>: two gRPC stream handlers that log what they
  receive, and \<open>main\<close>. gRPC and the protobuf marshaller are parameters: a stream is the infinite sequence of
  what \<open>Recv\<close> returns (a client that never closes sends for ever), \<open>marshal\<close> the bytes of a request (empty when
  marshalling fails, since the code drops that error), \<open>sendErr i\<close> the outcome of the \<open>i\<close>-th \<open>Send\<close>.

  The handlers are loops that end only when the stream does, so they are partial functions: \<open>None\<close> is a
  handler that never returns. \<open>seen\<close> is a Go \<open>int\<close>; it is a natural number here, which differs from it
  after \<open>2\<^sup>6\<^sup>3\<close> requests on one stream.
\<close>

section \<open>Streams\<close>

datatype 'r received = Received (request: 'r) | EOF | RecvError error

record discoveryResponse =
  dr_TypeUrl :: string
  dr_VersionInfo :: string
  dr_Nonce :: string

text \<open>What a handler does: lines it logs, responses it sends.\<close>

datatype echoEvent = Printf string | Send discoveryResponse

type_synonym outcome = "error option \<times> echoEvent list"

section \<open>Handlers\<close>

definition logRequest :: "('r \<Rightarrow> string) \<Rightarrow> nat \<Rightarrow> 'r \<Rightarrow> echoEvent list" where
  "logRequest marshal seen req =
     (if seen \<le> 6 then [Printf (''DeltaDiscoveryRequest #'' @ itoa (int seen) @ '': '' @ marshal req)] else [])"

partial_function (option) deltaLoop ::
  "('r \<Rightarrow> string) \<Rightarrow> nat \<Rightarrow> 'r received stream \<Rightarrow> echoEvent list \<Rightarrow> outcome option" where
  "deltaLoop marshal seen s out =
     (case shd s of
        EOF \<Rightarrow> Some (None, out @ [Printf ''delta stream closed (EOF)''])
      | RecvError e \<Rightarrow> Some (Some e, out @ [Printf (''delta stream error: '' @ Error e)])
      | Received req \<Rightarrow> deltaLoop marshal (seen + 1) (stl s) (out @ logRequest marshal (seen + 1) req))"

definition DeltaAggregatedResources :: "('r \<Rightarrow> string) \<Rightarrow> 'r received stream \<Rightarrow> outcome option" where
  "DeltaAggregatedResources marshal s = deltaLoop marshal 0 s [Printf ''delta stream opened'']"

definition echoResponse :: "string \<Rightarrow> discoveryResponse" where
  "echoResponse url = \<lparr>dr_TypeUrl = url, dr_VersionInfo = ''v0'', dr_Nonce = ''n0''\<rparr>"

partial_function (option) sotwLoop ::
  "('r \<Rightarrow> string) \<Rightarrow> ('r \<Rightarrow> string) \<Rightarrow> (nat \<Rightarrow> error option) \<Rightarrow> nat \<Rightarrow> 'r received stream \<Rightarrow> echoEvent list \<Rightarrow> outcome option" where
  "sotwLoop marshal typeUrl sendErr i s out =
     (case shd s of
        EOF \<Rightarrow> Some (None, out)
      | RecvError e \<Rightarrow> Some (Some e, out)
      | Received req \<Rightarrow>
          (let out = out @ [Printf (''SotW DiscoveryRequest: '' @ marshal req), Send (echoResponse (typeUrl req))] in
           case sendErr i of
             Some e \<Rightarrow> Some (Some e, out)
           | None \<Rightarrow> sotwLoop marshal typeUrl sendErr (i + 1) (stl s) out))"

definition StreamAggregatedResources ::
  "('r \<Rightarrow> string) \<Rightarrow> ('r \<Rightarrow> string) \<Rightarrow> (nat \<Rightarrow> error option) \<Rightarrow> 'r received stream \<Rightarrow> outcome option" where
  "StreamAggregatedResources marshal typeUrl sendErr s = sotwLoop marshal typeUrl sendErr 0 s []"

section \<open>The command\<close>

definition listenAddr :: "(string \<Rightarrow> string) \<Rightarrow> string" where
  "listenAddr Getenv = (let addr = Getenv ''LISTEN'' in if addr = '''' then '':15010'' else addr)"

text \<open>\<open>main\<close>, with the network and the server as parameters: what it logs, and the exit code (\<open>log.Fatalf\<close> exits with 1).\<close>

definition echoMain ::
  "(string \<Rightarrow> ('w, 'l) fio) \<Rightarrow> ('l \<Rightarrow> ('w, unit) fio) \<Rightarrow> (string \<Rightarrow> string) \<Rightarrow> ('w, string list \<times> int) io" where
  "echoMain Listen Serve Getenv =
     (let addr = listenAddr Getenv in
      tryE (Listen addr)
        (\<lambda>e. pureIO ([''listen '' @ addr @ '': '' @ Error e], 1))
        (\<lambda>lis. let started = ''xds-echo listening on '' @ addr in
           tryE (Serve lis)
             (\<lambda>e. pureIO ([started, ''serve: '' @ Error e], 1))
             (\<lambda>_. pureIO ([started], 0))))"

section \<open>Facts\<close>

definition ended :: "'r received \<Rightarrow> bool" where
  "ended r \<longleftrightarrow> (case r of Received _ \<Rightarrow> False | _ \<Rightarrow> True)"

lemma ended_simps [simp]: "\<not> ended (Received r)" "ended EOF" "ended (RecvError e)"
  by (simp_all add: ended_def)

lemma ended_shd: "ended (shd s) \<or> (\<exists>req. shd s = Received req)"
  by (cases "shd s") simp_all

lemma ended_stl: "ended (stl s !! n) \<Longrightarrow> \<exists>n. ended (s !! n)"
  by (metis snth.simps(2))

lemma ended_0: "ended (shd s) \<Longrightarrow> \<exists>n. ended (s !! n)"
  by (metis snth.simps(1))

lemma deltaLoop_returns:
  assumes "deltaLoop marshal seen s out = Some y"
  shows "\<exists>n. ended (s !! n)"
  using _ assms
proof (rule deltaLoop.raw_induct [where P = "\<lambda>marshal seen s out y. \<exists>n. ended (s !! n)"])
  fix loop marshal seen and s :: "'a received stream" and out y
  assume IH: "\<And>marshal seen s out y. loop marshal seen s out = Some y \<Longrightarrow> \<exists>n. ended (s !! n)"
    and body: "(case shd s of
        EOF \<Rightarrow> Some (None, out @ [Printf ''delta stream closed (EOF)''])
      | RecvError e \<Rightarrow> Some (Some e, out @ [Printf (''delta stream error: '' @ Error e)])
      | Received req \<Rightarrow> loop marshal (seen + 1) (stl s) (out @ logRequest marshal (seen + 1) req)) = Some y"
  show "\<exists>n. ended (s !! n)"
  proof (cases "ended (shd s)")
    case False
    with ended_shd obtain req where "shd s = Received req" by blast
    with body IH have "\<exists>n. ended (stl s !! n)" by simp
    then show ?thesis using ended_stl by blast
  qed (rule ended_0)
qed

lemma sotwLoop_returns:
  assumes "sotwLoop marshal typeUrl sendErr i s out = Some y"
  shows "(\<exists>n. ended (s !! n)) \<or> (\<exists>n \<ge> i. sendErr n \<noteq> None)"
  using _ assms
proof (rule sotwLoop.raw_induct [where P = "\<lambda>marshal typeUrl sendErr i s out y.
    (\<exists>n. ended (s !! n)) \<or> (\<exists>n \<ge> i. sendErr n \<noteq> None)"])
  fix loop marshal typeUrl and sendErr :: "nat \<Rightarrow> error option" and i and s :: "'a received stream" and out y
  assume IH: "\<And>marshal typeUrl sendErr i s out y. loop marshal typeUrl sendErr i s out = Some y \<Longrightarrow>
      (\<exists>n. ended (s !! n)) \<or> (\<exists>n \<ge> i. sendErr n \<noteq> None)"
    and body: "(case shd s of
        EOF \<Rightarrow> Some (None, out)
      | RecvError e \<Rightarrow> Some (Some e, out)
      | Received req \<Rightarrow>
          (let out = out @ [Printf (''SotW DiscoveryRequest: '' @ marshal req), Send (echoResponse (typeUrl req))] in
           case sendErr i of
             Some e \<Rightarrow> Some (Some e, out)
           | None \<Rightarrow> loop marshal typeUrl sendErr (i + 1) (stl s) out)) = Some y"
  show "(\<exists>n. ended (s !! n)) \<or> (\<exists>n \<ge> i. sendErr n \<noteq> None)"
  proof (cases "ended (shd s) \<or> sendErr i \<noteq> None")
    case True
    then show ?thesis using ended_0 by blast
  next
    case False
    with ended_shd obtain req where "shd s = Received req" by blast
    with body False have "loop marshal typeUrl sendErr (i + 1) (stl s)
        (out @ [Printf (''SotW DiscoveryRequest: '' @ marshal req), Send (echoResponse (typeUrl req))]) = Some y" by simp
    from IH [OF this] show ?thesis using ended_stl by (metis add_leD1)
  qed
qed

text \<open>The lines logged for the first \<open>n\<close> requests of a stream when \<open>seen\<close> were received before: the first six in all.\<close>

definition requestLines :: "('r \<Rightarrow> string) \<Rightarrow> nat \<Rightarrow> nat \<Rightarrow> 'r received stream \<Rightarrow> echoEvent list" where
  "requestLines marshal seen n s =
     map (\<lambda>i. Printf (''DeltaDiscoveryRequest #'' @ itoa (int (seen + i + 1)) @ '': '' @ marshal (request (s !! i)))) [0..<min n (6 - seen)]"

lemma requestLines_Suc:
  "shd s = Received req \<Longrightarrow>
   requestLines marshal seen (Suc n) s = logRequest marshal (seen + 1) req @ requestLines marshal (seen + 1) n (stl s)"
proof (cases "seen < 6")
  case True
  assume "shd s = Received req"
  moreover from True have "min (Suc n) (6 - seen) = Suc (min n (6 - (seen + 1)))" by auto
  ultimately show ?thesis
    using True by (simp add: requestLines_def logRequest_def map_upt_Suc del: upt_Suc)
qed (simp add: requestLines_def logRequest_def)

lemma deltaLoop_ends:
  assumes "\<And>i. i < n \<Longrightarrow> \<not> ended (s !! i)" and "ended (s !! n)"
  shows "deltaLoop marshal seen s out = Some (case s !! n of
      RecvError e \<Rightarrow> (Some e, out @ requestLines marshal seen n s @ [Printf (''delta stream error: '' @ Error e)])
    | _ \<Rightarrow> (None, out @ requestLines marshal seen n s @ [Printf ''delta stream closed (EOF)'']))"
  using assms
proof (induction n arbitrary: s seen out)
  case 0
  then show ?case by (subst deltaLoop.simps) (auto simp: requestLines_def ended_def split: received.splits)
next
  case (Suc n)
  from Suc.prems(1) [of 0] obtain req where req: "shd s = Received req" using ended_shd [of s] by auto
  have tail: "\<not> ended (stl s !! i)" if "i < n" for i using Suc.prems(1) [of "Suc i"] that by simp
  show ?case
    using Suc.IH [OF tail, of "seen + 1"] Suc.prems(2)
    by (subst deltaLoop.simps) (simp add: req requestLines_Suc split: received.splits)
qed

text \<open>What the state-of-the-world handler does for the first \<open>n\<close> requests: one line and one response each.\<close>

definition exchange :: "('r \<Rightarrow> string) \<Rightarrow> ('r \<Rightarrow> string) \<Rightarrow> 'r \<Rightarrow> echoEvent list" where
  "exchange marshal typeUrl req = [Printf (''SotW DiscoveryRequest: '' @ marshal req), Send (echoResponse (typeUrl req))]"

definition exchanges :: "('r \<Rightarrow> string) \<Rightarrow> ('r \<Rightarrow> string) \<Rightarrow> 'r received list \<Rightarrow> echoEvent list" where
  "exchanges marshal typeUrl rs = concat (map (exchange marshal typeUrl \<circ> request) rs)"

definition stops :: "(nat \<Rightarrow> error option) \<Rightarrow> 'r received stream \<Rightarrow> nat \<Rightarrow> bool" where
  "stops sendErr s n \<longleftrightarrow> ended (s !! n) \<or> sendErr n \<noteq> None"

lemma sotwLoop_ends:
  assumes "\<And>j. j < n \<Longrightarrow> \<not> ended (s !! j) \<and> sendErr (i + j) = None" and "ended (s !! n) \<or> sendErr (i + n) \<noteq> None"
  shows "sotwLoop marshal typeUrl sendErr i s out = Some (case s !! n of
      EOF \<Rightarrow> (None, out @ exchanges marshal typeUrl (stake n s))
    | RecvError e \<Rightarrow> (Some e, out @ exchanges marshal typeUrl (stake n s))
    | Received _ \<Rightarrow> (sendErr (i + n), out @ exchanges marshal typeUrl (stake (Suc n) s)))"
  using assms
proof (induction n arbitrary: s i out)
  case 0
  then show ?case
    by (subst sotwLoop.simps) (auto simp: exchanges_def exchange_def ended_def Let_def split: received.splits option.splits)
next
  case (Suc n)
  from Suc.prems(1) [of 0] obtain req where req: "shd s = Received req" "sendErr i = None"
    using ended_shd [of s] by auto
  have tail: "\<not> ended (stl s !! j) \<and> sendErr (i + 1 + j) = None" if "j < n" for j
    using Suc.prems(1) [of "Suc j"] that by simp
  have step: "sotwLoop marshal typeUrl sendErr i s out =
      sotwLoop marshal typeUrl sendErr (i + 1) (stl s) (out @ exchange marshal typeUrl req)"
    by (subst sotwLoop.simps) (simp add: req exchange_def)
  have lines: "exchanges marshal typeUrl (stake (Suc m) s) = exchange marshal typeUrl req @ exchanges marshal typeUrl (stake m (stl s))" for m
    by (simp add: exchanges_def req)
  show ?case
    unfolding step using Suc.IH [OF tail, where out = "out @ exchange marshal typeUrl req"] Suc.prems(2)
    by (simp add: lines del: stake.simps split: received.splits)
qed

section \<open>Properties\<close>

text \<open>
  C37: the delta handler, in full. It returns exactly when the stream ends at some point, with nil on EOF and
  with the error otherwise; on a stream that never ends it never returns. It logs the opening, the first
  six requests with their number, and the end, and it sends nothing, however many requests arrive.
\<close>

theorem DeltaAggregatedResources_spec:
  "DeltaAggregatedResources marshal s =
     (if \<exists>n. ended (s !! n) then
        (let n = (LEAST n. ended (s !! n)); lines = [Printf ''delta stream opened''] @ requestLines marshal 0 n s in
         Some (case s !! n of
             RecvError e \<Rightarrow> (Some e, lines @ [Printf (''delta stream error: '' @ Error e)])
           | _ \<Rightarrow> (None, lines @ [Printf ''delta stream closed (EOF)''])))
      else None)"
proof (cases "\<exists>n. ended (s !! n)")
  case True
  let ?n = "LEAST n. ended (s !! n)"
  have "ended (s !! ?n)" using True by (auto intro: LeastI)
  moreover have "\<not> ended (s !! i)" if "i < ?n" for i using that by (rule not_less_Least)
  ultimately have "deltaLoop marshal 0 s out = Some (case s !! ?n of
      RecvError e \<Rightarrow> (Some e, out @ requestLines marshal 0 ?n s @ [Printf (''delta stream error: '' @ Error e)])
    | _ \<Rightarrow> (None, out @ requestLines marshal 0 ?n s @ [Printf ''delta stream closed (EOF)'']))" for out
    by (intro deltaLoop_ends)
  then show ?thesis
    using True by (simp add: DeltaAggregatedResources_def Let_def split: received.splits)
next
  case False
  have "deltaLoop marshal 0 s out = None" for out
  proof (rule ccontr)
    assume "deltaLoop marshal 0 s out \<noteq> None"
    then show False using deltaLoop_returns [of marshal 0 s out] False by blast
  qed
  then show ?thesis using False by (simp add: DeltaAggregatedResources_def)
qed

text \<open>
  The state-of-the-world handler, in full. It returns exactly when the stream ends or a send fails at
  some point, and with that error; until then it answers every request with one response that carries the
  type URL of the request, after logging it.
\<close>

theorem StreamAggregatedResources_spec:
  "StreamAggregatedResources marshal typeUrl sendErr s =
     (if \<exists>n. stops sendErr s n then
        (let n = (LEAST n. stops sendErr s n) in
         Some (case s !! n of
             EOF \<Rightarrow> (None, exchanges marshal typeUrl (stake n s))
           | RecvError e \<Rightarrow> (Some e, exchanges marshal typeUrl (stake n s))
           | Received _ \<Rightarrow> (sendErr n, exchanges marshal typeUrl (stake (n + 1) s))))
      else None)"
proof (cases "\<exists>n. stops sendErr s n")
  case True
  define n where "n = (LEAST n. stops sendErr s n)"
  have "stops sendErr s n" using True unfolding n_def by (auto intro: LeastI)
  moreover have "\<not> stops sendErr s i" if "i < n" for i using that unfolding n_def by (rule not_less_Least)
  ultimately have "sotwLoop marshal typeUrl sendErr 0 s [] = Some (case s !! n of
      EOF \<Rightarrow> (None, [] @ exchanges marshal typeUrl (stake n s))
    | RecvError e \<Rightarrow> (Some e, [] @ exchanges marshal typeUrl (stake n s))
    | Received _ \<Rightarrow> (sendErr (0 + n), [] @ exchanges marshal typeUrl (stake (Suc n) s)))"
    by (intro sotwLoop_ends) (simp_all add: stops_def)
  then show ?thesis
    using True unfolding n_def [symmetric]
    by (simp add: StreamAggregatedResources_def Let_def del: stake.simps split: received.splits)
next
  case False
  have "sotwLoop marshal typeUrl sendErr 0 s [] = None"
  proof (rule ccontr)
    assume "sotwLoop marshal typeUrl sendErr 0 s [] \<noteq> None"
    then show False using sotwLoop_returns [of marshal typeUrl sendErr 0 s "[]"] False by (auto simp: stops_def)
  qed
  then show ?thesis using False by (simp add: StreamAggregatedResources_def)
qed

end
