(* ===== verification/Spec2Isabelle.thy ===== *)
theory Spec2Isabelle
  imports Route_Properties Event_Properties Reconciler_Progress Controller_Properties Xds_Echo
begin

text \<open>
  A verification of the managed gateway controller (\<open>src/controller\<close>, Go).

  \<^bold>\<open>The program.\<close> The controller runs in an infrastructure cluster, in one namespace per tenant, and
  watches the Gateway API objects of a member cluster. For every Gateway of its class it checks the TLS
  references, reports \<open>Accepted\<close>, creates a service account and a bound token in the member cluster, applies
  the agentgateway ServiceAccount, token Secret, Deployment and Service in the infra cluster, re-renders
  Istiod with the certificates of all Gateways, waits until the data plane is up and has addresses, and
  reports \<open>Programmed\<close> and the verdicts of the attached routes. Its parts are called in this order:

  \<^item> \<open>cmd/controller/main.go\<close> (\<open>Controller_Main\<close>, \<open>Controller_Properties\<close>): \<open>parseFlags\<close>, \<open>validate\<close>,
    \<open>loadKubeconfig\<close>, \<open>bootstrapStart\<close> (the method \<open>Start\<close> of the bootstrap), \<open>istiodResyncLoop\<close>,
    \<open>controllerMain\<close>. It starts the member cluster cache, applies Istiod and resyncs it on a ticker.
  \<^item> \<open>internal/membercluster/reconciler.go\<close> (\<open>Member_Cluster\<close>): \<open>Start\<close> opens the informers, registers the
    handlers and starts the goroutines.
  \<^item> \<open>internal/membercluster/handler.go\<close> (\<open>Work_Queue\<close>, \<open>Event_Handlers\<close>, \<open>Event_Properties\<close>): the
    handlers turn informer events into keys; \<open>gatewayProcessor\<close> runs one goroutine per key over a map of
    shared cells under a mutex; \<open>reconcileWithRetries\<close> tries a pass three times.
  \<^item> \<open>internal/gateway/reconciler.go\<close> (\<open>Gateway_Reconciler\<close>, \<open>Polling\<close>, \<open>Go_Time\<close>, \<open>Reconciler_Trace\<close>,
    \<open>Reconciler_Properties\<close>, \<open>Reconciler_Progress\<close>): \<open>Reconcile\<close> is one pass over one Gateway.
  \<^item> \<open>internal/provisioner/apply.go\<close> (\<open>Apply\<close>, \<open>Apply_Properties\<close>): create-or-update with the guards
    against objects of another manager.
  \<^item> \<open>internal/provisioner/render.go\<close> (\<open>Render\<close>, \<open>Render_Properties\<close>, over \<open>Go_Strings\<close> and \<open>Go_Sha256\<close>):
    names, labels and the rendered objects.
  \<^item> \<open>internal/status/writer.go\<close> (\<open>Conditions\<close>, \<open>Route_Attachment\<close>, \<open>Route_Properties\<close>, \<open>Status_Writer\<close>,
    \<open>Status_Properties\<close>): condition lists, route attachment and reference resolution, the status writers.
  \<^item> \<open>cmd/xds-echo/main.go\<close> (\<open>Xds_Echo\<close>): the stream handlers of the bring-up server.

  \<^bold>\<open>The model.\<close> A function that talks to the outside is a computation of type \<open>('w, 'a) io\<close>, a state
  monad over an abstract world \<open>'w\<close>; one that can fail, \<open>('w, 'a) fio\<close>, returns \<open>error + 'a\<close>
  (\<open>Gateway_Prelude\<close>). \<open>bindE\<close> is the code's \<open>if err != nil { return wrap(err) }\<close>, \<open>tryE\<close> a handled error,
  \<open>forE\<close> a loop that stops at the first error. Objects are records with the fields the code touches
  (\<open>Kube_Types\<close>); pointers are options, Go maps are partial functions, slices are lists. Definitions keep the
  names of the Go functions and the order of their statements, with every early return. \<open>traced k c\<close>
  (\<open>Kube_Trace\<close>) is a client that keeps a log of what it read and wrote in cluster \<open>k\<close>; as the world is
  arbitrary, a theorem about a traced run holds whatever the API servers answer, also when other writers are
  at work between two calls. The work queue is a step relation on its heap of cells, map and goroutines
  (\<open>step\<close>, \<open>reach\<close>): a label is one lock section or one reconcile.

  \<^bold>\<open>Interfaces.\<close>
  \<^item> \<open>condition_store\<close> (\<open>Conditions\<close>): a map from condition types with an update that keeps the transition
    time of an unchanged status; interpreted as \<open>cl\<close> on \<open>conditionByType\<close> and \<open>upsertCondition\<close>.
  \<^item> \<open>status_stamp\<close> (\<open>Status_Writer\<close>): a status change that leaves the spec alone and is idempotent at later
    times; \<open>gcs\<close>, \<open>acc\<close>, \<open>prg\<close>, \<open>rfs\<close> are the four stamps of the writers.
  \<^item> \<open>read_guard\<close> (\<open>Traced_Reads\<close>): a guard on logs that allows every read; \<open>rg\<close> is the guard of a reconcile,
    \<open>ig\<close> that of the bootstrap and the resync loop.
  \<^item> \<open>poll_loop\<close> (\<open>Polling\<close>): a loop that reads until an answer satisfies it; \<open>av\<close> and \<open>ad\<close> are the waits for
    the Deployment and for the addresses.

  \<^bold>\<open>What is proved.\<close> For the reconciler: every write of a pass is allowed by the history before it
  (infra objects in the tenant namespace, after the certificates were checked; statuses and one service
  account in the member cluster; deletions of own objects only; \<open>Programmed\<close> after the data plane was seen
  ready), and, conversely, a nil error means that all the work was done. For the status writers: what each
  stores, that stored statuses are a fixpoint, the decision table of route attachment, that hostname
  intersection is the existence of a common host, soundness of backend resolution. For the renderer and
  the applier: names are DNS labels, pods are locked down, exactly the given certificates are mounted, the
  result depends on the set of certificates only, an apply of an unchanged object sends the stored one back,
  and the calls of an apply. For the queue: refinement of a per-key machine, one goroutine per key, no lost
  event. For the command: what the bootstrap may write, that every tick of the resync loop applies the
  rendered Istiod again, that an invalid configuration exits with 1 before any call. For the echo server: its loops return exactly when the stream
  ends. This theory adds the path through cache, handlers and queue, from an informer event to the start of
  a pass. Theorems that show unintended behaviour (colliding names, lost class events, unnoticed relabelling,
  swallowed status errors, and others) say so in their text.

  \<^bold>\<open>Bounds and fuel.\<close> A loop that waits on a ticker and on a context takes the number of ticks before
  the context ends as an argument; it is structurally recursive in it and its theorems hold for every number.
  Retries of \<open>RetryOnConflict\<close> are bounded by the law below. The stream loops of the echo server, which have no
  bound, are \<open>partial_function (option)\<close> and their theorems say when they return. Integers keep Go's width where
  the code narrows them (\<open>int32\<close> of the replica flag) and in SHA-256 (32-bit words); ports, generations and
  replica counts are \<open>int\<close>, as the code only compares and copies them. The request counter of the echo server
  is a \<open>nat\<close>. \<open>%q\<close> is modelled on printable ASCII.

  \<^bold>\<open>Hypotheses on the libraries.\<close> \<open>retry_law\<close>: \<open>RetryOnConflict\<close> repeats its function while it answers a
  conflict, some number of times. \<open>clock_law\<close>: reading the clock calls no API. \<open>silentLib\<close>: setting up the cache
  writes through neither of the two clients. A \<open>Get\<close> returns the whole object:
  its target is either fresh or, in \<open>Apply\<close> and \<open>deleteManagedGatewayObject\<close>, replaced by the clients used there.

  \<^bold>\<open>Not modelled.\<close> The internals of controller-runtime, client-go and gRPC (clients, caches, informers, the
  manager, leader election, transport) are parameters. The flag package is too: \<open>parseFlags\<close> takes the values given
  on the command line. Logging, the zap options and the lengths of timers are left out, since no branch
  depends on them; contexts appear only as the number of ticks they last and as \<open>parentDone\<close> in the retry loops.
\<close>

section \<open>From an event to a reconcile\<close>

text \<open>
  The events that the handlers act on: a new object; an update with another generation, or that sets or removes
  the deletion mark; a deletion, which may come wrapped in a tombstone.
\<close>

definition changed :: "objectMeta \<Rightarrow> objectMeta \<Rightarrow> bool" where
  "changed old new \<longleftrightarrow> m_Generation old \<noteq> m_Generation new \<or> m_Deleting old \<noteq> m_Deleting new"

definition noticed :: "informerEvent \<Rightarrow> objectMeta \<Rightarrow> bool" where
  "noticed ev m \<longleftrightarrow> ev = AddEvent (KubeObject m) \<or> (\<exists>old. ev = UpdateEvent (KubeObject old) (KubeObject m) \<and> changed old m) \<or>
     ev = DeleteEvent (KubeObject m) \<or> ev = DeleteEvent (DeletedFinalStateUnknown (KubeObject m))"

text \<open>The keys that the handlers hand to \<open>enqueue\<close>, in this order.\<close>

primrec gatewayKeys :: "work list \<Rightarrow> nname list" where
  "gatewayKeys [] = []"
| "gatewayKeys (x # xs) = (case x of GatewayWork key \<Rightarrow> [key] | ClassWork _ \<Rightarrow> []) @ gatewayKeys xs"

lemma gatewayKeys_append [simp]: "gatewayKeys (xs @ ys) = gatewayKeys xs @ gatewayKeys ys"
  by (induction xs) simp_all

lemma gatewayKeys_gateways [simp]: "gatewayKeys (map GatewayWork ks) = ks"
  by (induction ks) simp_all

lemma gatewayKeys_classes [simp]: "gatewayKeys (map ClassWork ns) = []"
  by (induction ns) simp_all

lemma objectChanged_changed: "objectChanged (KubeObject old) (KubeObject new) \<longleftrightarrow> changed old new"
  by (auto simp: changed_def)

lemma handlers_noticed:
  assumes "noticed ev m"
  shows "newGatewayHandler ev = [keyOf m]" and "newGatewayRefreshHandler c ev = enqueueAllGateways c"
  using assms by (auto simp: noticed_def objectChanged_changed simp del: objectChanged.simps)

lemma dispatched_keys:
  assumes "run_state (Member_Cluster.Start (notingLib R) cfg) (w, []) = (Inr m, w', log)" and "noticed ev obj"
    and "k \<noteq> KGateway \<Longrightarrow> run_state (List (gateways (mc_Client m)) None) v = (Inr gws, v')"
  shows "gatewayKeys (fst (run_state (dispatch (handlersOf log k) ev) v)) =
    (if k = KGateway then [keyOf obj] else map (\<lambda>gw. keyOf (gw_Meta gw)) gws)"
  using run_enqueueAllGateways [OF assms(3)]
  by (auto simp: Start_handlers [OF assms(1)] handlers_noticed [OF assms(2)] simp del: map_map)

text \<open>
  The other updates, of labels, annotations or status alone, reach no queue.
\<close>

lemma dispatched_unnoticed:
  assumes "run_state (Member_Cluster.Start (notingLib R) cfg) (w, []) = (Inr m, w', log)" and "\<not> changed old new"
  shows "gatewayKeys (fst (run_state (dispatch (handlersOf log k) (UpdateEvent (KubeObject old) (KubeObject new))) v)) = []"
  using assms(2) by (simp add: Start_handlers [OF assms(1)] objectChanged_changed del: objectChanged.simps)

text \<open>
  C6: a change that the handlers notice is followed by a reconcile. Let the member cluster cache have started and
  the queue be in any reachable state, in the middle of whatever reconciles. When an informer tells of an added or
  deleted object of any of the watched kinds, or of one whose generation or deletion mark changed, and, for a kind
  other than Gateway, the list of the Gateways can be read, then the registered handlers hand over keys so that the
  queue stays on a history of the code, and for the key of the Gateway itself, or, for an object of another kind, for
  the key of every Gateway listed, at most three further steps of that key's goroutine lead to a reconcile that starts
  after the event. An update that changes neither, as that of a label, hands over no key.
\<close>

theorem change_is_reconciled:
  assumes "run_state (Member_Cluster.Start (notingLib R) cfg) (w, []) = (Inr m, w', log)"
    and "noticed ev obj" and "k \<noteq> KGateway \<Longrightarrow> run_state (List (gateways (mc_Client m)) None) v = (Inr gws, v')"
    and "reach tr p" and "key \<in> (if k = KGateway then {keyOf obj} else (\<lambda>gw. keyOf (gw_Meta gw)) ` set gws)"
  shows "(let keys = gatewayKeys (fst (run_state (dispatch (handlersOf log k) ev) v)); tr' = rev (map Enqueue keys) @ tr in
      reach tr' (fold enqueue keys p) \<and>
      (\<exists>ls p'. reach (ls @ tr') p' \<and> set ls \<subseteq> {label.Start key, Finish key, Settle key} \<and> length ls \<le> 3 \<and> label.Start key \<in> set ls)) \<and>
    (\<forall>old new u. \<not> changed old new \<longrightarrow>
      gatewayKeys (fst (run_state (dispatch (handlersOf log k) (UpdateEvent (KubeObject old) (KubeObject new))) u)) = [])"
proof -
  let ?keys = "gatewayKeys (fst (run_state (dispatch (handlersOf log k) ev) v))"
  have "key \<in> set ?keys"
    using assms(5) by (simp add: dispatched_keys [OF assms(1-3)] split: if_splits)
  then have "pending key (rev (map Enqueue ?keys) @ tr)" by (rule pending_enqueues)
  with reach_enqueues [OF assms(4)] obtain ls p' where
    "ls \<in> restarts key" and "reach (ls @ rev (map Enqueue ?keys) @ tr) p'"
    using pending_restarts by blast
  then have "\<exists>ls p'. reach (ls @ rev (map Enqueue ?keys) @ tr) p' \<and> set ls \<subseteq> {label.Start key, Finish key, Settle key} \<and>
      length ls \<le> 3 \<and> label.Start key \<in> set ls"
    by (intro exI [of _ ls] exI [of _ p']) (auto simp: restarts_def)
  with reach_enqueues [OF assms(4)] dispatched_unnoticed [OF assms(1)] show ?thesis by (simp add: Let_def)
qed

text \<open>Witness for C6: a Secret is deleted while the sample Gateway is being reconciled.\<close>

theorem change_is_reconciled_witness:
  "\<exists>m log ls p'. run_state (Member_Cluster.Start (notingLib (sampleRuntime\<lparr>NewClient := \<lambda>_ _. ok (sampleMember tlsGateway)\<rparr>))
       sampleCacheConfig) ((), []) = (Inr m, (), log) \<and>
     reach (ls @ rev (map Enqueue (gatewayKeys (fst (run_state (dispatch (handlersOf log KSecret)
       (DeleteEvent (DeletedFinalStateUnknown (KubeObject emptyMeta)))) ())))) @
       [Enqueue demoKey, label.Start demoKey, Enqueue demoKey]) p' \<and> label.Start demoKey \<in> set ls"
proof -
  let ?ev = "DeleteEvent (DeletedFinalStateUnknown (KubeObject emptyMeta))" and ?m = "\<lparr>mc_Cache = (), mc_Client = sampleMember tlsGateway\<rparr>"
  let ?start = "run_state (Member_Cluster.Start (notingLib (sampleRuntime\<lparr>NewClient := \<lambda>_ _. ok (sampleMember tlsGateway)\<rparr>))
       sampleCacheConfig) ((), [])"
  have "\<exists>log. ?start = (Inr ?m, (), log)"
    by (simp add: Start_def sampleRuntime_def openInformer_def register_def addRefresh_def informerKinds_def
        refreshKinds_def Let_def)
  then obtain log where run: "?start = (Inr ?m, (), log)" ..
  obtain p where p: "reach [Enqueue demoKey, label.Start demoKey, Enqueue demoKey] p" using sample_reach by blast
  have "noticed ?ev emptyMeta" by (simp add: noticed_def)
  moreover have "run_state (List (gateways (mc_Client ?m)) None) () = (Inr [tlsGateway], ())"
    by (simp add: sampleMember_def constResource_def)
  moreover have "demoKey = keyOf (gw_Meta tlsGateway)"
    by (simp add: demoKey_def keyOf_def tlsGateway_def sample_defs)
  ultimately show ?thesis
    using change_is_reconciled [OF run, of ?ev emptyMeta KSecret "()" "[tlsGateway]" "()" _ p demoKey] run p
    by (simp add: Let_def) blast
qed

end
